(* ===== verification/Go_Prelude.thy ===== *)
theory Go_Prelude
  imports Main "HOL-Library.Sublist" "HOL-Library.AList" "HOL-Library.Multiset"
begin

text \<open>
  The shared base of the development: the functions of Go's standard library that the
  controller uses (packages \<open>strings\<close> and \<open>net/url\<close>), Go maps as association lists,
  and the lemmas on them that the component theories share.

  A Go string is a sequence of bytes and is modelled as \<^typ>\<open>string\<close>, a list of 8-bit
  characters. Functions of the standard library keep their Go names; where the argument
  order differs from a HOL constant the Go order is kept.

  A Go map is an association list with distinct keys. Reading a missing key is
  \<open>None\<close>. Ranging over a map visits its entries in an order that Go leaves open: a
  function of the model that ranges over a map takes the order as an argument
  (a function \<open>rng\<close> on the list of entries), and \<open>is_range rng\<close> says that it is a
  permutation of them.
\<close>

named_theorems go_strings "equations of the string functions"
named_theorems go_maps "equations of Go maps"

section \<open>Package strings\<close>

definition HasPrefix :: "string \<Rightarrow> string \<Rightarrow> bool" where
  "HasPrefix s p = prefix p s"

definition HasSuffix :: "string \<Rightarrow> string \<Rightarrow> bool" where
  "HasSuffix s p = suffix p s"

definition Contains :: "string \<Rightarrow> string \<Rightarrow> bool" where
  "Contains s t = sublist t s"

definition ContainsAny :: "string \<Rightarrow> string \<Rightarrow> bool" where
  "ContainsAny s cs = list_ex (\<lambda>c. c \<in> set cs) s"

definition TrimPrefix :: "string \<Rightarrow> string \<Rightarrow> string" where
  "TrimPrefix s p = (if HasPrefix s p then drop (length p) s else s)"

definition TrimSuffix :: "string \<Rightarrow> string \<Rightarrow> string" where
  "TrimSuffix s p = (if HasSuffix s p then take (length s - length p) s else s)"

fun Join :: "string list \<Rightarrow> string \<Rightarrow> string" where
  "Join [] sep = []"
| "Join [x] sep = x"
| "Join (x # y # ys) sep = x @ sep @ Join (y # ys) sep"

text \<open>\<open>strings.Split\<close> and \<open>strings.SplitN\<close> for a separator of one byte, the only kind
  the controller uses.\<close>

fun Split :: "string \<Rightarrow> char \<Rightarrow> string list" where
  "Split [] c = [[]]"
| "Split (x # xs) c =
     (if x = c then [] # Split xs c
      else case Split xs c of [] \<Rightarrow> [[x]] | y # ys \<Rightarrow> (x # y) # ys)"

fun SplitN :: "string \<Rightarrow> char \<Rightarrow> nat \<Rightarrow> string list" where
  "SplitN s c 0 = []"
| "SplitN s c (Suc 0) = [s]"
| "SplitN s c (Suc (Suc n)) =
     (case dropWhile (\<lambda>x. x \<noteq> c) s of
        [] \<Rightarrow> [s]
      | _ # rest \<Rightarrow> takeWhile (\<lambda>x. x \<noteq> c) s # SplitN rest c (Suc n))"

text \<open>\<open>strings.ReplaceAll\<close>, for a non-empty \<open>old\<close> (the controller never passes an empty one).\<close>

function ReplaceAll :: "string \<Rightarrow> string \<Rightarrow> string \<Rightarrow> string" where
  "ReplaceAll s old new =
     (if s = [] \<or> old = [] then s
      else if prefix old s then new @ ReplaceAll (drop (length old) s) old new
      else hd s # ReplaceAll (tl s) old new)"
  by pat_completeness auto
termination
  by (relation "measure (\<lambda>(s, old, new). length s)") (auto simp: neq_Nil_conv)

declare ReplaceAll.simps [simp del]

text \<open>
  White space in the sense of \<open>unicode.IsSpace\<close>: the UTF-8 encodings of all its code points.
  \<open>strings.TrimSpace\<close> removes them on both sides.
\<close>

definition space_runes :: "string list" where
  "space_runes =
     [[CHR 0x09], [CHR 0x0A], [CHR 0x0B], [CHR 0x0C], [CHR 0x0D], [CHR 0x20],
      [CHR 0xC2, CHR 0x85], [CHR 0xC2, CHR 0xA0], [CHR 0xE1, CHR 0x9A, CHR 0x80],
      [CHR 0xE2, CHR 0x80, CHR 0x80], [CHR 0xE2, CHR 0x80, CHR 0x81],
      [CHR 0xE2, CHR 0x80, CHR 0x82], [CHR 0xE2, CHR 0x80, CHR 0x83],
      [CHR 0xE2, CHR 0x80, CHR 0x84], [CHR 0xE2, CHR 0x80, CHR 0x85],
      [CHR 0xE2, CHR 0x80, CHR 0x86], [CHR 0xE2, CHR 0x80, CHR 0x87],
      [CHR 0xE2, CHR 0x80, CHR 0x88], [CHR 0xE2, CHR 0x80, CHR 0x89],
      [CHR 0xE2, CHR 0x80, CHR 0x8A], [CHR 0xE2, CHR 0x80, CHR 0xA8],
      [CHR 0xE2, CHR 0x80, CHR 0xA9], [CHR 0xE2, CHR 0x80, CHR 0xAF],
      [CHR 0xE2, CHR 0x81, CHR 0x9F], [CHR 0xE3, CHR 0x80, CHR 0x80]]"

text \<open>Strip, from the left, the prefixes that are in a list of byte sequences; the first
  argument bounds the number of steps and \<open>length s\<close> is always enough.\<close>

fun strip_left :: "nat \<Rightarrow> string list \<Rightarrow> string \<Rightarrow> string" where
  "strip_left 0 rs s = s"
| "strip_left (Suc n) rs s =
     (case find (\<lambda>r. prefix r s) rs of
        None \<Rightarrow> s
      | Some r \<Rightarrow> strip_left n rs (drop (length r) s))"

definition TrimLeftSpace :: "string \<Rightarrow> string" where
  "TrimLeftSpace s = strip_left (length s) space_runes s"

definition TrimRightSpace :: "string \<Rightarrow> string" where
  "TrimRightSpace s = rev (strip_left (length s) (map rev space_runes) (rev s))"

definition TrimSpace :: "string \<Rightarrow> string" where
  "TrimSpace s = TrimRightSpace (TrimLeftSpace s)"

text \<open>
  Case mapping. \<open>strings.ToUpper\<close> maps ASCII strings byte by byte; on other strings it uses
  the Unicode tables, which are the parameter \<open>uni\<close>. \<open>strings.EqualFold\<close> is only used
  against the literal \<open>public\<close>, whose letters fold with their ASCII counterparts only.
\<close>

definition is_ascii :: "string \<Rightarrow> bool" where
  "is_ascii s = list_all (\<lambda>c. of_char c < (128::nat)) s"

definition ascii_upper :: "char \<Rightarrow> char" where
  "ascii_upper c =
     (let n = (of_char c :: nat) in if 97 \<le> n \<and> n \<le> 122 then char_of (n - 32) else c)"

definition ToUpper :: "(string \<Rightarrow> string) \<Rightarrow> string \<Rightarrow> string" where
  "ToUpper uni s = (if is_ascii s then map ascii_upper s else uni s)"

definition EqualFold_public :: "string \<Rightarrow> bool" where
  "EqualFold_public s = (map ascii_upper s = ''PUBLIC'')"

section \<open>Package net/url: QueryEscape\<close>

definition unreserved :: "char \<Rightarrow> bool" where
  "unreserved c =
     (let n = (of_char c :: nat)
      in (97 \<le> n \<and> n \<le> 122) \<or> (65 \<le> n \<and> n \<le> 90) \<or> (48 \<le> n \<and> n \<le> 57)
         \<or> c \<in> set ''-_.~'')"

definition hex_digit :: "nat \<Rightarrow> char" where
  "hex_digit n = ''0123456789ABCDEF'' ! (n mod 16)"

fun QueryEscape :: "string \<Rightarrow> string" where
  "QueryEscape [] = []"
| "QueryEscape (c # cs) =
     (if c = CHR '' '' then ''+''
      else if unreserved c then [c]
      else [CHR ''%'', hex_digit (of_char c div 16), hex_digit (of_char c mod 16)])
     @ QueryEscape cs"

section \<open>Go maps and ranges over them\<close>

type_synonym ('k, 'v) gomap = "('k \<times> 'v) list"

abbreviation gm_get :: "('k, 'v) gomap \<Rightarrow> 'k \<Rightarrow> 'v option" where
  "gm_get m k \<equiv> map_of m k"

abbreviation gm_put :: "'k \<Rightarrow> 'v \<Rightarrow> ('k, 'v) gomap \<Rightarrow> ('k, 'v) gomap" where
  "gm_put k v m \<equiv> AList.update k v m"

text \<open>\<open>m[k] = append(m[k], v)\<close>, a missing entry being the empty slice.\<close>

definition gm_append :: "'k \<Rightarrow> 'v \<Rightarrow> ('k, 'v list) gomap \<Rightarrow> ('k, 'v list) gomap" where
  "gm_append k v m = gm_put k ((case gm_get m k of None \<Rightarrow> [] | Some vs \<Rightarrow> vs) @ [v]) m"

text \<open>The loop \<open>for _, x := range xs { m[key(x)] = append(m[key(x)], val(x)) }\<close>.\<close>

definition gm_group :: "('a \<Rightarrow> 'k) \<Rightarrow> ('a \<Rightarrow> 'v) \<Rightarrow> 'a list \<Rightarrow> ('k, 'v list) gomap" where
  "gm_group key val xs = foldl (\<lambda>m x. gm_append (key x) (val x) m) [] xs"

definition is_range :: "('a list \<Rightarrow> 'a list) \<Rightarrow> bool" where
  "is_range rng \<longleftrightarrow> (\<forall>m. mset (rng m) = mset m)"

section \<open>Lemmas\<close>

lemma HasPrefix_append [simp]: "HasPrefix (p @ s) p"
  by (simp add: HasPrefix_def)

lemma HasSuffix_append [simp]: "HasSuffix (s @ p) p"
  by (simp add: HasSuffix_def suffix_def)

lemma TrimPrefix_append [simp]: "TrimPrefix (p @ s) p = s"
  by (simp add: TrimPrefix_def)

lemma TrimSuffix_append [simp]: "TrimSuffix (s @ p) p = s"
  by (simp add: TrimSuffix_def)

lemma Split_nonempty [simp]: "Split s c \<noteq> []"
  by (induction s) (auto split: list.splits)

lemma Split_no_sep: "c \<notin> set s \<Longrightarrow> Split s c = [s]"
  by (induction s) auto

lemma Split_append_sep: "c \<notin> set s \<Longrightarrow> Split (s @ c # t) c = s # Split t c"
  by (induction s) (auto split: list.splits)

text \<open>Splitting what \<open>strings.Join\<close> joined gives the pieces back.\<close>

lemma Split_Join:
  assumes "xs \<noteq> []" and "\<forall>x\<in>set xs. c \<notin> set x"
  shows "Split (Join xs [c]) c = xs"
  using assms by (induction xs "[c]" rule: Join.induct) (auto simp: Split_no_sep Split_append_sep)

lemma SplitN_no_sep:
  assumes "c \<notin> set s"
  shows "SplitN s c (Suc n) = [s]"
proof -
  have "dropWhile (\<lambda>x. x \<noteq> c) s = []"
    using assms by (auto simp: dropWhile_eq_Nil_conv)
  then show ?thesis by (cases n) (simp_all del: dropWhile_eq_Nil_conv)
qed

lemma dropWhile_sep: "c \<notin> set s \<Longrightarrow> dropWhile (\<lambda>x. x \<noteq> c) (s @ c # t) = c # t"
  by (induction s) auto

lemma takeWhile_sep: "c \<notin> set s \<Longrightarrow> takeWhile (\<lambda>x. x \<noteq> c) (s @ c # t) = s"
  by (induction s) auto

lemma SplitN_append_sep:
  "c \<notin> set s \<Longrightarrow> SplitN (s @ c # t) c (Suc (Suc n)) = s # SplitN t c (Suc n)"
  by (simp add: dropWhile_sep takeWhile_sep)

lemma SplitN_nonempty [simp]: "SplitN s c (Suc n) \<noteq> []"
  by (cases n) (auto split: list.splits)

lemma is_range_set: "is_range rng \<Longrightarrow> set (rng m) = set m"
  by (auto simp: is_range_def dest: mset_eq_setD)

lemma gm_append_get [go_maps]:
  "gm_get (gm_append k v m) k' =
     (if k' = k then Some ((case gm_get m k of None \<Rightarrow> [] | Some vs \<Rightarrow> vs) @ [v])
      else gm_get m k')"
  by (simp add: gm_append_def update_conv')

lemma distinct_gm_append [intro]:
  "distinct (map fst m) \<Longrightarrow> distinct (map fst (gm_append k v m))"
  by (simp add: gm_append_def distinct_update)

lemma gm_group_get [go_maps]:
  "gm_get (gm_group key val xs) k =
     (if filter (\<lambda>x. key x = k) xs = [] then None else Some (map val (filter (\<lambda>x. key x = k) xs)))"
  unfolding gm_group_def
  by (induction xs rule: rev_induct) (auto simp: gm_append_get split: option.splits if_splits)

lemma distinct_gm_group: "distinct (map fst (gm_group key val xs))"
  unfolding gm_group_def by (induction xs rule: rev_induct) auto

lemma set_gm_group:
  "set (gm_group key val xs) = {(k, map val (filter (\<lambda>x. key x = k) xs)) | k. k \<in> key ` set xs}"
proof -
  have "(k, vs) \<in> set (gm_group key val xs) \<longleftrightarrow> gm_get (gm_group key val xs) k = Some vs" for k vs
    using distinct_gm_group by (metis map_of_eq_Some_iff)
  then show ?thesis by (auto simp: gm_group_get filter_empty_conv image_iff split: if_splits)
qed

end
