(* ===== verification/Api_Types.thy ===== *)
theory Api_Types
  imports Go_Prelude
begin

text \<open>
  The custom resources of \<open>api/v1alpha1\<close>, one record per Go struct with the fields in the
  source's order. A pointer field is an \<open>option\<close> (\<open>nil\<close> is \<open>None\<close>), a slice a list.
  Of the Kubernetes object metadata only the fields the controllers read or write are kept.

  A \<open>metav1.Time\<close> is an integer, the nanoseconds since Go's zero time, so that the zero
  time is \<open>0\<close> and \<open>Before\<close> and \<open>After\<close> are \<open><\<close> and \<open>>\<close>.
\<close>

section \<open>Metadata and resource references\<close>

type_synonym gotime = int

definition IsZero :: "gotime option \<Rightarrow> bool" where
  "IsZero t = (case t of None \<Rightarrow> True | Some x \<Rightarrow> x = 0)"

record ObjectMeta =
  om_Name :: string
  om_Namespace :: string
  om_Finalizers :: "string list"
  om_DeletionTimestamp :: "gotime option"

record KeySelector =
  ks_Name :: string
  ks_Key :: string

record ResourceVarSource =
  rvs_SecretKeyRef :: "KeySelector option"
  rvs_ConfigMapKeyRef :: "KeySelector option"

record ResourceVar =
  rv_Value :: string
  rv_ValueFrom :: "ResourceVarSource option"

abbreviation static_var :: "string \<Rightarrow> ResourceVar" where
  "static_var v \<equiv> \<lparr>rv_Value = v, rv_ValueFrom = None\<rparr>"

section \<open>PostgreSQLDatabase\<close>

record PostgreSQLDatabaseExtension =
  ExtensionName :: string

record PostgreSQLDatabaseSpec =
  ds_Name :: string
  ds_User :: ResourceVar
  ds_Password :: "ResourceVar option"
  ds_IsShared :: bool
  ds_Host :: ResourceVar
  ds_HostCredentials :: string
  ds_Extensions :: "PostgreSQLDatabaseExtension list"

text \<open>The phase is a Go string type: the zero value is the phase of a resource that was
  never reconciled.\<close>

datatype PostgreSQLDatabasePhase =
    PostgreSQLDatabasePhaseNone
  | PostgreSQLDatabasePhaseFailed
  | PostgreSQLDatabasePhaseInvalid
  | PostgreSQLDatabasePhaseRunning

record PostgreSQLDatabaseStatus =
  dst_PhaseUpdated :: gotime
  dst_Phase :: PostgreSQLDatabasePhase
  dst_Host :: string
  dst_User :: string
  dst_Error :: string

record PostgreSQLDatabase =
  db_Meta :: ObjectMeta
  db_Spec :: PostgreSQLDatabaseSpec
  db_Status :: PostgreSQLDatabaseStatus

section \<open>PostgreSQLUser\<close>

record AccessSpec =
  as_Host :: ResourceVar
  as_AllDatabases :: "bool option"
  as_Database :: ResourceVar
  as_Schema :: ResourceVar
  as_Reason :: string
  as_Start :: "gotime option"
  as_Stop :: "gotime option"

record WriteAccessSpec =
  was_AccessSpec :: AccessSpec
  was_Extended :: bool

record PostgreSQLUserSpec =
  us_Name :: string
  us_Read :: "AccessSpec list option"
  us_Write :: "WriteAccessSpec list option"

record PostgreSQLUser =
  pu_Meta :: ObjectMeta
  pu_Spec :: PostgreSQLUserSpec

section \<open>PostgreSQLHostCredentials\<close>

record PostgreSQLHostCredentialsSpec =
  hcs_Host :: ResourceVar
  hcs_User :: ResourceVar
  hcs_Password :: ResourceVar
  hcs_Params :: string

record PostgreSQLHostCredentials =
  hc_Meta :: ObjectMeta
  hc_Spec :: PostgreSQLHostCredentialsSpec

section \<open>CustomRole\<close>

record CustomRoleGrantSpec =
  crg_Schema :: string
  crg_Table :: string
  crg_Privileges :: "string list"

record CustomRoleFunctionSpec =
  crf_Name :: string
  crf_Args :: string
  crf_Returns :: string
  crf_OwningRole :: string
  crf_Body :: string

record CustomRoleSpec =
  crs_RoleName :: string
  crs_GrantRoles :: "string list"
  crs_Databases :: "string list"
  crs_Grants :: "CustomRoleGrantSpec list"
  crs_Functions :: "CustomRoleFunctionSpec list"

datatype CustomRolePhase =
    CustomRolePhaseNone
  | CustomRolePhaseFailed
  | CustomRolePhaseInvalid
  | CustomRolePhaseRunning

record CustomRoleStatus =
  crst_Phase :: CustomRolePhase
  crst_PhaseUpdated :: gotime
  crst_Error :: string
  crst_FailingHost :: string

record CustomRole =
  cr_Meta :: ObjectMeta
  cr_Spec :: CustomRoleSpec
  cr_Status :: CustomRoleStatus

definition IsUnchanged ::
    "CustomRoleStatus \<Rightarrow> CustomRolePhase \<Rightarrow> string \<Rightarrow> string \<Rightarrow> bool" where
  "IsUnchanged s phase errorMessage failingHost =
     (crst_Phase s = phase \<and> crst_Error s = errorMessage \<and> crst_FailingHost s = failingHost)"

end
