(* ===== verification/Go_Errors.thy ===== *)
theory Go_Errors
  imports Api_Types
begin

text \<open>
  Go error values and package \<open>pkg/errors\<close>.

  An \<open>error\<close> is a value of \<open>goerr\<close>; the absence of an error (\<open>nil\<close>) is
  \<open>None\<close> of \<open>goerr option\<close>, and a function that returns a value or an error returns
  \<open>goerr + 'a\<close>. \<open>fmt.Errorf\<close> keeps its format and its arguments: \<open>Errorf\<close> when nothing
  is wrapped, \<open>Wrapf\<close> when the format has a \<open>%w\<close>. The rendering of a message is a
  parameter of the definitions that store one.

  Errors from outside the repository carry what the code asks of them: \<open>PqError\<close> the
  SQLSTATE and its condition name, \<open>ApiError\<close> whether \<open>apierrors.IsNotFound\<close> holds of it,
  \<open>AwsError\<close> its code, \<open>ExtError\<close> nothing but a text. A \<open>multierr\<close> value is the list of
  the errors that were appended to it; \<open>multierr.Append\<close> of a first error is that error.
\<close>

datatype sentinel = NoValue | NotFound | UnknownKey

datatype goerr =
    Errorf string "string list"
  | Wrapf string "string list" goerr
  | Sentinel sentinel
  | Invalid goerr
  | Temporary goerr
  | AccessErr AccessSpec goerr
  | MultiErr "goerr list"
  | PqError string string string
  | ApiError bool string
  | AwsError string string
  | ExtError string

section \<open>The error tree\<close>

text \<open>The tree that \<open>errors.Is\<close> and \<open>errors.As\<close> search, in their order.\<close>

fun chain :: "goerr \<Rightarrow> goerr list" where
  "chain (Wrapf f as e) = Wrapf f as e # chain e"
| "chain (Invalid e) = Invalid e # chain e"
| "chain (Temporary e) = Temporary e # chain e"
| "chain (AccessErr a e) = AccessErr a e # chain e"
| "chain (MultiErr es) = MultiErr es # concat (map chain es)"
| "chain e = [e]"

definition errors_Is :: "goerr \<Rightarrow> goerr \<Rightarrow> bool" where
  "errors_Is e target = (target \<in> set (chain e))"

definition errors_As :: "(goerr \<Rightarrow> bool) \<Rightarrow> goerr \<Rightarrow> goerr option" where
  "errors_As p e = find p (chain e)"

text \<open>\<open>multierr.Append\<close> on an accumulated error; a \<open>multierr\<close> value on either side is
  flattened.\<close>

fun multierr_parts :: "goerr \<Rightarrow> goerr list" where
  "multierr_parts (MultiErr es) = es"
| "multierr_parts e = [e]"

definition multierr_Append :: "goerr option \<Rightarrow> goerr \<Rightarrow> goerr option" where
  "multierr_Append acc e =
     (case acc of
        None \<Rightarrow> Some e
      | Some a \<Rightarrow> Some (MultiErr (multierr_parts a @ multierr_parts e)))"

section \<open>Package errors\<close>

fun is_Invalid :: "goerr \<Rightarrow> bool" where
  "is_Invalid (Invalid e) = True"
| "is_Invalid e = False"

fun is_Temporary :: "goerr \<Rightarrow> bool" where
  "is_Temporary (Temporary e) = True"
| "is_Temporary e = False"

definition NewInvalid :: "goerr option \<Rightarrow> goerr option" where
  "NewInvalid err = (case err of None \<Rightarrow> None | Some e \<Rightarrow> Some (Invalid e))"

definition NewTemporary :: "goerr option \<Rightarrow> goerr option" where
  "NewTemporary err = (case err of None \<Rightarrow> None | Some e \<Rightarrow> Some (Temporary e))"

definition IsInvalid :: "goerr \<Rightarrow> bool" where
  "IsInvalid err = (errors_As is_Invalid err \<noteq> None)"

definition IsTemporary :: "goerr \<Rightarrow> bool" where
  "IsTemporary err = (errors_As is_Temporary err \<noteq> None)"

section \<open>Errors from outside the repository\<close>

text \<open>The type assertion \<open>err.(*pq.Error)\<close> with a look at the condition name: the error
  itself, not one it wraps.\<close>

fun pq_condition :: "goerr \<Rightarrow> string option" where
  "pq_condition (PqError code name msg) = Some name"
| "pq_condition e = None"

fun is_PqError :: "goerr \<Rightarrow> bool" where
  "is_PqError (PqError code name msg) = True"
| "is_PqError e = False"

fun pq_code :: "goerr \<Rightarrow> string" where
  "pq_code (PqError code name msg) = code"
| "pq_code e = []"

definition isPermissionDenied :: "goerr \<Rightarrow> bool" where
  "isPermissionDenied err =
     (case errors_As is_PqError err of None \<Rightarrow> False | Some e \<Rightarrow> pq_code e = ''42501'')"

definition IsNotFound :: "goerr \<Rightarrow> bool" where
  "IsNotFound err =
     (case errors_As (\<lambda>e. case e of ApiError b m \<Rightarrow> True | _ \<Rightarrow> False) err of
        Some (ApiError b m) \<Rightarrow> b
      | _ \<Rightarrow> False)"

section \<open>Lemmas\<close>

lemma find_append: "find p (xs @ ys) = (case find p xs of None \<Rightarrow> find p ys | Some x \<Rightarrow> Some x)"
  by (induction xs) auto

lemma find_concat_None: "find p (concat xss) = None \<longleftrightarrow> (\<forall>xs\<in>set xss. find p xs = None)"
  by (induction xss) (auto simp: find_append split: option.splits)

lemma IsInvalid_simps [simp]:
  "IsInvalid (Errorf f as) = False"
  "IsInvalid (Wrapf f as e) = IsInvalid e"
  "IsInvalid (Sentinel s) = False"
  "IsInvalid (Invalid e) = True"
  "IsInvalid (Temporary e) = IsInvalid e"
  "IsInvalid (AccessErr a e) = IsInvalid e"
  "IsInvalid (MultiErr es) = list_ex IsInvalid es"
  "IsInvalid (PqError c n m) = False"
  "IsInvalid (ApiError b m) = False"
  "IsInvalid (AwsError c m) = False"
  "IsInvalid (ExtError m) = False"
  by (simp_all add: IsInvalid_def errors_As_def find_concat_None list_ex_iff del: not_None_eq)

lemma IsTemporary_simps [simp]:
  "IsTemporary (Errorf f as) = False"
  "IsTemporary (Wrapf f as e) = IsTemporary e"
  "IsTemporary (Sentinel s) = False"
  "IsTemporary (Invalid e) = IsTemporary e"
  "IsTemporary (Temporary e) = True"
  "IsTemporary (AccessErr a e) = IsTemporary e"
  "IsTemporary (MultiErr es) = list_ex IsTemporary es"
  "IsTemporary (PqError c n m) = False"
  "IsTemporary (ApiError b m) = False"
  "IsTemporary (AwsError c m) = False"
  "IsTemporary (ExtError m) = False"
  by (simp_all add: IsTemporary_def errors_As_def find_concat_None list_ex_iff del: not_None_eq)

lemma IsInvalid_multierr_parts [simp]: "list_ex IsInvalid (multierr_parts e) = IsInvalid e"
  by (cases e) auto

lemma multierr_Append_not_None [simp]: "multierr_Append acc e \<noteq> None"
  by (simp add: multierr_Append_def split: option.splits)

lemma multierr_Append_IsInvalid:
  "multierr_Append acc e = Some e' \<Longrightarrow>
     IsInvalid e' \<longleftrightarrow> (case acc of None \<Rightarrow> False | Some a \<Rightarrow> IsInvalid a) \<or> IsInvalid e"
  by (auto simp: multierr_Append_def list_ex_append split: option.splits)

end
