(* ===== verification/Kube.thy ===== *)
theory Kube
  imports Go_Errors
begin

text \<open>
  Package \<open>pkg/kube\<close>: resolving a \<open>ResourceVar\<close> to its value.

  The Kubernetes API is outside the repository. Its reads are the fields of \<open>kube_client\<close>:
  what \<open>client.Get\<close> answers for a Secret or a ConfigMap (the \<open>Data\<close> map or an error) and
  what \<open>client.List\<close> answers for the databases of a namespace. The client is fixed during
  one resolution: it stands for the state of the API server at that time.
\<close>

record kube_client =
  get_Secret :: "string \<Rightarrow> string \<Rightarrow> goerr + (string, string) gomap"
  get_ConfigMap :: "string \<Rightarrow> string \<Rightarrow> goerr + (string, string) gomap"
  list_Databases :: "string \<Rightarrow> goerr + PostgreSQLDatabase list"

definition ErrNoValue :: goerr where
  "ErrNoValue = Invalid (Sentinel NoValue)"

definition errNotFound :: goerr where
  "errNotFound = Temporary (Invalid (Sentinel NotFound))"

definition errUnknownKey :: goerr where
  "errUnknownKey = Temporary (Invalid (Sentinel UnknownKey))"

definition SecretValue ::
    "kube_client \<Rightarrow> string \<Rightarrow> string \<Rightarrow> string \<Rightarrow> goerr + string" where
  "SecretValue client namespace name key =
     (case get_Secret client namespace name of
        Inl err \<Rightarrow> if IsNotFound err then Inl errNotFound else Inl err
      | Inr data \<Rightarrow> (case gm_get data key of None \<Rightarrow> Inl errUnknownKey | Some v \<Rightarrow> Inr v))"

definition ConfigMapValue ::
    "kube_client \<Rightarrow> string \<Rightarrow> string \<Rightarrow> string \<Rightarrow> goerr + string" where
  "ConfigMapValue client namespace name key =
     (case get_ConfigMap client namespace name of
        Inl err \<Rightarrow> if IsNotFound err then Inl errNotFound else Inl err
      | Inr data \<Rightarrow> (case gm_get data key of None \<Rightarrow> Inl errUnknownKey | Some v \<Rightarrow> Inr v))"

text \<open>A reference that is present and names a key (\<open>ref != nil && ref.Key != ""\<close>).\<close>

definition selected :: "(ResourceVarSource \<Rightarrow> KeySelector option) \<Rightarrow> ResourceVar \<Rightarrow> KeySelector option" where
  "selected f r =
     (case rv_ValueFrom r of
        None \<Rightarrow> None
      | Some src \<Rightarrow>
         (case f src of None \<Rightarrow> None | Some ref \<Rightarrow> if ks_Key ref \<noteq> [] then Some ref else None))"

definition ResourceValue :: "kube_client \<Rightarrow> ResourceVar \<Rightarrow> string \<Rightarrow> goerr + string" where
  "ResourceValue client resource namespace =
     (if rv_Value resource \<noteq> [] then Inr (rv_Value resource)
      else case selected rvs_SecretKeyRef resource of
        Some ref \<Rightarrow>
          (case SecretValue client namespace (ks_Name ref) (ks_Key ref) of
             Inl err \<Rightarrow> Inl (Wrapf ''secret %s key %s: %w'' [namespace @ ''/'' @ ks_Name ref, ks_Key ref] err)
           | Inr v \<Rightarrow> Inr v)
      | None \<Rightarrow>
        (case selected rvs_ConfigMapKeyRef resource of
           Some ref \<Rightarrow>
             (case ConfigMapValue client namespace (ks_Name ref) (ks_Key ref) of
                Inl err \<Rightarrow> Inl (Wrapf ''config map %s key %s: %w'' [namespace @ ''/'' @ ks_Name ref, ks_Key ref] err)
              | Inr v \<Rightarrow> Inr v)
         | None \<Rightarrow> Inl ErrNoValue))"

definition PostgreSQLDatabases :: "kube_client \<Rightarrow> string \<Rightarrow> goerr + PostgreSQLDatabase list" where
  "PostgreSQLDatabases c namespace =
     (case list_Databases c namespace of
        Inl err \<Rightarrow> Inl (Wrapf ''get databases in namespace: %w'' [] err)
      | Inr items \<Rightarrow> Inr items)"

section \<open>The resolver interface\<close>

text \<open>
  \<open>pkg/grants\<close> takes the resolver as a function (\<open>Granter.ResourceResolver\<close>). What it
  relies on: a literal value resolves to itself, and a reference with no value and no source
  is exactly what is reported as \<open>ErrNoValue\<close>.
\<close>

locale resource_resolver =
  fixes resolve :: "ResourceVar \<Rightarrow> string \<Rightarrow> goerr + string"
    and no_value :: goerr
  assumes resolve_literal: "rv_Value r \<noteq> [] \<Longrightarrow> resolve r ns = Inr (rv_Value r)"
    and resolve_unset:
      "rv_Value r = [] \<Longrightarrow> rv_ValueFrom r = None \<Longrightarrow> resolve r ns = Inl no_value"
begin

lemma resolve_literal_error: "resolve r ns = Inl e \<Longrightarrow> rv_Value r = []"
  using resolve_literal by (cases "rv_Value r = []") auto

lemma resolve_static: "resolve (static_var v) ns = (if v = [] then Inl no_value else Inr v)"
  using resolve_literal [of "static_var v" ns] resolve_unset [of "static_var v" ns] by simp

end

interpretation kube: resource_resolver "ResourceValue client" ErrNoValue for client
  by unfold_locales (simp_all add: ResourceValue_def selected_def)

section \<open>Lemmas\<close>

lemma ErrNoValue_class [simp]: "IsInvalid ErrNoValue" "\<not> IsTemporary ErrNoValue"
  by (simp_all add: ErrNoValue_def)

lemma errNotFound_class [simp]: "IsInvalid errNotFound" "IsTemporary errNotFound"
  by (simp_all add: errNotFound_def)

lemma errUnknownKey_class [simp]: "IsInvalid errUnknownKey" "IsTemporary errUnknownKey"
  by (simp_all add: errUnknownKey_def)

lemma errors_Is_Wrapf [simp]: "errors_Is (Wrapf f as e) ErrNoValue = errors_Is e ErrNoValue"
  by (simp add: errors_Is_def ErrNoValue_def)

lemma errors_Is_own [simp]:
  "errors_Is ErrNoValue ErrNoValue" "\<not> errors_Is errNotFound ErrNoValue" "\<not> errors_Is errUnknownKey ErrNoValue"
  by (simp_all add: errors_Is_def ErrNoValue_def errNotFound_def errUnknownKey_def)

text \<open>Errors of the API server that are not the package's own sentinel.\<close>

definition foreign_errors :: "kube_client \<Rightarrow> bool" where
  "foreign_errors client \<longleftrightarrow>
     (\<forall>ns n e. get_Secret client ns n = Inl e \<longrightarrow> \<not> errors_Is e ErrNoValue) \<and>
     (\<forall>ns n e. get_ConfigMap client ns n = Inl e \<longrightarrow> \<not> errors_Is e ErrNoValue)"

lemma value_errors:
  assumes "foreign_errors client"
  shows "SecretValue client ns n k = Inl e \<Longrightarrow> \<not> errors_Is e ErrNoValue"
    and "ConfigMapValue client ns n k = Inl e \<Longrightarrow> \<not> errors_Is e ErrNoValue"
  using assms unfolding foreign_errors_def SecretValue_def ConfigMapValue_def
  by (auto split: sum.splits if_splits option.splits)

section \<open>Properties\<close>

text \<open>C21. A failed resolution is recognisable as \<open>ErrNoValue\<close> exactly when there is nothing to
  resolve: no literal value, no Secret key and no ConfigMap key. A reference to a Secret, a
  ConfigMap or a key that does not exist is never taken for an absent value, so that the
  callers that fall back to a default on \<open>ErrNoValue\<close> do not hide it.\<close>

theorem ResourceValue_ErrNoValue:
  assumes "foreign_errors client"
  shows "(\<exists>e. ResourceValue client r ns = Inl e \<and> errors_Is e ErrNoValue) \<longleftrightarrow>
    rv_Value r = [] \<and> selected rvs_SecretKeyRef r = None \<and> selected rvs_ConfigMapKeyRef r = None"
  using value_errors [OF assms] by (auto simp: ResourceValue_def split: option.splits sum.splits)

theorem ResourceValue_ErrNoValue_witness:
  "\<not> (\<exists>e. ResourceValue \<lparr>get_Secret = (\<lambda>_ _. Inl (ApiError True ''gone'')), get_ConfigMap = (\<lambda>_ _. Inr []), list_Databases = (\<lambda>_. Inr [])\<rparr>
        \<lparr>rv_Value = [], rv_ValueFrom = Some \<lparr>rvs_SecretKeyRef = Some \<lparr>ks_Name = ''db'', ks_Key = ''user''\<rparr>, rvs_ConfigMapKeyRef = None\<rparr>\<rparr> ''ns'' = Inl e
      \<and> errors_Is e ErrNoValue)"
proof -
  let ?client = "\<lparr>get_Secret = (\<lambda>_ _. Inl (ApiError True ''gone'')), get_ConfigMap = (\<lambda>_ _. Inr []), list_Databases = (\<lambda>_. Inr [])\<rparr>"
  have "foreign_errors ?client"
    by (simp add: foreign_errors_def errors_Is_def ErrNoValue_def)
  from ResourceValue_ErrNoValue [OF this] show ?thesis by (simp add: selected_def)
qed

end
