(* ===== verification/Sql_World.thy ===== *)
theory Sql_World
  imports Go_Errors
begin

text \<open>
  The PostgreSQL servers, reached through \<open>database/sql\<close> and \<open>lib/pq\<close>.

  Both are outside the repository, so what they answer is a parameter: a \<open>server\<close> gives
  the answer to each call as a function of the history of all calls made so far. No
  assumption is made on it unless a theorem states one. The history is the state of the
  model: a list of \<open>event\<close>s, each one call together with its answer, oldest first. An
  operation of the controller is a function from the history to its result and the longer
  history (type \<open>act\<close>), so that the statements sent to a server, their order and their
  answers can be read off it.

  A \<open>*sql.DB\<close> is the number \<open>sql.Open\<close> answered with; a \<open>*sql.Tx\<close> likewise. A query
  answers with an error or with \<open>rows\<close>: for every row what \<open>rows.Scan\<close> reads from it (or
  its error), then the error that \<open>rows.Err\<close> reports after the last row.
\<close>

named_theorems appends_intros "operations that only append to the history"

type_synonym db = nat
type_synonym tx = nat

datatype rows = Rows "(goerr + string list) list" "goerr option"

datatype event =
    EvOpen string "goerr + db"
  | EvPing db "goerr option"
  | EvClose db "goerr option"
  | EvExec db string "goerr option"
  | EvQuery db string "string list" "goerr + rows"
  | EvBegin db "goerr + tx"
  | EvTxExec tx string "goerr option"
  | EvCommit tx "goerr option"
  | EvRollback tx "goerr option"

type_synonym history = "event list"

record server =
  srv_Open :: "history \<Rightarrow> string \<Rightarrow> goerr + db"
  srv_Ping :: "history \<Rightarrow> db \<Rightarrow> goerr option"
  srv_Close :: "history \<Rightarrow> db \<Rightarrow> goerr option"
  srv_Exec :: "history \<Rightarrow> db \<Rightarrow> string \<Rightarrow> goerr option"
  srv_Query :: "history \<Rightarrow> db \<Rightarrow> string \<Rightarrow> string list \<Rightarrow> goerr + rows"
  srv_Begin :: "history \<Rightarrow> db \<Rightarrow> goerr + tx"
  srv_TxExec :: "history \<Rightarrow> tx \<Rightarrow> string \<Rightarrow> goerr option"
  srv_Commit :: "history \<Rightarrow> tx \<Rightarrow> goerr option"
  srv_Rollback :: "history \<Rightarrow> tx \<Rightarrow> goerr option"
  QuoteIdentifier :: "string \<Rightarrow> string"

text \<open>An operation on a state of type \<open>'s\<close> that returns a value or an error; the operations on
  the servers are the ones whose state is the history.\<close>

type_synonym ('s, 'a) step = "'s \<Rightarrow> (goerr + 'a) \<times> 's"
type_synonym 'a act = "(history, 'a) step"

section \<open>Sequencing with Go's error checks\<close>

abbreviation ok :: "'a \<Rightarrow> ('s, 'a) step" where
  "ok x h \<equiv> (Inr x, h)"

abbreviation fail :: "goerr \<Rightarrow> ('s, 'a) step" where
  "fail e h \<equiv> (Inl e, h)"

text \<open>
  \<open>onerr m wrap k\<close>: run \<open>m\<close>; if it returns an error return that error wrapped
  (\<open>if err != nil { return fmt.Errorf(..., err) }\<close>), otherwise go on with its value.
\<close>

definition onerr ::
    "('s, 'a) step \<Rightarrow> (goerr \<Rightarrow> goerr) \<Rightarrow> ('a \<Rightarrow> ('s, 'b) step) \<Rightarrow> ('s, 'b) step" where
  "onerr m wrap k h =
     (case m h of
        (Inl e, h') \<Rightarrow> (Inl (wrap e), h')
      | (Inr x, h') \<Rightarrow> k x h')"

text \<open>The result of an operation that reports \<open>nil\<close> or an error.\<close>

definition of_error :: "goerr option \<Rightarrow> goerr + unit" where
  "of_error e = (case e of None \<Rightarrow> Inr () | Some err \<Rightarrow> Inl err)"

text \<open>
  Statements whose failure with one given condition is no failure: the error is compared as
  \<open>err.(*pq.Error)\<close> and its condition name, any other error is returned.
\<close>

definition tolerate :: "string \<Rightarrow> unit act \<Rightarrow> unit act" where
  "tolerate cond m h =
     (case m h of
        (Inl err, h') \<Rightarrow> if pq_condition err \<noteq> Some cond then (Inl err, h') else (Inr (), h')
      | (Inr u, h') \<Rightarrow> (Inr (), h'))"

text \<open>A loop that returns at the first error of its body.\<close>

fun for_each :: "('a \<Rightarrow> ('s, unit) step) \<Rightarrow> 'a list \<Rightarrow> ('s, unit) step" where
  "for_each body [] = ok ()"
| "for_each body (x # xs) = onerr (body x) id (\<lambda>_. for_each body xs)"

text \<open>A loop that appends what its body returns.\<close>

fun collect :: "('a \<Rightarrow> ('s, 'b list) step) \<Rightarrow> 'a list \<Rightarrow> ('s, 'b list) step" where
  "collect body [] = ok []"
| "collect body (x # xs) = onerr (body x) id (\<lambda>ys. onerr (collect body xs) id (\<lambda>zs. ok (ys @ zs)))"

section \<open>The calls\<close>

definition sql_Open :: "server \<Rightarrow> string \<Rightarrow> db act" where
  "sql_Open srv dsn h = (let r = srv_Open srv h dsn in (r, h @ [EvOpen dsn r]))"

definition db_Ping :: "server \<Rightarrow> db \<Rightarrow> unit act" where
  "db_Ping srv d h = (let r = srv_Ping srv h d in (of_error r, h @ [EvPing d r]))"

definition db_Close :: "server \<Rightarrow> db \<Rightarrow> unit act" where
  "db_Close srv d h = (let r = srv_Close srv h d in (of_error r, h @ [EvClose d r]))"

definition db_Exec :: "server \<Rightarrow> db \<Rightarrow> string \<Rightarrow> unit act" where
  "db_Exec srv d q h = (let r = srv_Exec srv h d q in (of_error r, h @ [EvExec d q r]))"

definition db_Query :: "server \<Rightarrow> db \<Rightarrow> string \<Rightarrow> string list \<Rightarrow> rows act" where
  "db_Query srv d q as h = (let r = srv_Query srv h d q as in (r, h @ [EvQuery d q as r]))"

definition db_Begin :: "server \<Rightarrow> db \<Rightarrow> tx act" where
  "db_Begin srv d h = (let r = srv_Begin srv h d in (r, h @ [EvBegin d r]))"

definition tx_Exec :: "server \<Rightarrow> tx \<Rightarrow> string \<Rightarrow> unit act" where
  "tx_Exec srv t q h = (let r = srv_TxExec srv h t q in (of_error r, h @ [EvTxExec t q r]))"

definition tx_Commit :: "server \<Rightarrow> tx \<Rightarrow> unit act" where
  "tx_Commit srv t h = (let r = srv_Commit srv h t in (of_error r, h @ [EvCommit t r]))"

definition tx_Rollback :: "server \<Rightarrow> tx \<Rightarrow> unit act" where
  "tx_Rollback srv t h = (let r = srv_Rollback srv h t in (of_error r, h @ [EvRollback t r]))"

lemmas sql_calls =
  sql_Open_def db_Ping_def db_Close_def db_Exec_def db_Query_def db_Begin_def tx_Exec_def
  tx_Commit_def tx_Rollback_def

text \<open>
  \<open>rows.Scan\<close> into one, two or three variables fails when the row has another number of
  columns.
\<close>

definition scan_arity :: goerr where
  "scan_arity = ExtError ''sql: wrong number of destination arguments in Scan''"

definition scan1 :: "string list \<Rightarrow> goerr + string" where
  "scan1 cols = (case cols of [a] \<Rightarrow> Inr a | _ \<Rightarrow> Inl scan_arity)"

definition scan2 :: "string list \<Rightarrow> goerr + string \<times> string" where
  "scan2 cols = (case cols of [a, b] \<Rightarrow> Inr (a, b) | _ \<Rightarrow> Inl scan_arity)"

definition scan3 :: "string list \<Rightarrow> goerr + string \<times> string \<times> string" where
  "scan3 cols = (case cols of [a, b, c] \<Rightarrow> Inr (a, b, c) | _ \<Rightarrow> Inl scan_arity)"

text \<open>A boolean column, in the form the driver hands it to \<open>Scan\<close>.\<close>

definition scan_bool :: "string list \<Rightarrow> goerr + bool" where
  "scan_bool cols =
     (case cols of
        [b] \<Rightarrow> if b = ''true'' then Inr True else if b = ''false'' then Inr False
               else Inl (ExtError ''sql: Scan error on column index 0'')
      | _ \<Rightarrow> Inl scan_arity)"

text \<open>
  The loop \<open>for rows.Next() { rows.Scan(...) ... }\<close> followed by the check of
  \<open>rows.Err()\<close>, collecting one value per row. \<open>scanwrap\<close> and \<open>errwrap\<close> are the error
  messages of the two checks.
\<close>

fun scan_each ::
    "(goerr \<Rightarrow> goerr) \<Rightarrow> (string list \<Rightarrow> goerr + 'a) \<Rightarrow> (goerr + string list) list \<Rightarrow> goerr + 'a list" where
  "scan_each scanwrap scan [] = Inr []"
| "scan_each scanwrap scan (r # rs) =
     (case (case r of Inl e \<Rightarrow> Inl e | Inr cols \<Rightarrow> scan cols) of
        Inl e \<Rightarrow> Inl (scanwrap e)
      | Inr x \<Rightarrow>
         (case scan_each scanwrap scan rs of Inl e \<Rightarrow> Inl e | Inr xs \<Rightarrow> Inr (x # xs)))"

definition scan_rows ::
    "(goerr \<Rightarrow> goerr) \<Rightarrow> (goerr \<Rightarrow> goerr) \<Rightarrow> (string list \<Rightarrow> goerr + 'a) \<Rightarrow> rows \<Rightarrow> goerr + 'a list" where
  "scan_rows scanwrap errwrap scan rs =
     (case rs of
        Rows xs err \<Rightarrow>
          (case scan_each scanwrap scan xs of
             Inl e \<Rightarrow> Inl e
           | Inr ys \<Rightarrow> (case err of None \<Rightarrow> Inr ys | Some e \<Rightarrow> Inl (errwrap e))))"

definition good_rows :: "string list list \<Rightarrow> rows" where
  "good_rows xs = Rows (map Inr xs) None"

text \<open>\<open>db.QueryRow(...).Scan(...)\<close>: the first row, or \<open>sql.ErrNoRows\<close> when there is none.\<close>

definition db_QueryRow :: "server \<Rightarrow> db \<Rightarrow> string \<Rightarrow> string list \<Rightarrow> string list act" where
  "db_QueryRow srv d q as =
     onerr (db_Query srv d q as) id
       (\<lambda>rs h. case rs of
          Rows (r # _) _ \<Rightarrow> (r, h)
        | Rows [] (Some e) \<Rightarrow> (Inl e, h)
        | Rows [] None \<Rightarrow> (Inl (ExtError ''sql: no rows in result set''), h))"

text \<open>A raw string literal whose lines are indented with two tabs.\<close>

definition raw_lines :: "string list \<Rightarrow> string" where
  "raw_lines ls = concat (map (\<lambda>l. [CHR 0x0A, CHR 0x09, CHR 0x09] @ l) ls)"

section \<open>Lemmas\<close>

lemma of_error_simps [simp]:
  "of_error None = Inr ()"
  "of_error (Some e) = Inl e"
  "of_error r = Inr u \<longleftrightarrow> r = None"
  "of_error r = Inl e \<longleftrightarrow> r = Some e"
  by (simp_all add: of_error_def split: option.splits)

lemma onerr_Inr [simp]: "m h = (Inr x, h') \<Longrightarrow> onerr m wrap k h = k x h'"
  by (simp add: onerr_def)

lemma onerr_Inl [simp]: "m h = (Inl e, h') \<Longrightarrow> onerr m wrap k h = (Inl (wrap e), h')"
  by (simp add: onerr_def)

lemma onerr_ok: "onerr (ok x) wrap k = k x"
  by (simp add: fun_eq_iff)

lemma onerr_InrE:
  assumes "onerr m wrap k h = (Inr y, h2)"
  obtains x h1 where "m h = (Inr x, h1)" and "k x h1 = (Inr y, h2)"
  using assms by (cases "m h") (auto simp: onerr_def split: sum.splits)

lemma db_Exec_InrD: "db_Exec srv d q h = (Inr u, h') \<Longrightarrow> h' = h @ [EvExec d q None]"
  by (auto simp: db_Exec_def Let_def)

lemma tolerate_InrE:
  assumes "tolerate c (db_Exec srv d q) h = (Inr u, h')"
  obtains r where "h' = h @ [EvExec d q r]"
    and "r = None \<or> (\<exists>e. r = Some e \<and> pq_condition e = Some c)"
  using assms
  by (cases "srv_Exec srv h d q") (auto simp: tolerate_def db_Exec_def Let_def split: if_splits)

lemma scan_each_Inr:
  "(\<And>x. x \<in> set xs \<Longrightarrow> scan (f x) = Inr x) \<Longrightarrow> scan_each sw scan (map (Inr \<circ> f) xs) = Inr xs"
  by (induction xs) simp_all

lemma scan_good_rows1 [simp]: "scan_rows sw ew scan1 (good_rows (map (\<lambda>x. [x]) xs)) = Inr xs"
  using scan_each_Inr [of xs scan1 "\<lambda>x. [x]" sw]
  by (simp add: scan_rows_def good_rows_def scan1_def comp_def)

text \<open>Every operation of the model only appends to the history.\<close>

definition appends :: "'a act \<Rightarrow> bool" where
  "appends m \<longleftrightarrow> (\<forall>h. prefix h (snd (m h)))"

lemma appendsD: "appends m \<Longrightarrow> m h = (r, h') \<Longrightarrow> \<exists>new. h' = h @ new"
  by (metis appends_def prefixE snd_conv)

lemma appends_ok [appends_intros]: "appends (\<lambda>h. (r, h))"
  by (simp add: appends_def)

lemma appends_calls [appends_intros]:
  "appends (sql_Open srv dsn)" "appends (db_Ping srv d)" "appends (db_Close srv d)"
  "appends (db_Exec srv d q)" "appends (db_Query srv d q as)" "appends (db_Begin srv d)"
  "appends (tx_Exec srv t q)" "appends (tx_Commit srv t)" "appends (tx_Rollback srv t)"
  by (simp_all add: appends_def sql_calls Let_def)

lemma appends_onerr [appends_intros]:
  assumes "appends m" and "\<And>x. appends (k x)"
  shows "appends (onerr m wrap k)"
  unfolding appends_def
proof
  fix h
  obtain r h' where m: "m h = (r, h')" by (cases "m h")
  then have "prefix h h'" using assms(1) by (metis appends_def snd_conv)
  moreover have "prefix h' (snd (k x h'))" for x
    using assms(2) by (simp add: appends_def)
  ultimately show "prefix h (snd (onerr m wrap k h))"
    using m by (cases r) (auto simp: onerr_def intro: prefix_order.trans)
qed

lemma appends_tolerate [appends_intros]:
  assumes "appends m"
  shows "appends (tolerate c m)"
  unfolding appends_def
proof
  fix h
  obtain r h' where m: "m h = (r, h')" by (cases "m h")
  then have "prefix h h'" using assms by (metis appends_def snd_conv)
  with m show "prefix h (snd (tolerate c m h))" by (cases r) (simp_all add: tolerate_def)
qed

lemma appends_collect [appends_intros]: "(\<And>x. appends (b x)) \<Longrightarrow> appends (collect b xs)"
  by (induction xs) (simp_all add: appends_intros)

lemma appends_for_each [appends_intros]: "(\<And>x. appends (b x)) \<Longrightarrow> appends (for_each b xs)"
  by (induction xs) (simp_all add: appends_intros)

section \<open>Properties of the state that an operation preserves\<close>

named_theorems preserves_intros "operations that preserve a property of the state"

definition preserves :: "('s \<Rightarrow> bool) \<Rightarrow> ('s, 'a) step \<Rightarrow> bool" where
  "preserves P m \<longleftrightarrow> (\<forall>h. P h \<longrightarrow> P (snd (m h)))"

lemma preservesD: "preserves P m \<Longrightarrow> m h = (r, h') \<Longrightarrow> P h \<Longrightarrow> P h'"
  by (metis preserves_def snd_conv)

lemma preserves_ok [preserves_intros]: "preserves P (\<lambda>h. (r, h))"
  by (simp add: preserves_def)

lemma preserves_onerr [preserves_intros]:
  assumes "preserves P m" and "\<And>x. preserves P (k x)"
  shows "preserves P (onerr m wrap k)"
  unfolding preserves_def
proof (intro allI impI)
  fix h
  assume "P h"
  obtain r h' where m: "m h = (r, h')" by (cases "m h")
  with assms(1) \<open>P h\<close> have "P h'" by (blast dest: preservesD)
  with m assms(2) show "P (snd (onerr m wrap k h))"
    by (cases r) (auto simp: onerr_def preserves_def)
qed

lemma preserves_for_each [preserves_intros]: "(\<And>x. preserves P (b x)) \<Longrightarrow> preserves P (for_each b xs)"
  by (induction xs) (simp_all add: preserves_intros)

lemma preserves_collect [preserves_intros]: "(\<And>x. preserves P (b x)) \<Longrightarrow> preserves P (collect b xs)"
  by (induction xs) (simp_all add: preserves_intros)

lemma preserves_if [preserves_intros]: "preserves P a \<Longrightarrow> preserves P b \<Longrightarrow> preserves P (if c then a else b)"
  by simp

text \<open>A loop whose body establishes a fact about its element, under an invariant of the loop, and
  all bodies preserve both.\<close>

lemma for_each_establishes:
  assumes "\<And>x h h' u. x \<in> set xs \<Longrightarrow> I h \<Longrightarrow> b x h = (Inr u, h') \<Longrightarrow> P x h'"
    and "\<And>x y. preserves (P x) (b y)" and "\<And>y. preserves I (b y)" and "I h"
    and "for_each b xs h = (Inr u, h')" and "x \<in> set xs"
  shows "P x h'"
  using assms(1,4-6)
proof (induction xs arbitrary: h)
  case Nil
  then show ?case by simp
next
  case (Cons y ys)
  from Cons.prems(3) obtain v h1 where y: "b y h = (Inr v, h1)" and ys: "for_each b ys h1 = (Inr u, h')"
    by (auto elim!: onerr_InrE)
  have I: "I h1" using preservesD [OF assms(3) y] Cons.prems(2) .
  show ?case
  proof (cases "x = y")
    case True
    with Cons.prems(1) [OF _ Cons.prems(2) y] have "P x h1" by simp
    with preservesD [OF preserves_for_each ys] assms(2) show ?thesis by blast
  next
    case False
    with Cons.IH [OF _ I ys] Cons.prems(1,4) show ?thesis by auto
  qed
qed

end
