(* ===== verification/Pg_Connection.thy ===== *)
theory Pg_Connection
  imports Sql_World
begin

text \<open>
  \<open>pkg/postgres/postgres.go\<close>, first part: connection strings, their masked printing, and
  \<open>Connect\<close>; \<open>pkg/postgres/database.go\<close>: credentials and their parsing.
\<close>

section \<open>Connection strings\<close>

record ConnectionString =
  cs_Host :: string
  cs_Database :: string
  cs_User :: string
  cs_Password :: string
  cs_Params :: string

definition Raw :: "ConnectionString \<Rightarrow> string" where
  "Raw c =
     ''postgresql://'' @ cs_User c @ '':'' @ QueryEscape (cs_Password c) @ ''@'' @ cs_Host c
     @ (if cs_Database c \<noteq> [] then ''/'' @ cs_Database c else [])
     @ (if cs_Params c \<noteq> [] then ''?'' @ cs_Params c else ''?sslmode=disable'')"

definition String :: "ConnectionString \<Rightarrow> string" where
  "String c =
     (let raw = Raw c
      in if cs_Password c = [] then raw
         else ReplaceAll raw (QueryEscape (cs_Password c)) ''********'')"

text \<open>\<open>sql.Open\<close>, then \<open>SetMaxIdleConns(0)\<close> (no reply), then \<open>Ping\<close>.\<close>

definition Connect :: "server \<Rightarrow> ConnectionString \<Rightarrow> db act" where
  "Connect srv connectionString =
     onerr (sql_Open srv (Raw connectionString)) id
       (\<lambda>d. onerr (db_Ping srv d) id (\<lambda>_. ok d))"

section \<open>Credentials\<close>

record Credentials =
  c_Name :: string
  c_User :: string
  c_Password :: string
  c_Shared :: bool
  c_Params :: string

definition no_credentials :: Credentials where
  "no_credentials = \<lparr>c_Name = [], c_User = [], c_Password = [], c_Shared = False, c_Params = []\<rparr>"

definition Validate :: "Credentials \<Rightarrow> goerr option" where
  "Validate c =
     (if c_Name c = [] then Some (Errorf ''name is empty'' [])
      else if c_User c = [] then Some (Errorf ''user is empty'' [])
      else None)"

definition ParseUsernamePassword :: "string \<Rightarrow> goerr + Credentials" where
  "ParseUsernamePassword s =
     (if s = [] then Inl (Errorf ''username empty'' [])
      else case SplitN (TrimSpace s) (CHR '':'') 2 of
        [] \<Rightarrow> Inl (Errorf ''username empty'' [])
      | user # rest \<Rightarrow>
          if user = [] then Inl (Errorf ''username empty'' [])
          else Inr (no_credentials\<lparr>c_User := user,
                 c_Password := (case rest of [password] \<Rightarrow> password | _ \<Rightarrow> [])\<rparr>))"

section \<open>Lemmas\<close>

lemma appends_Connect [appends_intros]: "appends (Connect srv c)"
  by (simp add: Connect_def appends_intros)

lemma ReplaceAll_Nil [simp]: "ReplaceAll [] old new = []"
  by (simp add: ReplaceAll.simps)

lemma prefix_ReplaceAll:
  assumes "prefix p (ReplaceAll s old new)" and "new \<noteq> []" and "set p \<inter> set new = {}"
  shows "prefix p s"
  using assms
proof (induction s old new arbitrary: p rule: ReplaceAll.induct)
  case (1 s old new)
  consider "s = [] \<or> old = []" | "s \<noteq> []" "old \<noteq> []" "prefix old s"
    | "s \<noteq> []" "old \<noteq> []" "\<not> prefix old s" by blast
  then show ?case
  proof cases
    case 1
    with "1.prems" show ?thesis by (simp add: ReplaceAll.simps [of s])
  next
    case 2
    with "1.prems" have "prefix p (new @ ReplaceAll (drop (length old) s) old new)"
      by (simp add: ReplaceAll.simps [of s])
    with "1.prems"(2,3) have "p = []" by (cases p; cases new) auto
    then show ?thesis by simp
  next
    case 3
    then obtain x t where s: "s = x # t" by (auto simp: neq_Nil_conv)
    with 3 "1.prems"(1) have "prefix p (x # ReplaceAll t old new)"
      by (simp add: ReplaceAll.simps [of "x # t"])
    with 3 s "1.prems"(2,3) "1.IH"(2) show ?thesis by (auto simp: prefix_Cons)
  qed
qed

text \<open>After a replacement by text that shares no byte with \<open>old\<close>, no occurrence of \<open>old\<close>
  is left, not even one made up of replaced and kept parts.\<close>

lemma ReplaceAll_removes:
  assumes "old \<noteq> []" and "new \<noteq> []" and "set old \<inter> set new = {}"
  shows "\<not> sublist old (ReplaceAll s old new)"
  using assms
proof (induction s old new rule: ReplaceAll.induct)
  case (1 s old new)
  consider "s = []" | "s \<noteq> []" "prefix old s" | "s \<noteq> []" "\<not> prefix old s" by blast
  then show ?case
  proof cases
    case 1
    with "1.prems" show ?thesis by simp
  next
    case 2
    let ?r = "ReplaceAll (drop (length old) s) old new"
    have eq: "ReplaceAll s old new = new @ ?r"
      using 2 "1.prems"(1) by (simp add: ReplaceAll.simps [of s])
    have rest: "\<not> sublist old ?r" using 2 "1.prems" "1.IH"(1) by blast
    have "\<not> sublist old new"
      using "1.prems" set_mono_sublist [of old new] by (auto simp: neq_Nil_conv)
    moreover have "\<not> (suffix a new \<and> prefix b ?r)" if "old = a @ b" for a b
    proof (cases "a = []")
      case True
      with that rest show ?thesis by (auto intro: prefix_imp_sublist)
    next
      case False
      with that "1.prems"(3) show ?thesis by (auto simp: neq_Nil_conv dest: set_mono_suffix)
    qed
    ultimately show ?thesis using rest by (simp add: eq sublist_append)
  next
    case 3
    then obtain x t where s: "s = x # t" by (auto simp: neq_Nil_conv)
    have eq: "ReplaceAll s old new = x # ReplaceAll t old new"
      using 3 s "1.prems"(1) by (simp add: ReplaceAll.simps [of "x # t"])
    have rest: "\<not> sublist old (ReplaceAll t old new)" using 3 s "1.prems" "1.IH"(2) by simp
    have "\<not> prefix old (x # ReplaceAll t old new)"
      using prefix_ReplaceAll [of old s old new] 3 "1.prems" eq by auto
    with rest show ?thesis by (simp add: eq sublist_Cons_right)
  qed
qed

lemma hex_digit_in: "hex_digit n \<in> set ''0123456789ABCDEF''"
proof -
  have "n mod 16 < length ''0123456789ABCDEF''" by simp
  then show ?thesis unfolding hex_digit_def by (rule nth_mem)
qed

lemma QueryEscape_no_star: "CHR ''*'' \<notin> set (QueryEscape s)"
proof (induction s)
  case Nil
  show ?case by simp
next
  case (Cons c cs)
  have "hex_digit n \<noteq> CHR ''*''" for n using hex_digit_in [of n] by auto
  moreover have "\<not> unreserved (CHR ''*'')" by (simp add: unreserved_def Let_def)
  ultimately show ?case using Cons by (auto dest: not_sym)
qed

lemma QueryEscape_empty [simp]: "QueryEscape s = [] \<longleftrightarrow> s = []"
  by (cases s) auto

text \<open>C20. The printed form of a connection string never contains the password in the form in
  which it is part of the raw connection string: printing masks every occurrence, and the
  mask cannot form a new one with the text around it.\<close>

theorem String_masks_password:
  assumes "cs_Password c \<noteq> []"
  shows "\<not> Contains (String c) (QueryEscape (cs_Password c))"
proof -
  let ?p = "QueryEscape (cs_Password c)"
  have "set ?p \<inter> set ''********'' = {}" using QueryEscape_no_star by auto
  then have "\<not> sublist ?p (ReplaceAll (Raw c) ?p ''********'')"
    using assms by (intro ReplaceAll_removes) simp_all
  then show ?thesis using assms by (simp add: Contains_def String_def Let_def)
qed

theorem String_masks_password_witness:
  "\<not> Contains
     (String \<lparr>cs_Host = ''db'', cs_Database = ''user'', cs_User = ''admin'',
              cs_Password = ''s3cret'', cs_Params = ''''\<rparr>) (QueryEscape ''s3cret'')"
  using String_masks_password
    [of "\<lparr>cs_Host = ''db'', cs_Database = ''user'', cs_User = ''admin'',
          cs_Password = ''s3cret'', cs_Params = ''''\<rparr>"]
  by simp

end
