(* ===== verification/Diff_Sync.thy ===== *)
theory Diff_Sync
  imports Main
begin

text \<open>
  The contract shared by the parts of the controller that bring a set of things on the server
  (memberships of a role, privileges on tables, extensions) in line with a desired list: from
  the existing and the desired items they compute what to add and what to remove. Items that
  are not \<open>managed\<close> are never removed. The laws are discharged by each of the components
  (\<open>rolesDiff\<close>, \<open>EnsureCustomRole\<close>, \<open>SyncDatabaseGrants\<close>, \<open>extensionsToInstall\<close>).
\<close>

locale diff_sync =
  fixes to_add :: "'a list \<Rightarrow> 'a list \<Rightarrow> 'a list"
    and to_remove :: "'a list \<Rightarrow> 'a list \<Rightarrow> 'a list"
    and managed :: "'a \<Rightarrow> bool"
  assumes set_to_add: "set (to_add existing desired) = set desired - set existing"
    and set_to_remove:
      "set (to_remove existing desired) = {x \<in> set existing. x \<notin> set desired \<and> managed x}"
begin

text \<open>Adding, then removing, leaves the desired items and the existing items that are not managed.\<close>

lemma add_then_remove:
  "set existing \<union> set (to_add existing desired) - set (to_remove existing desired) =
     set desired \<union> {x \<in> set existing. \<not> managed x}"
  unfolding set_to_add set_to_remove by blast

text \<open>The same when some items cannot be added (\<open>X\<close>) or removed (\<open>Y\<close>).\<close>

lemma add_then_remove_except:
  assumes "set existing \<union> (set (to_add existing desired) - X) \<subseteq> B \<and> B \<subseteq> set existing \<union> set (to_add existing desired)"
    and "B - set (to_remove existing desired) \<subseteq> A \<and> A \<subseteq> B - (set (to_remove existing desired) - Y)"
  shows "set desired - X \<subseteq> A \<and> A \<subseteq> set desired \<union> Y \<union> {x \<in> set existing. \<not> managed x}"
  using assms unfolding set_to_add set_to_remove by blast

text \<open>The order of the two does not matter.\<close>

lemma remove_then_add:
  "(set existing - set (to_remove existing desired)) \<union> set (to_add existing desired) =
     set desired \<union> {x \<in> set existing. \<not> managed x}"
  unfolding set_to_add set_to_remove by blast

lemma add_remove_disjoint:
  "set (to_add existing desired) \<inter> set (to_remove existing desired) = {}"
  unfolding set_to_add set_to_remove by blast

text \<open>Once in line, nothing is left to do.\<close>

lemma in_sync_add:
  assumes "set existing = set desired \<union> U"
  shows "to_add existing desired = []"
proof -
  have "set (to_add existing desired) = {}"
    unfolding set_to_add using assms by blast
  then show ?thesis by simp
qed

lemma in_sync_remove:
  assumes "set existing = set desired \<union> U" and "\<forall>x\<in>U. \<not> managed x"
  shows "to_remove existing desired = []"
proof -
  have "set (to_remove existing desired) = {}"
    unfolding set_to_remove using assms by blast
  then show ?thesis by simp
qed

end

end
