(* ===== verification/Reference_Server.thy ===== *)
theory Reference_Server
  imports Sql_World
begin

text \<open>
  The laws of \<open>GRANT role TO role\<close> and \<open>REVOKE role FROM role\<close> that the theorems about role
  memberships rest on, and an executable server that satisfies them. The laws are the
  documented behaviour of PostgreSQL; the server exists to show that they can hold and to
  evaluate the model on concrete histories.
\<close>

section \<open>The laws\<close>

text \<open>
  \<open>mem h\<close> is the set of roles granted to one fixed role after the history \<open>h\<close>; \<open>grant rs\<close>
  and \<open>revoke rs\<close> are the texts of the statements that grant and revoke the roles \<open>rs\<close>.
  \<open>N\<close> is the set of role names that the text of a statement denotes as written (names that
  need no quoting, where the text does not quote them).
\<close>

definition membership_laws ::
    "string set \<Rightarrow> db \<Rightarrow> (string list \<Rightarrow> string) \<Rightarrow> (string list \<Rightarrow> string) \<Rightarrow> (history \<Rightarrow> string set) \<Rightarrow> bool" where
  "membership_laws N d grant revoke mem \<longleftrightarrow>
     (\<forall>h rs. rs \<noteq> [] \<longrightarrow> set rs \<subseteq> N \<longrightarrow> mem (h @ [EvExec d (grant rs) None]) = mem h \<union> set rs) \<and>
     (\<forall>h rs. rs \<noteq> [] \<longrightarrow> set rs \<subseteq> N \<longrightarrow> mem (h @ [EvExec d (revoke rs) None]) = mem h - set rs)"

text \<open>The query \<open>q\<close> with arguments \<open>as\<close> reads the memberships: whenever it is answered
  without error, the names in its rows are the memberships at that time. Reading changes
  nothing.\<close>

definition reads_members ::
    "server \<Rightarrow> db \<Rightarrow> string \<Rightarrow> string list \<Rightarrow> (history \<Rightarrow> string set) \<Rightarrow> bool" where
  "reads_members srv d q as mem \<longleftrightarrow>
     (\<forall>h rs sw ew xs. srv_Query srv h d q as = Inr rs \<longrightarrow> scan_rows sw ew scan1 rs = Inr xs \<longrightarrow> set xs = mem h) \<and>
     (\<forall>h r. mem (h @ [EvQuery d q as r]) = mem h)"

definition keeps_members :: "db \<Rightarrow> string \<Rightarrow> (history \<Rightarrow> string set) \<Rightarrow> bool" where
  "keeps_members d q mem \<longleftrightarrow> (\<forall>h r. mem (h @ [EvExec d q r]) = mem h)"

section \<open>An executable server\<close>

definition between :: "string \<Rightarrow> string \<Rightarrow> string \<Rightarrow> string option" where
  "between pre post s =
     (if prefix pre s \<and> suffix post s \<and> length pre + length post \<le> length s
      then Some (drop (length pre) (take (length s - length post) s)) else None)"

definition grant_names :: "string \<Rightarrow> string \<Rightarrow> string option" where
  "grant_names role q = between ''GRANT '' ('' TO '' @ role) q"

definition revoke_names :: "string \<Rightarrow> string \<Rightarrow> string option" where
  "revoke_names role q = between ''REVOKE '' ('' FROM '' @ role) q"

definition member_step ::
    "(string \<Rightarrow> string list) \<Rightarrow> string \<Rightarrow> string list \<Rightarrow> event \<Rightarrow> string list" where
  "member_step names role ms ev =
     (case ev of
        EvExec d q None \<Rightarrow>
          (case grant_names role q of
             Some m \<Rightarrow> ms @ names m
           | None \<Rightarrow>
             (case revoke_names role q of
                Some m \<Rightarrow> filter (\<lambda>r. r \<notin> set (names m)) ms
              | None \<Rightarrow> ms))
      | _ \<Rightarrow> ms)"

definition ref_members ::
    "(string \<Rightarrow> string list) \<Rightarrow> string \<Rightarrow> string list \<Rightarrow> history \<Rightarrow> string list" where
  "ref_members names role init h = foldl (member_step names role) init h"

text \<open>All calls succeed, and every query lists the members.\<close>

definition ref_server ::
    "(string \<Rightarrow> string) \<Rightarrow> (history \<Rightarrow> string list list) \<Rightarrow> server" where
  "ref_server quote answer =
     \<lparr>srv_Open = (\<lambda>h dsn. Inr (length h)),
      srv_Ping = (\<lambda>h d. None),
      srv_Close = (\<lambda>h d. None),
      srv_Exec = (\<lambda>h d q. None),
      srv_Query = (\<lambda>h d q as. Inr (good_rows (answer h))),
      srv_Begin = (\<lambda>h d. Inr (length h)),
      srv_TxExec = (\<lambda>h t q. None),
      srv_Commit = (\<lambda>h t. None),
      srv_Rollback = (\<lambda>h t. None),
      QuoteIdentifier = quote\<rparr>"

abbreviation singletons :: "'a list \<Rightarrow> 'a list list" where
  "singletons xs \<equiv> map (\<lambda>x. [x]) xs"

section \<open>Lemmas\<close>

lemma QuoteIdentifier_ref_server [simp]: "QuoteIdentifier (ref_server quote answer) = quote"
  by (simp add: ref_server_def)

lemma membership_grant:
  assumes "membership_laws N d grant revoke mem" and "set rs \<subseteq> N"
  shows "mem (h @ (if rs \<noteq> [] then [EvExec d (grant rs) None] else [])) = mem h \<union> set rs"
  using assms by (simp add: membership_laws_def)

lemma membership_revoke:
  assumes "membership_laws N d grant revoke mem" and "set rs \<subseteq> N"
  shows "mem (h @ (if rs \<noteq> [] then [EvExec d (revoke rs) None] else [])) = mem h - set rs"
  using assms by (simp add: membership_laws_def)

lemma between_append [simp]: "between pre post (pre @ m @ post) = Some m"
  by (simp add: between_def suffix_def)

lemma between_other_prefix: "\<not> prefix pre s \<Longrightarrow> between pre post s = None"
  by (simp add: between_def)

lemma ref_members_snoc [simp]:
  "ref_members names role init (h @ [e]) = member_step names role (ref_members names role init h) e"
  by (simp add: ref_members_def)

lemma ref_membership_laws:
  assumes grant: "\<And>rs. grant rs = ''GRANT '' @ listing rs @ '' TO '' @ role"
    and revoke: "\<And>rs. revoke rs = ''REVOKE '' @ listing rs @ '' FROM '' @ role"
    and names: "\<And>rs. rs \<noteq> [] \<Longrightarrow> set rs \<subseteq> N \<Longrightarrow> names (listing rs) = rs"
  shows "membership_laws N d grant revoke (\<lambda>h. set (ref_members names role init h))"
proof -
  have g: "grant_names role (grant rs) = Some (listing rs)" for rs
    unfolding grant_names_def grant by (rule between_append)
  have r1: "grant_names role (revoke rs) = None" for rs
    by (simp add: revoke grant_names_def between_def)
  have r2: "revoke_names role (revoke rs) = Some (listing rs)" for rs
    unfolding revoke_names_def revoke by (rule between_append)
  show ?thesis
    unfolding membership_laws_def by (auto simp: member_step_def g r1 r2 names)
qed

lemma ref_reads_members:
  "reads_members (ref_server quote (\<lambda>h. singletons (ref_members names role init h))) d q as
     (\<lambda>h. set (ref_members names role init h))"
  unfolding reads_members_def by (auto simp: ref_server_def member_step_def)

lemma ref_keeps_members:
  assumes "\<not> prefix ''GRANT '' q" and "\<not> prefix ''REVOKE '' q"
  shows "keeps_members d q (\<lambda>h. set (ref_members names role init h))"
  using assms unfolding keeps_members_def
  by (auto simp: member_step_def grant_names_def revoke_names_def between_other_prefix
      split: option.splits)

end
