(* ===== verification/Pg_Roles.thy ===== *)
theory Pg_Roles
  imports Pg_Connection Diff_Sync Reference_Server
begin

text \<open>
  \<open>pkg/postgres/postgres.go\<close>, second part: the roles of a user. \<open>rolesDiff\<close> computes the
  roles to grant and to revoke from the roles the user has, the static roles and the
  requested database accesses; \<open>Role\<close> creates the login role and applies the difference.
\<close>

section \<open>Privileges\<close>

text \<open>A Go \<open>int\<close> with three named values; any other value takes the \<open>default\<close> branches.\<close>

datatype Privilege =
    PrivilegeRead
  | PrivilegeWrite
  | PrivilegeOwningWrite
  | PrivilegeOther int

definition roleSuffixRead :: string where "roleSuffixRead = ''read''"
definition roleSuffixWrite :: string where "roleSuffixWrite = ''readwrite''"
definition roleSuffixOwningWrite :: string where "roleSuffixOwningWrite = ''readowningwrite''"

lemmas roleSuffix_defs = roleSuffixRead_def roleSuffixWrite_def roleSuffixOwningWrite_def

record DatabaseSchema =
  dsc_Name :: string
  dsc_Schema :: string
  dsc_Privileges :: Privilege

fun Privilege_String :: "Privilege \<Rightarrow> string" where
  "Privilege_String PrivilegeRead = ''read''"
| "Privilege_String PrivilegeWrite = ''write''"
| "Privilege_String PrivilegeOwningWrite = ''owningwrite''"
| "Privilege_String (PrivilegeOther n) = ''unknown''"

section \<open>rolesDiff\<close>

fun privilege_suffix :: "Privilege \<Rightarrow> string option" where
  "privilege_suffix PrivilegeRead = Some roleSuffixRead"
| "privilege_suffix PrivilegeWrite = Some roleSuffixWrite"
| "privilege_suffix PrivilegeOwningWrite = Some roleSuffixOwningWrite"
| "privilege_suffix (PrivilegeOther n) = None"

text \<open>One iteration of the first loop: the role appended for a database, if any.\<close>

definition access_role :: "DatabaseSchema \<Rightarrow> string option" where
  "access_role database =
     (case privilege_suffix (dsc_Privileges database) of
        None \<Rightarrow> None
      | Some schemaPrivileges \<Rightarrow>
          (let schema = (if EqualFold_public (dsc_Schema database) then dsc_Name database
                         else dsc_Schema database)
           in Some (schema @ ''_'' @ schemaPrivileges)))"

fun append_access_roles :: "string list \<Rightarrow> DatabaseSchema list \<Rightarrow> string list" where
  "append_access_roles expected [] = expected"
| "append_access_roles expected (d # ds) =
     (case access_role d of
        None \<Rightarrow> append_access_roles expected ds
      | Some r \<Rightarrow> append_access_roles (expected @ [r]) ds)"

fun contains :: "string list \<Rightarrow> string \<Rightarrow> bool" where
  "contains [] role = False"
| "contains (r # roles) role = (if r = role then True else contains roles role)"

text \<open>The suffix test that decides whether an existing role may be revoked.\<close>

definition hasManagedSuffix :: "string \<Rightarrow> bool" where
  "hasManagedSuffix role =
     list_ex (HasSuffix role) [roleSuffixRead, roleSuffixWrite, roleSuffixOwningWrite]"

fun addable_loop :: "string list \<Rightarrow> string list \<Rightarrow> string list" where
  "addable_loop existing [] = []"
| "addable_loop existing (e # es) =
     (if contains existing e then addable_loop existing es else e # addable_loop existing es)"

fun removeable_loop :: "string list \<Rightarrow> string list \<Rightarrow> string list" where
  "removeable_loop expected [] = []"
| "removeable_loop expected (e # es) =
     (if contains expected e then removeable_loop expected es
      else if \<not> hasManagedSuffix e then removeable_loop expected es
      else e # removeable_loop expected es)"

definition rolesDiff ::
    "string list \<Rightarrow> string list \<Rightarrow> DatabaseSchema list \<Rightarrow> string list \<times> string list" where
  "rolesDiff existingRoles expectedRoles databases =
     (let expected = append_access_roles expectedRoles databases
      in (addable_loop existingRoles expected, removeable_loop expected existingRoles))"

section \<open>Role\<close>

definition persistedRoles_sql :: string where
  "persistedRoles_sql =
     ''SELECT rolname FROM pg_user JOIN pg_auth_members ON (pg_user.usesysid=pg_auth_members.member) JOIN pg_roles ON (pg_roles.oid=pg_auth_members.roleid) WHERE pg_user.usename=$1''"

definition persistedRoles :: "server \<Rightarrow> db \<Rightarrow> string \<Rightarrow> string list act" where
  "persistedRoles srv d name =
     onerr (db_Query srv d persistedRoles_sql [name]) (Wrapf ''select roles: %w'' [])
       (\<lambda>rs h. (scan_rows (Wrapf ''scan row: %w'' []) (Wrapf ''scanning rows: %w'' []) scan1 rs, h))"

definition create_login_sql :: "string \<Rightarrow> string" where
  "create_login_sql name = ''CREATE ROLE '' @ name @ '' WITH LOGIN''"

definition grant_roles_sql :: "string list \<Rightarrow> string \<Rightarrow> string" where
  "grant_roles_sql roles name = ''GRANT '' @ Join roles '','' @ '' TO '' @ name"

definition revoke_roles_sql :: "string list \<Rightarrow> string \<Rightarrow> string" where
  "revoke_roles_sql roles name = ''REVOKE '' @ Join roles '','' @ '' FROM '' @ name"

definition Role ::
    "server \<Rightarrow> db \<Rightarrow> string \<Rightarrow> string list \<Rightarrow> DatabaseSchema list \<Rightarrow> unit act" where
  "Role srv d name roles databases =
     onerr (tolerate ''duplicate_object'' (db_Exec srv d (create_login_sql name)))
       (Wrapf ''create role %s: %w'' [name])
     (\<lambda>_. onerr (persistedRoles srv d name) (Wrapf ''get existing roles: %w'' [])
     (\<lambda>existingRoles.
       (let (grantableRoles, revokeableRoles) = rolesDiff existingRoles roles databases
        in onerr
             (if grantableRoles \<noteq> []
              then db_Exec srv d (grant_roles_sql grantableRoles name) else ok ())
             (Wrapf ''grant access privileges '%s' to '%s': %w'' [Join grantableRoles '','', name])
           (\<lambda>_. onerr
             (if revokeableRoles \<noteq> []
              then db_Exec srv d (revoke_roles_sql revokeableRoles name) else ok ())
             (Wrapf ''revoke access privileges '%s' to '%s': %w'' [Join revokeableRoles '','', name])
           (\<lambda>_. ok ())))))"

section \<open>Lemmas\<close>

lemma contains_iff [simp]: "contains roles role \<longleftrightarrow> role \<in> set roles"
  by (induction roles) auto

lemma addable_loop_eq: "addable_loop existing es = filter (\<lambda>e. e \<notin> set existing) es"
  by (induction es) auto

lemma removeable_loop_eq:
  "removeable_loop expected es = filter (\<lambda>e. e \<notin> set expected \<and> hasManagedSuffix e) es"
  by (induction es) auto

lemma append_access_roles_eq:
  "append_access_roles expected ds = expected @ List.map_filter access_role ds"
  by (induction expected ds rule: append_access_roles.induct)
    (auto simp: List.map_filter_simps split: option.splits)

lemma rolesDiff_expected:
  "rolesDiff existing roles ds = rolesDiff existing (append_access_roles roles ds) []"
  by (simp add: rolesDiff_def)

text \<open>\<open>rolesDiff\<close> is a synchronisation that only removes roles with one of the suffixes.\<close>

interpretation roles: diff_sync
  "\<lambda>existing desired. fst (rolesDiff existing desired [])"
  "\<lambda>existing desired. snd (rolesDiff existing desired [])"
  hasManagedSuffix
  by unfold_locales (auto simp: rolesDiff_def addable_loop_eq removeable_loop_eq)

lemma set_append_access_roles:
  "set (append_access_roles roles ds) = set roles \<union> {r. \<exists>d\<in>set ds. access_role d = Some r}"
  by (auto simp: append_access_roles_eq List.map_filter_def) (auto simp: image_iff)

lemma appends_persistedRoles [appends_intros]: "appends (persistedRoles srv d name)"
  by (simp add: persistedRoles_def appends_intros)

lemma appends_Role [appends_intros]: "appends (Role srv d name roles ds)"
  by (simp add: Role_def appends_intros split: prod.split)

lemma exec_if_InrE:
  assumes "(if P then db_Exec srv d q else ok ()) h = (Inr u, h')"
  shows "h' = h @ (if P then [EvExec d q None] else [])"
  using assms by (auto simp: db_Exec_def Let_def split: if_splits)

lemma persistedRoles_InrE:
  assumes "persistedRoles srv d name h = (Inr xs, h')"
  obtains rs where "srv_Query srv h d persistedRoles_sql [name] = Inr rs"
    and "scan_rows (Wrapf ''scan row: %w'' []) (Wrapf ''scanning rows: %w'' []) scan1 rs = Inr xs"
    and "h' = h @ [EvQuery d persistedRoles_sql [name] (Inr rs)]"
  using assms
  by (auto simp: persistedRoles_def db_Query_def Let_def elim!: onerr_InrE)

text \<open>What a successful call of \<open>Role\<close> has sent to the server.\<close>

lemma Role_events:
  assumes "Role srv d name roles ds h = (Inr u, h')"
  obtains r0 rs existing h1 where
    "r0 = None \<or> (\<exists>e. r0 = Some e \<and> pq_condition e = Some ''duplicate_object'')"
    "h1 = h @ [EvExec d (create_login_sql name) r0]"
    "srv_Query srv h1 d persistedRoles_sql [name] = Inr rs"
    "scan_rows (Wrapf ''scan row: %w'' []) (Wrapf ''scanning rows: %w'' []) scan1 rs = Inr existing"
    "h' = h1 @ [EvQuery d persistedRoles_sql [name] (Inr rs)]
       @ (if fst (rolesDiff existing roles ds) \<noteq> []
          then [EvExec d (grant_roles_sql (fst (rolesDiff existing roles ds)) name) None] else [])
       @ (if snd (rolesDiff existing roles ds) \<noteq> []
          then [EvExec d (revoke_roles_sql (snd (rolesDiff existing roles ds)) name) None] else [])"
  using assms unfolding Role_def
  by (elim onerr_InrE tolerate_InrE persistedRoles_InrE)
    (auto simp: case_prod_beta elim!: onerr_InrE dest!: exec_if_InrE)

section \<open>Properties\<close>

text \<open>The difference computed by \<open>rolesDiff\<close>: granting the one list and revoking the other
  turns any set of existing roles into the static roles, the roles of the requested database
  accesses and those existing roles that do not carry one of the suffixes; a role is never
  both granted and revoked; and once that state is reached both lists are empty.\<close>

theorem rolesDiff_synchronises:
  assumes "target = set roles \<union> {r. \<exists>d\<in>set ds. access_role d = Some r}
                    \<union> {r \<in> set existing. \<not> hasManagedSuffix r}"
    and "rolesDiff existing roles ds = (grantable, revokeable)"
  shows "set existing \<union> set grantable - set revokeable = target
    \<and> set grantable \<inter> set revokeable = {}
    \<and> (\<forall>existing'. set existing' = target \<longrightarrow> rolesDiff existing' roles ds = ([], []))"
proof -
  let ?D = "append_access_roles roles ds"
  have target: "target = set ?D \<union> {r \<in> set existing. \<not> hasManagedSuffix r}"
    using assms(1) by (auto simp: set_append_access_roles)
  have diff: "fst (rolesDiff existing ?D []) = grantable" "snd (rolesDiff existing ?D []) = revokeable"
    using assms(2) rolesDiff_expected [of existing roles ds] by simp_all
  have "rolesDiff existing' roles ds = ([], [])" if "set existing' = target" for existing'
    using roles.in_sync_add [of existing' ?D] roles.in_sync_remove [of existing' ?D] that
    by (auto simp: rolesDiff_expected [of existing' roles ds] target prod_eq_iff)
  then show ?thesis
    using roles.add_then_remove [of existing ?D] roles.add_remove_disjoint [of existing ?D]
    by (simp add: target diff)
qed

theorem rolesDiff_synchronises_witness:
  "rolesDiff [''rds_iam'', ''user_read'', ''ops''] [''rds_iam'']
     [\<lparr>dsc_Name = ''user'', dsc_Schema = ''public'', dsc_Privileges = PrivilegeRead\<rparr>] = ([], [])"
proof -
  let ?ds = "[\<lparr>dsc_Name = ''user'', dsc_Schema = ''public'', dsc_Privileges = PrivilegeRead\<rparr>]"
  let ?e = "[''ops'', ''old_read'']"
  have role: "access_role (hd ?ds) = Some ''user_read''" by code_simp
  have suffix: "\<not> hasManagedSuffix ''ops''" "hasManagedSuffix ''old_read''" by code_simp+
  have diff: "rolesDiff ?e [''rds_iam''] ?ds = ([''rds_iam'', ''user_read''], [''old_read''])"
    by code_simp
  have "set [''rds_iam'', ''user_read'', ''ops''] =
      set [''rds_iam''] \<union> {r. \<exists>d\<in>set ?ds. access_role d = Some r}
      \<union> {r \<in> set ?e. \<not> hasManagedSuffix r}"
    using role suffix by auto
  from rolesDiff_synchronises [OF this diff] show ?thesis by blast
qed

text \<open>C7. A successful \<open>Role\<close> leaves the user with exactly the static roles, the roles of the
  requested database accesses and the roles it had that do not carry one of the suffixes:
  every other role has been revoked on the server, and every missing one granted. The server
  is any server that follows the laws of granting and revoking for the role names concerned.\<close>

theorem Role_membership:
  assumes "Role srv d name roles ds h = (Inr (), h')"
    and laws: "membership_laws N d (\<lambda>rs. grant_roles_sql rs name) (\<lambda>rs. revoke_roles_sql rs name) mem"
    and reads: "reads_members srv d persistedRoles_sql [name] mem"
    and creates: "keeps_members d (create_login_sql name) mem"
    and names: "mem h \<subseteq> N" "set (append_access_roles roles ds) \<subseteq> N"
  shows "mem h' = set roles \<union> {r. \<exists>d\<in>set ds. access_role d = Some r}
                  \<union> {r \<in> mem h. \<not> hasManagedSuffix r}"
proof -
  obtain r0 rs existing h1 where
    h1: "h1 = h @ [EvExec d (create_login_sql name) r0]"
    and q: "srv_Query srv h1 d persistedRoles_sql [name] = Inr rs"
    and sc: "scan_rows (Wrapf ''scan row: %w'' []) (Wrapf ''scanning rows: %w'' []) scan1 rs = Inr existing"
    and h': "h' = h1 @ [EvQuery d persistedRoles_sql [name] (Inr rs)]
       @ (if fst (rolesDiff existing roles ds) \<noteq> []
          then [EvExec d (grant_roles_sql (fst (rolesDiff existing roles ds)) name) None] else [])
       @ (if snd (rolesDiff existing roles ds) \<noteq> []
          then [EvExec d (revoke_roles_sql (snd (rolesDiff existing roles ds)) name) None] else [])"
    using assms(1) by (rule Role_events)
  let ?D = "append_access_roles roles ds"
  let ?g = "fst (rolesDiff existing ?D [])" and ?r = "snd (rolesDiff existing ?D [])"
  let ?h2 = "h1 @ [EvQuery d persistedRoles_sql [name] (Inr rs)]"
  let ?h3 = "?h2 @ (if ?g \<noteq> [] then [EvExec d (grant_roles_sql ?g name) None] else [])"
  have mem1: "mem h1 = mem h" using creates h1 by (simp add: keeps_members_def)
  have ex: "set existing = mem h"
    using reads q sc mem1 unfolding reads_members_def by blast
  have mem2: "mem ?h2 = mem h" using reads mem1 unfolding reads_members_def by blast
  have "set ?g \<subseteq> N" using names by (auto simp: roles.set_to_add)
  then have mem3: "mem ?h3 = mem h \<union> set ?g"
    using membership_grant [OF laws, of ?g ?h2] unfolding mem2 by simp
  have "set ?r \<subseteq> N" using names ex by (auto simp: roles.set_to_remove)
  then have mem4: "mem (?h3 @ (if ?r \<noteq> [] then [EvExec d (revoke_roles_sql ?r name) None] else []))
      = mem ?h3 - set ?r"
    by (rule membership_revoke [OF laws])
  have "h' = ?h3 @ (if ?r \<noteq> [] then [EvExec d (revoke_roles_sql ?r name) None] else [])"
    using h' unfolding rolesDiff_expected [of existing roles ds] by (simp only: append_assoc)
  then have "mem h' = set existing \<union> set ?g - set ?r"
    by (simp only: mem4 mem3 ex)
  then show ?thesis
    using roles.add_then_remove [of existing ?D] ex by (simp add: set_append_access_roles)
qed

text \<open>The server of the witness: \<open>bob\<close> starts with the roles \<open>ops\<close> and \<open>old_read\<close>.\<close>

definition bob_members :: "history \<Rightarrow> string list" where
  "bob_members = ref_members (\<lambda>m. Split m (CHR '','')) ''bob'' [''ops'', ''old_read'']"

theorem Role_membership_witness:
  "let srv = ref_server id (\<lambda>h. singletons (bob_members h));
       ds = [\<lparr>dsc_Name = ''user'', dsc_Schema = ''public'', dsc_Privileges = PrivilegeRead\<rparr>];
       (r, h') = Role srv 0 ''bob'' [''rds_iam''] ds []
   in r = Inr () \<and> set (bob_members h') = {''rds_iam'', ''user_read'', ''ops''}"
proof -
  let ?srv = "ref_server id (\<lambda>h. singletons (bob_members h))"
  let ?ds = "[\<lparr>dsc_Name = ''user'', dsc_Schema = ''public'', dsc_Privileges = PrivilegeRead\<rparr>]"
  let ?N = "{r. CHR '','' \<notin> set r}"
  have eval: "fst (Role ?srv 0 ''bob'' [''rds_iam''] ?ds []) = Inr ()" by code_simp
  then obtain h' where run: "Role ?srv 0 ''bob'' [''rds_iam''] ?ds [] = (Inr (), h')"
    by (metis prod.collapse)
  have laws: "membership_laws ?N 0 (\<lambda>rs. grant_roles_sql rs ''bob'') (\<lambda>rs. revoke_roles_sql rs ''bob'')
      (\<lambda>h. set (bob_members h))"
    unfolding bob_members_def
    by (rule ref_membership_laws [where listing = "\<lambda>rs. Join rs '',''"])
      (auto simp: grant_roles_sql_def revoke_roles_sql_def intro!: Split_Join)
  have reads: "reads_members ?srv 0 persistedRoles_sql [''bob''] (\<lambda>h. set (bob_members h))"
    unfolding bob_members_def by (rule ref_reads_members)
  have creates: "keeps_members 0 (create_login_sql ''bob'') (\<lambda>h. set (bob_members h))"
    unfolding bob_members_def by (rule ref_keeps_members) (simp_all add: create_login_sql_def)
  have start: "set (bob_members []) = {''ops'', ''old_read''}"
    by (simp add: bob_members_def ref_members_def)
  have role: "access_role (hd ?ds) = Some ''user_read''" by code_simp
  have suffix: "\<not> hasManagedSuffix ''ops''" "hasManagedSuffix ''old_read''" by code_simp+
  have "set (bob_members []) \<subseteq> ?N" unfolding start by auto
  moreover have "set (append_access_roles [''rds_iam''] ?ds) \<subseteq> ?N"
    using role by (auto simp: set_append_access_roles)
  ultimately have "set (bob_members h') = set [''rds_iam''] \<union> {r. \<exists>d\<in>set ?ds. access_role d = Some r}
      \<union> {r \<in> set (bob_members []). \<not> hasManagedSuffix r}"
    using Role_membership [OF run laws reads creates] by simp
  then have "set (bob_members h') = {''rds_iam'', ''user_read'', ''ops''}"
    unfolding start using role suffix by auto
  with run show ?thesis by simp
qed

end
