(* ===== verification/Grants.thy ===== *)
theory Grants
  imports Kube Pg_Roles
begin

text \<open>
  \<open>pkg/grants/grants.go\<close>: from the access requests of a \<open>PostgreSQLUser\<close> to the accesses
  to set up on each host.

  The function fields of \<open>Granter\<close> are functions of the model. \<open>g.Now()\<close> is called up to
  twice for each access request; the clock is a function of the call, so that every sequence
  of readings is covered: \<open>g_Now g pass i check\<close> is the reading for the check \<open>check\<close> of
  the request with index \<open>i\<close> in the pass over the read or the write requests.
\<close>

section \<open>Granter and accesses\<close>

datatype pass = ReadPass | WritePass
datatype check = StartCheck | StopCheck

record Granter =
  g_AllDatabasesReadEnabled :: bool
  g_AllDatabasesWriteEnabled :: bool
  g_ExtendedWritesEnabled :: bool
  g_AllDatabases :: "string \<Rightarrow> goerr + PostgreSQLDatabase list"
  g_ResourceResolver :: "ResourceVar \<Rightarrow> string \<Rightarrow> goerr + string"
  g_StaticRoles :: "string list"
  g_HostCredentials :: "(string, Credentials) gomap"
  g_Now :: "pass \<Rightarrow> nat \<Rightarrow> check \<Rightarrow> gotime"

record ReadWriteAccess =
  rwa_Host :: string
  rwa_Database :: DatabaseSchema
  rwa_Access :: AccessSpec

type_synonym HostAccess = "(string, ReadWriteAccess list) gomap"

section \<open>All databases of a host\<close>

text \<open>One iteration over the databases of the namespace: the accumulated error and the map.\<close>

definition all_databases_step ::
    "Granter \<Rightarrow> string \<Rightarrow> string \<Rightarrow> AccessSpec \<Rightarrow> Privilege \<Rightarrow> PostgreSQLDatabase
     \<Rightarrow> goerr option \<times> HostAccess \<Rightarrow> goerr option \<times> HostAccess" where
  "all_databases_step g host namespace access privilege databaseResource st =
     (let (errs, hosts) = st; spec = db_Spec databaseResource; database = ds_Name spec
      in if dst_Phase (db_Status databaseResource) \<noteq> PostgreSQLDatabasePhaseRunning then (errs, hosts)
      else case g_ResourceResolver g (ds_Host spec) namespace of
        Inl err \<Rightarrow>
          (multierr_Append errs (Wrapf ''resolve database '%s' host name: %w'' [database] err), hosts)
      | Inr databaseHost \<Rightarrow>
          if host \<noteq> databaseHost then (errs, hosts)
          else
            (let resolved = g_ResourceResolver g (ds_User spec) namespace
             in case resolved of
               Inl err \<Rightarrow>
                 if \<not> errors_Is err ErrNoValue
                 then (multierr_Append errs (Wrapf ''resolve database '%s' user name: %w'' [database] err), hosts)
                 else (errs, gm_append host
                        \<lparr>rwa_Host = host,
                         rwa_Database = \<lparr>dsc_Name = database, dsc_Schema = database, dsc_Privileges = privilege\<rparr>,
                         rwa_Access = access\<rparr> hosts)
             | Inr user \<Rightarrow>
                 (let schema = (if user = [] then database else user)
                  in (errs, gm_append host
                        \<lparr>rwa_Host = host,
                         rwa_Database = \<lparr>dsc_Name = database, dsc_Schema = schema, dsc_Privileges = privilege\<rparr>,
                         rwa_Access = access\<rparr> hosts))))"

fun all_databases_loop ::
    "Granter \<Rightarrow> string \<Rightarrow> string \<Rightarrow> AccessSpec \<Rightarrow> Privilege \<Rightarrow> PostgreSQLDatabase list
     \<Rightarrow> goerr option \<times> HostAccess \<Rightarrow> goerr option \<times> HostAccess" where
  "all_databases_loop g host namespace access privilege [] st = st"
| "all_databases_loop g host namespace access privilege (d # ds) st =
     all_databases_loop g host namespace access privilege ds
       (all_databases_step g host namespace access privilege d st)"

definition groupAllDatabasesByHost ::
    "Granter \<Rightarrow> HostAccess \<Rightarrow> string \<Rightarrow> string \<Rightarrow> AccessSpec \<Rightarrow> Privilege \<Rightarrow> goerr option \<times> HostAccess" where
  "groupAllDatabasesByHost g hosts host namespace access privilege =
     (case g_AllDatabases g namespace of
        Inl err \<Rightarrow> (Some (Wrapf ''get all databases: %w'' [] err), hosts)
      | Inr databases \<Rightarrow>
          if databases = [] then (None, hosts)
          else all_databases_loop g host namespace access privilege databases (None, hosts))"

section \<open>Grouping by hosts\<close>

definition groupByHosts_step ::
    "Granter \<Rightarrow> (check \<Rightarrow> gotime) \<Rightarrow> string \<Rightarrow> AccessSpec \<Rightarrow> Privilege \<Rightarrow> bool
     \<Rightarrow> goerr option \<times> HostAccess \<Rightarrow> goerr option \<times> HostAccess" where
  "groupByHosts_step g now namespace access privilege allDatabasesEnabled st =
     (let (errs, hosts) = st;
          failed = (\<lambda>msg err. (multierr_Append errs (Wrapf msg [] (AccessErr access err)), hosts))
      in if \<not> IsZero (as_Start access) \<and> now StartCheck < the (as_Start access) then (errs, hosts)
      else if \<not> IsZero (as_Stop access) \<and> now StopCheck > the (as_Stop access) then (errs, hosts)
      else case g_ResourceResolver g (as_Host access) namespace of
        Inl err \<Rightarrow> failed ''resolve host: %w'' err
      | Inr host \<Rightarrow>
          if as_AllDatabases access = Some True then
            (if \<not> allDatabasesEnabled then (errs, hosts)
             else case groupAllDatabasesByHost g hosts host namespace access privilege of
                 (None, hosts') \<Rightarrow> (errs, hosts')
               | (Some err, hosts') \<Rightarrow>
                   (multierr_Append errs (Wrapf ''all databases: %w'' [] (AccessErr access err)), hosts'))
          else case g_ResourceResolver g (as_Database access) namespace of
            Inl err \<Rightarrow> failed ''resolve database: %w'' err
          | Inr database \<Rightarrow>
             (case g_ResourceResolver g (as_Schema access) namespace of
                Inl err \<Rightarrow> failed ''resolve schema: %w'' err
              | Inr schema \<Rightarrow>
                  (errs, gm_append host
                     \<lparr>rwa_Host = host,
                      rwa_Database = \<lparr>dsc_Name = database, dsc_Schema = schema, dsc_Privileges = privilege\<rparr>,
                      rwa_Access = access\<rparr> hosts)))"

fun groupByHosts_loop ::
    "Granter \<Rightarrow> (nat \<Rightarrow> check \<Rightarrow> gotime) \<Rightarrow> string \<Rightarrow> (nat \<Rightarrow> Privilege) \<Rightarrow> bool \<Rightarrow> nat
     \<Rightarrow> AccessSpec list \<Rightarrow> goerr option \<times> HostAccess \<Rightarrow> goerr option \<times> HostAccess" where
  "groupByHosts_loop g now namespace privilegeLookup allDatabasesEnabled i [] st = st"
| "groupByHosts_loop g now namespace privilegeLookup allDatabasesEnabled i (a # as) st =
     groupByHosts_loop g now namespace privilegeLookup allDatabasesEnabled (Suc i) as
       (groupByHosts_step g (now i) namespace a (privilegeLookup i) allDatabasesEnabled st)"

definition groupByHosts ::
    "Granter \<Rightarrow> (nat \<Rightarrow> check \<Rightarrow> gotime) \<Rightarrow> HostAccess \<Rightarrow> string \<Rightarrow> AccessSpec list \<Rightarrow> (nat \<Rightarrow> Privilege)
     \<Rightarrow> bool \<Rightarrow> goerr option \<times> HostAccess" where
  "groupByHosts g now hosts namespace accesses privilegeLookup allDatabasesEnabled =
     groupByHosts_loop g now namespace privilegeLookup allDatabasesEnabled 0 accesses (None, hosts)"

definition groupReadsByHosts ::
    "Granter \<Rightarrow> HostAccess \<Rightarrow> string \<Rightarrow> AccessSpec list \<Rightarrow> goerr option \<times> HostAccess" where
  "groupReadsByHosts g hosts namespace accesses =
     groupByHosts g (g_Now g ReadPass) hosts namespace accesses (\<lambda>_. PrivilegeRead)
       (g_AllDatabasesReadEnabled g)"

definition mapToAccessSpec :: "WriteAccessSpec list \<Rightarrow> AccessSpec list" where
  "mapToAccessSpec accesses = map was_AccessSpec accesses"

definition write_privilege :: "Granter \<Rightarrow> WriteAccessSpec \<Rightarrow> Privilege" where
  "write_privilege g access =
     (if was_Extended access \<and> g_ExtendedWritesEnabled g then PrivilegeOwningWrite else PrivilegeWrite)"

definition groupWritesByHosts ::
    "Granter \<Rightarrow> HostAccess \<Rightarrow> string \<Rightarrow> WriteAccessSpec list \<Rightarrow> goerr option \<times> HostAccess" where
  "groupWritesByHosts g hosts namespace accesses =
     groupByHosts g (g_Now g WritePass) hosts namespace (mapToAccessSpec accesses)
       (\<lambda>i. write_privilege g (accesses ! i)) (g_AllDatabasesWriteEnabled g)"

definition groupAccesses ::
    "Granter \<Rightarrow> string \<Rightarrow> AccessSpec list \<Rightarrow> WriteAccessSpec list \<Rightarrow> goerr option \<times> HostAccess" where
  "groupAccesses g namespace reads writes =
     (if reads = [] \<and> writes = [] then (None, [])
      else
        (let (rerr, hosts1) = groupReadsByHosts g [] namespace reads;
             errs1 = (case rerr of None \<Rightarrow> None | Some e \<Rightarrow> multierr_Append None e);
             (werr, hosts2) = groupWritesByHosts g hosts1 namespace writes;
             errs2 = (case werr of None \<Rightarrow> errs1 | Some e \<Rightarrow> multierr_Append errs1 e)
         in (errs2, hosts2)))"

section \<open>AccessError\<close>

text \<open>
  \<open>AccessError.Error()\<close>: the text up to the message of the wrapped error, which
  \<open>show\<close> renders. \<open>None\<close> is a panic: \<open>err.Access.Host.ValueFrom.SecretKeyRef\<close> dereferences
  \<open>ValueFrom\<close>, which may be nil.
\<close>

definition AccessError_Error :: "(goerr \<Rightarrow> string) \<Rightarrow> AccessSpec \<Rightarrow> goerr \<Rightarrow> string option" where
  "AccessError_Error render access err =
     (let done = (\<lambda>host. Some (''access to host '' @ host @ '': '' @ render err)); host = rv_Value (as_Host access)
      in if host \<noteq> [] then done host
      else case rv_ValueFrom (as_Host access) of
        None \<Rightarrow> None
      | Some src \<Rightarrow>
          (let host1 = (case rvs_SecretKeyRef src of
                          None \<Rightarrow> []
                        | Some ref \<Rightarrow> ''from secret '' @ [CHR 0x27] @ ks_Name ref @ [CHR 0x27] @ '' key '' @ [CHR 0x27] @ ks_Key ref @ [CHR 0x27])
           in if host1 \<noteq> [] then done host1
           else done (case rvs_ConfigMapKeyRef src of
                        None \<Rightarrow> []
                      | Some ref \<Rightarrow> ''from config map '' @ [CHR 0x27] @ ks_Name ref @ [CHR 0x27] @ '' key '' @ [CHR 0x27] @ ks_Key ref @ [CHR 0x27])))"

section \<open>Reference: the accesses that a list of requests grants\<close>

text \<open>
  The same result, said without the loops and the map: a request that is within its time
  window and resolves grants one access, or one for each running database of the host. The
  definitions below are the specification that \<open>groupAccesses\<close> is compared with.
\<close>

definition active :: "(check \<Rightarrow> gotime) \<Rightarrow> AccessSpec \<Rightarrow> bool" where
  "active now a \<longleftrightarrow>
     (IsZero (as_Start a) \<or> the (as_Start a) \<le> now StartCheck) \<and>
     (IsZero (as_Stop a) \<or> now StopCheck \<le> the (as_Stop a))"

definition rwa :: "string \<Rightarrow> string \<Rightarrow> string \<Rightarrow> Privilege \<Rightarrow> AccessSpec \<Rightarrow> ReadWriteAccess" where
  "rwa host database schema privilege access =
     \<lparr>rwa_Host = host,
      rwa_Database = \<lparr>dsc_Name = database, dsc_Schema = schema, dsc_Privileges = privilege\<rparr>,
      rwa_Access = access\<rparr>"

definition database_grants ::
    "Granter \<Rightarrow> string \<Rightarrow> string \<Rightarrow> AccessSpec \<Rightarrow> Privilege \<Rightarrow> PostgreSQLDatabase \<Rightarrow> ReadWriteAccess list" where
  "database_grants g host ns access privilege d =
     (if dst_Phase (db_Status d) = PostgreSQLDatabasePhaseRunning
         \<and> g_ResourceResolver g (ds_Host (db_Spec d)) ns = Inr host
      then case g_ResourceResolver g (ds_User (db_Spec d)) ns of
          Inl err \<Rightarrow>
            if errors_Is err ErrNoValue
            then [rwa host (ds_Name (db_Spec d)) (ds_Name (db_Spec d)) privilege access] else []
        | Inr user \<Rightarrow>
            [rwa host (ds_Name (db_Spec d)) (if user = [] then ds_Name (db_Spec d) else user) privilege access]
      else [])"

definition access_grants ::
    "Granter \<Rightarrow> (check \<Rightarrow> gotime) \<Rightarrow> string \<Rightarrow> AccessSpec \<Rightarrow> Privilege \<Rightarrow> bool \<Rightarrow> ReadWriteAccess list" where
  "access_grants g now ns access privilege enabled =
     (if \<not> active now access then []
      else case g_ResourceResolver g (as_Host access) ns of
        Inl _ \<Rightarrow> []
      | Inr host \<Rightarrow>
          if as_AllDatabases access = Some True then
            (if \<not> enabled then []
             else case g_AllDatabases g ns of
               Inl _ \<Rightarrow> []
             | Inr ds \<Rightarrow> concat (map (database_grants g host ns access privilege) ds))
          else case (g_ResourceResolver g (as_Database access) ns, g_ResourceResolver g (as_Schema access) ns) of
              (Inr database, Inr schema) \<Rightarrow> [rwa host database schema privilege access]
            | _ \<Rightarrow> [])"

definition pass_grants ::
    "Granter \<Rightarrow> (nat \<Rightarrow> check \<Rightarrow> gotime) \<Rightarrow> string \<Rightarrow> (nat \<Rightarrow> Privilege) \<Rightarrow> bool \<Rightarrow> nat \<Rightarrow> AccessSpec list \<Rightarrow> ReadWriteAccess list" where
  "pass_grants g now ns lookup enabled i as =
     concat (map (\<lambda>(j, a). access_grants g (now j) ns a (lookup j) enabled) (enumerate i as))"

definition request_grants ::
    "Granter \<Rightarrow> string \<Rightarrow> AccessSpec list \<Rightarrow> WriteAccessSpec list \<Rightarrow> ReadWriteAccess list" where
  "request_grants g ns reads writes =
     pass_grants g (g_Now g ReadPass) ns (\<lambda>_. PrivilegeRead) (g_AllDatabasesReadEnabled g) 0 reads
     @ pass_grants g (g_Now g WritePass) ns (\<lambda>i. write_privilege g (writes ! i)) (g_AllDatabasesWriteEnabled g) 0
         (mapToAccessSpec writes)"

section \<open>Lemmas\<close>

definition gm_appends :: "HostAccess \<Rightarrow> ReadWriteAccess list \<Rightarrow> HostAccess" where
  "gm_appends m rs = foldl (\<lambda>m r. gm_append (rwa_Host r) r m) m rs"

lemma gm_appends_Nil [simp]: "gm_appends m [] = m"
  by (simp add: gm_appends_def)

lemma gm_appends_single [simp]: "gm_appends m [r] = gm_append (rwa_Host r) r m"
  by (simp add: gm_appends_def)

lemma gm_appends_append [simp]: "gm_appends m (rs @ ss) = gm_appends (gm_appends m rs) ss"
  by (simp add: gm_appends_def)

lemma gm_appends_get:
  "gm_get (gm_appends m rs) k =
     (if filter (\<lambda>r. rwa_Host r = k) rs = [] then gm_get m k
      else Some ((case gm_get m k of None \<Rightarrow> [] | Some vs \<Rightarrow> vs) @ filter (\<lambda>r. rwa_Host r = k) rs))"
  by (induction rs rule: rev_induct) (auto simp: gm_append_get split: option.splits if_splits)

lemma distinct_gm_appends: "distinct (map fst m) \<Longrightarrow> distinct (map fst (gm_appends m rs))"
  by (induction rs rule: rev_induct) auto

lemma rwa_simps [simp]:
  "rwa_Host (rwa h d s p a) = h" "rwa_Access (rwa h d s p a) = a"
  "dsc_Privileges (rwa_Database (rwa h d s p a)) = p"
  "dsc_Name (rwa_Database (rwa h d s p a)) = d" "dsc_Schema (rwa_Database (rwa h d s p a)) = s"
  by (simp_all add: rwa_def)

lemma all_databases_step_hosts:
  "snd (all_databases_step g host ns access privilege d (errs, hosts)) =
     gm_appends hosts (database_grants g host ns access privilege d)"
  by (auto simp: all_databases_step_def database_grants_def rwa_def Let_def split: sum.splits)

lemma all_databases_loop_hosts:
  "snd (all_databases_loop g host ns access privilege ds st) =
     gm_appends (snd st) (concat (map (database_grants g host ns access privilege) ds))"
proof (induction ds arbitrary: st)
  case Nil
  show ?case by simp
next
  case (Cons d ds)
  then show ?case by (cases st) (simp add: all_databases_step_hosts)
qed

lemma groupAllDatabasesByHost_hosts:
  "snd (groupAllDatabasesByHost g hosts host ns access privilege) =
     gm_appends hosts (case g_AllDatabases g ns of
         Inl _ \<Rightarrow> []
       | Inr ds \<Rightarrow> concat (map (database_grants g host ns access privilege) ds))"
  by (simp add: groupAllDatabasesByHost_def all_databases_loop_hosts split: sum.splits)

lemma groupByHosts_step_hosts:
  "snd (groupByHosts_step g now ns access privilege enabled (errs, hosts)) =
     gm_appends hosts (access_grants g now ns access privilege enabled)"
proof (cases "active now access")
  case False
  then show ?thesis
    by (auto simp: groupByHosts_step_def access_grants_def active_def Let_def)
next
  case True
  then have "\<not> (\<not> IsZero (as_Start access) \<and> now StartCheck < the (as_Start access))"
    and "\<not> (\<not> IsZero (as_Stop access) \<and> the (as_Stop access) < now StopCheck)"
    by (auto simp: active_def)
  with True groupAllDatabasesByHost_hosts [of g hosts _ ns access privilege, symmetric] show ?thesis
    by (auto simp: groupByHosts_step_def access_grants_def rwa_def Let_def
        split: sum.splits prod.splits option.splits)
qed

lemma groupByHosts_loop_hosts:
  "snd (groupByHosts_loop g now ns lookup enabled i as st) =
     gm_appends (snd st) (pass_grants g now ns lookup enabled i as)"
proof (induction as arbitrary: i st)
  case Nil
  show ?case by (simp add: pass_grants_def)
next
  case (Cons a as)
  then show ?case by (cases st) (simp add: groupByHosts_step_hosts pass_grants_def)
qed

lemma groupAccesses_hosts:
  "snd (groupAccesses g ns reads writes) = gm_appends [] (request_grants g ns reads writes)"
  by (simp add: groupAccesses_def groupReadsByHosts_def groupWritesByHosts_def groupByHosts_def
      request_grants_def groupByHosts_loop_hosts pass_grants_def mapToAccessSpec_def Let_def
      case_prod_beta)

lemma database_grants_sound:
  assumes "r \<in> set (database_grants g host ns access privilege d)"
  shows "rwa_Host r = host \<and> rwa_Access r = access \<and> dsc_Privileges (rwa_Database r) = privilege"
  using assms
  by (cases "g_ResourceResolver g (ds_User (db_Spec d)) ns") (auto simp: database_grants_def split: if_splits)

lemma access_grants_sound:
  assumes "r \<in> set (access_grants g now ns access privilege enabled)"
  shows "active now access \<and> rwa_Access r = access \<and> dsc_Privileges (rwa_Database r) = privilege
    \<and> g_ResourceResolver g (as_Host access) ns = Inr (rwa_Host r)
    \<and> (as_AllDatabases access = Some True \<longrightarrow> enabled)"
  using assms
  by (auto simp: access_grants_def split: if_splits sum.splits dest: database_grants_sound)

lemma pass_grants_sound:
  assumes "r \<in> set (pass_grants g now ns lookup enabled 0 as)"
  obtains i where "i < length as" and "r \<in> set (access_grants g (now i) ns (as ! i) (lookup i) enabled)"
  using assms by (auto simp: pass_grants_def in_set_enumerate_eq split: prod.splits)

text \<open>A request whose host, database and schema are literals.\<close>

definition literal_access :: "AccessSpec \<Rightarrow> string \<Rightarrow> string \<Rightarrow> string \<Rightarrow> bool" where
  "literal_access a host database schema \<longleftrightarrow>
     as_Host a = static_var host \<and> as_Database a = static_var database \<and> as_Schema a = static_var schema \<and>
     host \<noteq> [] \<and> database \<noteq> [] \<and> schema \<noteq> [] \<and> as_AllDatabases a \<noteq> Some True"

context resource_resolver
begin

lemma literal_access_grants:
  assumes "g_ResourceResolver g = resolve" and "literal_access a host database schema" and "active now a"
  shows "access_grants g now ns a privilege enabled = [rwa host database schema privilege a]"
  using assms by (simp add: access_grants_def literal_access_def resolve_static)

end

lemma pass_grants_complete:
  assumes "i < length as" and "r \<in> set (access_grants g (now i) ns (as ! i) (lookup i) enabled)"
  shows "r \<in> set (pass_grants g now ns lookup enabled 0 as)"
  using assms unfolding pass_grants_def by (auto simp: in_set_enumerate_eq intro!: bexI [of _ "(i, as ! i)"])

section \<open>Properties\<close>

text \<open>C11. \<open>groupAccesses\<close> computes exactly the accesses of the reference: the entry of a host is
  the list of the accesses that the read requests and then the write requests grant on it, in
  the order of the requests, and a host with no such access has no entry.\<close>

theorem groupAccesses_reference:
  "gm_get (snd (groupAccesses g ns reads writes)) host =
     (case filter (\<lambda>r. rwa_Host r = host) (request_grants g ns reads writes) of
        [] \<Rightarrow> None
      | r # rs \<Rightarrow> Some (r # rs))"
  by (auto simp: groupAccesses_hosts gm_appends_get split: list.splits)

text \<open>C1. Every access that is set up is justified: it belongs to a read request, with the read
  privilege, or to a write request, with the owning privilege only if the request is extended
  and the controller allows extended writes; the clock was within the window of that request;
  the host is the one the request resolves to; and an access from a request for all
  databases is set up only if that feature is enabled for its kind.\<close>

theorem groupAccesses_justified:
  assumes "gm_get (snd (groupAccesses g ns reads writes)) host = Some rs" and "r \<in> set rs"
  shows "rwa_Host r = host \<and>
    g_ResourceResolver g (as_Host (rwa_Access r)) ns = Inr host \<and>
    ((\<exists>i<length reads. rwa_Access r = reads ! i \<and> active (g_Now g ReadPass i) (reads ! i)
        \<and> dsc_Privileges (rwa_Database r) = PrivilegeRead
        \<and> (as_AllDatabases (reads ! i) = Some True \<longrightarrow> g_AllDatabasesReadEnabled g)) \<or>
     (\<exists>i<length writes. rwa_Access r = was_AccessSpec (writes ! i)
        \<and> active (g_Now g WritePass i) (rwa_Access r)
        \<and> dsc_Privileges (rwa_Database r) =
            (if was_Extended (writes ! i) \<and> g_ExtendedWritesEnabled g
             then PrivilegeOwningWrite else PrivilegeWrite)
        \<and> (as_AllDatabases (rwa_Access r) = Some True \<longrightarrow> g_AllDatabasesWriteEnabled g)))"
proof -
  have r: "r \<in> set (request_grants g ns reads writes)" "rwa_Host r = host"
    using assms by (auto simp: groupAccesses_hosts gm_appends_get split: if_splits)
  then consider
      (rd) i where "i < length reads"
        "r \<in> set (access_grants g (g_Now g ReadPass i) ns (reads ! i) PrivilegeRead (g_AllDatabasesReadEnabled g))"
    | (wr) i where "i < length writes"
        "r \<in> set (access_grants g (g_Now g WritePass i) ns (was_AccessSpec (writes ! i))
                     (write_privilege g (writes ! i)) (g_AllDatabasesWriteEnabled g))"
    by (auto simp: request_grants_def mapToAccessSpec_def elim!: pass_grants_sound)
  then show ?thesis
  proof cases
    case rd
    with r(2) show ?thesis using access_grants_sound [OF rd(2)] by auto
  next
    case wr
    with r(2) show ?thesis using access_grants_sound [OF wr(2)] by (auto simp: write_privilege_def)
  qed
qed

text \<open>No request is lost: a read or write request within its time window whose host, database
  and schema are literals is always set up, with the privilege of its kind, whatever the other
  requests are and whatever the API server holds.\<close>

theorem groupAccesses_literal:
  assumes resolver: "g_ResourceResolver g = ResourceValue client" and lit: "literal_access a host database schema"
    and request: "(i < length reads \<and> reads ! i = a \<and> active (g_Now g ReadPass i) a \<and> p = PrivilegeRead) \<or>
      (i < length writes \<and> was_AccessSpec (writes ! i) = a \<and> active (g_Now g WritePass i) a
         \<and> p = write_privilege g (writes ! i))"
  shows "\<exists>rs. gm_get (snd (groupAccesses g ns reads writes)) host = Some rs \<and> rwa host database schema p a \<in> set rs"
proof -
  have one: "rwa host database schema p a \<in> set (access_grants g now ns a p enabled)" if "active now a" for now enabled
    using kube.literal_access_grants [OF resolver lit that] by simp
  have "rwa host database schema p a \<in> set (request_grants g ns reads writes)"
    using request
  proof
    assume r: "i < length reads \<and> reads ! i = a \<and> active (g_Now g ReadPass i) a \<and> p = PrivilegeRead"
    then show ?thesis
      unfolding request_grants_def using one by (auto intro!: pass_grants_complete [of i])
  next
    assume w: "i < length writes \<and> was_AccessSpec (writes ! i) = a \<and> active (g_Now g WritePass i) a
         \<and> p = write_privilege g (writes ! i)"
    then show ?thesis
      unfolding request_grants_def using one
      by (auto simp: mapToAccessSpec_def intro!: pass_grants_complete [of i])
  qed
  then show ?thesis by (force simp: groupAccesses_hosts gm_appends_get filter_empty_conv)
qed

section \<open>A concrete granter\<close>

text \<open>Used by the witnesses: an API server without Secrets and ConfigMaps, one host with
  credentials, the time 100, all features off; and the requests of a user for the database
  \<open>user\<close> on it, until the time 200 and until the time 50.\<close>

definition demo_client :: kube_client where
  "demo_client =
     \<lparr>get_Secret = (\<lambda>ns n. Inl (ApiError True ''not found'')),
      get_ConfigMap = (\<lambda>ns n. Inl (ApiError True ''not found'')),
      list_Databases = (\<lambda>ns. Inr [])\<rparr>"

definition demo_granter :: Granter where
  "demo_granter =
     \<lparr>g_AllDatabasesReadEnabled = False, g_AllDatabasesWriteEnabled = False,
      g_ExtendedWritesEnabled = False,
      g_AllDatabases = PostgreSQLDatabases demo_client,
      g_ResourceResolver = ResourceValue demo_client,
      g_StaticRoles = [''rds_iam''],
      g_HostCredentials = [(''db1'', no_credentials\<lparr>c_User := ''admin'', c_Password := ''pw''\<rparr>)],
      g_Now = (\<lambda>pass i check. 100)\<rparr>"

definition demo_access :: "gotime \<Rightarrow> AccessSpec" where
  "demo_access stop =
     \<lparr>as_Host = static_var ''db1'', as_AllDatabases = None, as_Database = static_var ''user'',
      as_Schema = static_var ''public'', as_Reason = ''ticket'', as_Start = None, as_Stop = Some stop\<rparr>"

definition demo_user :: "AccessSpec list \<Rightarrow> PostgreSQLUser" where
  "demo_user reads =
     \<lparr>pu_Meta = \<lparr>om_Name = ''bob'', om_Namespace = ''ns'', om_Finalizers = [], om_DeletionTimestamp = None\<rparr>,
      pu_Spec = \<lparr>us_Name = ''bob'', us_Read = Some reads, us_Write = None\<rparr>\<rparr>"

lemma demo_groupAccesses:
  "groupAccesses demo_granter ''ns'' [demo_access 200] [] =
     (None, [(''db1'', [rwa ''db1'' ''user'' ''public'' PrivilegeRead (demo_access 200)])])"
  by code_simp

theorem groupAccesses_justified_witness:
  "gm_get (snd (groupAccesses demo_granter ''ns'' [demo_access 200] [])) ''db1'' =
     Some [rwa ''db1'' ''user'' ''public'' PrivilegeRead (demo_access 200)]
   \<and> active (g_Now demo_granter ReadPass 0) (demo_access 200)"
proof -
  have get: "gm_get (snd (groupAccesses demo_granter ''ns'' [demo_access 200] [])) ''db1'' =
      Some [rwa ''db1'' ''user'' ''public'' PrivilegeRead (demo_access 200)]"
    by (simp add: demo_groupAccesses)
  show ?thesis
    using groupAccesses_justified [OF get, of "rwa ''db1'' ''user'' ''public'' PrivilegeRead (demo_access 200)"] get
    by auto
qed

theorem groupAccesses_literal_witness:
  "\<exists>rs. gm_get (snd (groupAccesses demo_granter ''ns'' [demo_access 50, demo_access 200] [])) ''db1'' = Some rs
     \<and> rwa ''db1'' ''user'' ''public'' PrivilegeRead (demo_access 200) \<in> set rs"
  by (rule groupAccesses_literal [where client = demo_client and i = 1])
    (simp_all add: demo_granter_def literal_access_def demo_access_def active_def IsZero_def)

end
