(* ===== verification/Grants_Sync.thy ===== *)
theory Grants_Sync
  imports Grants
begin

text \<open>
  \<open>pkg/grants/sync.go\<close>: \<open>SyncUser\<close> connects to every host with accesses, sets the roles of
  the user there and closes the connections. Three loops range over Go maps; their orders
  are the parameters \<open>rngC\<close> (connecting), \<open>rngR\<close> (setting roles) and \<open>rngX\<close> (closing).

  \<open>connectToHosts\<close> reads \<open>access[0]\<close>, which panics on an empty slice: \<open>None\<close> of the result
  is that panic.
\<close>

section \<open>Connecting\<close>

definition sync_connection :: "string \<Rightarrow> string \<Rightarrow> Credentials \<Rightarrow> ConnectionString" where
  "sync_connection host database credentials =
     \<lparr>cs_Host = host, cs_Database = database, cs_User = c_User credentials,
      cs_Password = c_Password credentials, cs_Params = []\<rparr>"

fun connect_loop ::
    "server \<Rightarrow> Granter \<Rightarrow> HostAccess \<Rightarrow> goerr option \<times> (string, db) gomap \<Rightarrow> history
     \<Rightarrow> ((goerr option \<times> (string, db) gomap) \<times> history) option" where
  "connect_loop srv g [] st h = Some (st, h)"
| "connect_loop srv g ((host, access) # rest) (errs, hosts) h =
     (case access of
        [] \<Rightarrow> None
      | a # _ \<Rightarrow>
         (let database = dsc_Name (rwa_Database a)
          in case gm_get (g_HostCredentials g) host of
               None \<Rightarrow>
                 connect_loop srv g rest
                   (multierr_Append errs (Errorf (''no credentials for host '%s'' @ [CHR 0x27]) [host]), hosts) h
             | Some credentials \<Rightarrow>
                 (let connectionString = sync_connection host database credentials
                  in case Connect srv connectionString h of
                       (Inl err, h1) \<Rightarrow>
                         connect_loop srv g rest
                           (multierr_Append errs (Wrapf ''connect to %s: %w'' [String connectionString] err), hosts) h1
                     | (Inr d, h1) \<Rightarrow> connect_loop srv g rest (errs, gm_put host d hosts) h1)))"

definition connectToHosts ::
    "server \<Rightarrow> Granter \<Rightarrow> (HostAccess \<Rightarrow> HostAccess) \<Rightarrow> HostAccess \<Rightarrow> history
     \<Rightarrow> ((goerr option \<times> (string, db) gomap) \<times> history) option" where
  "connectToHosts srv g rngC accesses h = connect_loop srv g (rngC accesses) (None, []) h"

section \<open>Closing\<close>

fun close_loop :: "server \<Rightarrow> (string, db) gomap \<Rightarrow> goerr option \<Rightarrow> history \<Rightarrow> goerr option \<times> history" where
  "close_loop srv [] errs h = (errs, h)"
| "close_loop srv ((name, conn) # rest) errs h =
     (case db_Close srv conn h of
        (Inl err, h1) \<Rightarrow> close_loop srv rest (multierr_Append errs (Wrapf ''host %s: %w'' [name] err)) h1
      | (Inr _, h1) \<Rightarrow> close_loop srv rest errs h1)"

definition closeConnectionToHosts ::
    "server \<Rightarrow> ((string, db) gomap \<Rightarrow> (string, db) gomap) \<Rightarrow> (string, db) gomap \<Rightarrow> history \<Rightarrow> goerr option \<times> history" where
  "closeConnectionToHosts srv rngX hosts h = close_loop srv (rngX hosts) None h"

section \<open>Setting roles\<close>

definition databaseSchemas :: "ReadWriteAccess list \<Rightarrow> DatabaseSchema list" where
  "databaseSchemas accesses =
     map (\<lambda>access. \<lparr>dsc_Name = dsc_Name (rwa_Database access),
                    dsc_Schema = dsc_Schema (rwa_Database access),
                    dsc_Privileges = dsc_Privileges (rwa_Database access)\<rparr>) accesses"

fun set_roles_loop ::
    "server \<Rightarrow> Granter \<Rightarrow> string \<Rightarrow> HostAccess \<Rightarrow> (string, db) gomap \<Rightarrow> goerr option \<Rightarrow> history
     \<Rightarrow> goerr option \<times> history" where
  "set_roles_loop srv g name [] hosts errs h = (errs, h)"
| "set_roles_loop srv g name ((host, access) # rest) hosts errs h =
     (case gm_get hosts host of
        None \<Rightarrow> (Some (Errorf ''connection for host %s not found'' [host]), h)
      | Some connection \<Rightarrow>
         (case Role srv connection name (g_StaticRoles g) (databaseSchemas access) h of
            (Inl err, h1) \<Rightarrow>
              set_roles_loop srv g name rest hosts (multierr_Append errs (Wrapf ''grant roles: %w'' [] err)) h1
          | (Inr _, h1) \<Rightarrow> set_roles_loop srv g name rest hosts errs h1))"

definition setRolesOnHosts ::
    "server \<Rightarrow> Granter \<Rightarrow> (HostAccess \<Rightarrow> HostAccess) \<Rightarrow> string \<Rightarrow> HostAccess \<Rightarrow> (string, db) gomap \<Rightarrow> history
     \<Rightarrow> goerr option \<times> history" where
  "setRolesOnHosts srv g rngR name accesses hosts h = set_roles_loop srv g name (rngR accesses) hosts None h"

section \<open>SyncUser\<close>

definition SyncUser ::
    "server \<Rightarrow> Granter \<Rightarrow> (HostAccess \<Rightarrow> HostAccess) \<Rightarrow> (HostAccess \<Rightarrow> HostAccess)
     \<Rightarrow> ((string, db) gomap \<Rightarrow> (string, db) gomap) \<Rightarrow> string \<Rightarrow> string \<Rightarrow> PostgreSQLUser \<Rightarrow> history
     \<Rightarrow> (goerr option \<times> history) option" where
  "SyncUser srv g rngC rngR rngX namespace rolePrefix user h =
     (let prefixedUsername = rolePrefix @ us_Name (pu_Spec user);
          read = (case us_Read (pu_Spec user) of None \<Rightarrow> [] | Some r \<Rightarrow> r);
          write = (case us_Write (pu_Spec user) of None \<Rightarrow> [] | Some w \<Rightarrow> w);
          (err, accesses) = groupAccesses g namespace read write
      in if err \<noteq> None \<and> accesses = []
         then Some (Some (Wrapf ''group accesses: %w'' [] (the err)), h)
         else case connectToHosts srv g rngC accesses h of
             None \<Rightarrow> None
           | Some ((Some e, hosts), h1) \<Rightarrow> Some (Some (Wrapf ''connect to hosts: %w'' [] e), h1)
           | Some ((None, hosts), h1) \<Rightarrow>
               (let (rerr, h2) = setRolesOnHosts srv g rngR prefixedUsername accesses hosts h1;
                    (cerr, h3) = closeConnectionToHosts srv rngX hosts h2
                in Some (map_option (Wrapf ''grant access on host: %w'' []) rerr, h3)))"

abbreviation user_reads :: "PostgreSQLUser \<Rightarrow> AccessSpec list" where
  "user_reads user \<equiv> (case us_Read (pu_Spec user) of None \<Rightarrow> [] | Some r \<Rightarrow> r)"

abbreviation user_writes :: "PostgreSQLUser \<Rightarrow> WriteAccessSpec list" where
  "user_writes user \<equiv> (case us_Write (pu_Spec user) of None \<Rightarrow> [] | Some w \<Rightarrow> w)"

section \<open>Lemmas\<close>

lemma connect_loop_not_None:
  "\<forall>(host, access)\<in>set m. access \<noteq> [] \<Longrightarrow> connect_loop srv g m st h \<noteq> None"
proof (induction srv g m st h rule: connect_loop.induct)
  case (2 srv g host access rest errs hosts h)
  then show ?case
    by (cases access) (auto simp: Let_def split: option.splits sum.splits prod.splits)
qed auto

lemma groupAccesses_entries:
  assumes "(host, access) \<in> set (snd (groupAccesses g ns reads writes))"
  shows "access \<noteq> []"
proof -
  have "distinct (map fst (snd (groupAccesses g ns reads writes)))"
    by (simp add: groupAccesses_hosts distinct_gm_appends)
  with assms have "gm_get (snd (groupAccesses g ns reads writes)) host = Some access"
    by (simp add: map_of_is_SomeI)
  then show ?thesis by (auto simp: groupAccesses_hosts gm_appends_get split: if_splits)
qed

lemma groupAccesses_distinct: "distinct (map fst (snd (groupAccesses g ns reads writes)))"
  by (simp add: groupAccesses_hosts distinct_gm_appends)

lemma Connect_events:
  assumes "Connect srv cs h = (Inr d, h')"
  shows "h' = h @ [EvOpen (Raw cs) (Inr d), EvPing d None]"
  using assms by (auto simp: Connect_def sql_calls Let_def elim!: onerr_InrE)

text \<open>The dispositions of a host after connecting: credentials are configured and the connection
  of the host is one that was opened for it.\<close>

definition connected :: "Granter \<Rightarrow> (string, db) gomap \<Rightarrow> history \<Rightarrow> string \<Rightarrow> ReadWriteAccess list \<Rightarrow> db \<Rightarrow> bool" where
  "connected g hosts h host access d \<longleftrightarrow>
     gm_get hosts host = Some d \<and>
     (\<exists>credentials. gm_get (g_HostCredentials g) host = Some credentials \<and>
        EvOpen (Raw (sync_connection host (dsc_Name (rwa_Database (hd access))) credentials)) (Inr d) \<in> set h)"

lemma connect_loop_ok:
  assumes "connect_loop srv g m (errs, hosts) h = Some ((None, hosts'), h')"
    and "distinct (map fst m)"
  shows "errs = None \<and> prefix h h'
    \<and> (\<forall>host. host \<notin> fst ` set m \<longrightarrow> gm_get hosts' host = gm_get hosts host)
    \<and> (\<forall>(host, access)\<in>set m. \<exists>d. connected g hosts' h' host access d)"
  using assms
proof (induction m arbitrary: errs hosts h)
  case Nil
  then show ?case by simp
next
  case (Cons entry m)
  obtain host access where entry: "entry = (host, access)" by (cases entry)
  with Cons.prems(1) obtain a as where access: "access = a # as" by (cases access) auto
  let ?cs = "\<lambda>c. sync_connection host (dsc_Name (rwa_Database a)) c"
  have failed: "connect_loop srv g m (multierr_Append errs e, hosts) h1 \<noteq> Some ((None, hosts'), h')" for e h1
    using Cons.IH [of "multierr_Append errs e" hosts h1] Cons.prems(2) by auto
  from Cons.prems(1) failed entry access obtain credentials where
    cred: "gm_get (g_HostCredentials g) host = Some credentials"
    by (auto simp: Let_def split: option.splits)
  with Cons.prems(1) failed entry access obtain d h1 where
    conn: "Connect srv (?cs credentials) h = (Inr d, h1)"
    and rest: "connect_loop srv g m (errs, gm_put host d hosts) h1 = Some ((None, hosts'), h')"
    by (auto simp: Let_def split: prod.splits sum.splits)
  have ih: "errs = None" "prefix h1 h'"
    "\<forall>host'. host' \<notin> fst ` set m \<longrightarrow> gm_get hosts' host' = gm_get (gm_put host d hosts) host'"
    "\<forall>(host, access)\<in>set m. \<exists>d. connected g hosts' h' host access d"
    using Cons.IH [OF rest] Cons.prems(2) by auto
  have h1: "h1 = h @ [EvOpen (Raw (?cs credentials)) (Inr d), EvPing d None]"
    using conn by (rule Connect_events)
  have "host \<notin> fst ` set m" using Cons.prems(2) entry by (auto simp: image_iff)
  then have "gm_get hosts' host = Some d" using ih(3) by (simp add: update_conv')
  then have "connected g hosts' h' host access d"
    using cred h1 ih(2) access by (auto simp: connected_def dest: set_mono_prefix)
  moreover have "prefix h h'" using h1 ih(2) by (meson prefixI prefix_order.trans)
  ultimately show ?case
    using ih entry by (auto simp: update_conv')
qed

lemma set_roles_loop_ok:
  assumes "set_roles_loop srv g name m hosts errs h = (None, h')"
  shows "errs = None \<and> prefix h h'
    \<and> (\<forall>(host, access)\<in>set m. \<exists>d h1 h2. gm_get hosts host = Some d \<and> prefix h h1 \<and> prefix h2 h'
          \<and> Role srv d name (g_StaticRoles g) (databaseSchemas access) h1 = (Inr (), h2))"
  using assms
proof (induction m arbitrary: errs h)
  case Nil
  then show ?case by simp
next
  case (Cons entry m)
  obtain host access where entry: "entry = (host, access)" by (cases entry)
  have failed: "set_roles_loop srv g name m hosts (multierr_Append errs e) h1 \<noteq> (None, h')" for e h1
    using Cons.IH [of "multierr_Append errs e" h1] by auto
  from Cons.prems failed entry obtain d u h1 where
    d: "gm_get hosts host = Some d"
    and role: "Role srv d name (g_StaticRoles g) (databaseSchemas access) h = (Inr u, h1)"
    and rest: "set_roles_loop srv g name m hosts errs h1 = (None, h')"
    by (auto split: option.splits prod.splits sum.splits)
  have h1: "prefix h h1"
    using appendsD [OF appends_Role role] by auto
  have ih: "errs = None" "prefix h1 h'"
    "\<And>host access. (host, access) \<in> set m \<Longrightarrow>
       \<exists>d h2 h3. gm_get hosts host = Some d \<and> prefix h1 h2 \<and> prefix h3 h'
          \<and> Role srv d name (g_StaticRoles g) (databaseSchemas access) h2 = (Inr (), h3)"
    using Cons.IH [OF rest] by auto
  have this_host: "\<exists>d h2 h3. gm_get hosts host = Some d \<and> prefix h h2 \<and> prefix h3 h'
      \<and> Role srv d name (g_StaticRoles g) (databaseSchemas access) h2 = (Inr (), h3)"
    using d role ih(2) by (intro exI [of _ d] exI [of _ h] exI [of _ h1]) simp
  have other_hosts: "\<exists>d h2 h3. gm_get hosts host' = Some d \<and> prefix h h2 \<and> prefix h3 h'
      \<and> Role srv d name (g_StaticRoles g) (databaseSchemas access') h2 = (Inr (), h3)"
    if "(host', access') \<in> set m" for host' access'
    using ih(3) [OF that] h1 prefix_order.trans by blast
  have "prefix h h'" using h1 ih(2) by (rule prefix_order.trans)
  then show ?case using ih(1) this_host other_hosts entry by auto
qed

lemma close_loop_events:
  "\<exists>new. snd (close_loop srv m errs h) = h @ new \<and> (\<forall>(name, d)\<in>set m. \<exists>r. EvClose d r \<in> set new)"
proof (induction m arbitrary: errs h)
  case Nil
  show ?case by simp
next
  case (Cons entry m)
  obtain name d where entry: "entry = (name, d)" by (cases entry)
  let ?h1 = "h @ [EvClose d (srv_Close srv h d)]"
  have "\<exists>errs'. close_loop srv (entry # m) errs h = close_loop srv m errs' ?h1"
    by (auto simp: entry db_Close_def Let_def of_error_def split: option.splits)
  then obtain errs' where step: "close_loop srv (entry # m) errs h = close_loop srv m errs' ?h1" by blast
  obtain new where "snd (close_loop srv m errs' ?h1) = ?h1 @ new"
    and "\<forall>(name, d)\<in>set m. \<exists>r. EvClose d r \<in> set new"
    using Cons.IH by blast
  then show ?case
    unfolding step by (intro exI [of _ "EvClose d (srv_Close srv h d) # new"]) (auto simp: entry)
qed

text \<open>No active request, no access and no error.\<close>

lemma groupByHosts_loop_inactive:
  "\<forall>j<length as. \<not> active (now (i + j)) (as ! j) \<Longrightarrow>
     groupByHosts_loop g now ns lookup enabled i as st = st"
proof (induction as arbitrary: i st)
  case Nil
  show ?case by simp
next
  case (Cons a as)
  have "\<not> active (now i) a" using Cons.prems [rule_format, of 0] by simp
  then have "groupByHosts_step g (now i) ns a (lookup i) enabled st = st"
    by (cases st) (auto simp: groupByHosts_step_def active_def Let_def)
  moreover have "\<forall>j<length as. \<not> active (now (Suc i + j)) (as ! j)"
    using Cons.prems by auto
  ultimately show ?case using Cons.IH by simp
qed

lemma groupAccesses_inactive:
  assumes "\<forall>i<length reads. \<not> active (g_Now g ReadPass i) (reads ! i)"
    and "\<forall>i<length writes. \<not> active (g_Now g WritePass i) (was_AccessSpec (writes ! i))"
  shows "groupAccesses g ns reads writes = (None, [])"
  using assms
  by (simp add: groupAccesses_def groupReadsByHosts_def groupWritesByHosts_def groupByHosts_def
      groupByHosts_loop_inactive mapToAccessSpec_def)

section \<open>Properties\<close>

text \<open>C13. \<open>SyncUser\<close> never panics on the index \<open>access[0]\<close>, in whatever order the maps are ranged
  over: every host that \<open>groupAccesses\<close> puts in the map has at least one access.\<close>

theorem SyncUser_no_panic:
  assumes "is_range rngC"
  shows "SyncUser srv g rngC rngR rngX ns rolePrefix user h \<noteq> None"
proof -
  obtain err accesses where ga:
    "groupAccesses g ns (user_reads user) (user_writes user) = (err, accesses)"
    by (cases "groupAccesses g ns (user_reads user) (user_writes user)")
  then have "\<forall>(host, access)\<in>set (rngC accesses). access \<noteq> []"
    using groupAccesses_entries [of _ _ g ns "user_reads user" "user_writes user"] is_range_set [OF assms]
    by auto
  then have "connectToHosts srv g rngC accesses h \<noteq> None"
    unfolding connectToHosts_def by (rule connect_loop_not_None)
  then show ?thesis
    by (auto simp: SyncUser_def ga Let_def split: option.splits prod.splits)
qed

text \<open>C14. Expired access is not taken away when nothing else is left on the host: if every request
  of the user is outside its time window, \<open>SyncUser\<close> reports success and sends nothing to
  any server, so that every role granted while the requests were active stays granted.\<close>

theorem SyncUser_expired_sends_nothing:
  assumes "\<forall>i<length (user_reads user). \<not> active (g_Now g ReadPass i) (user_reads user ! i)"
    and "\<forall>i<length (user_writes user). \<not> active (g_Now g WritePass i) (was_AccessSpec (user_writes user ! i))"
    and "is_range rngC" and "is_range rngR" and "is_range rngX"
  shows "SyncUser srv g rngC rngR rngX ns rolePrefix user h = Some (None, h)"
proof -
  have empty: "rng [] = []" if "is_range rng" for rng :: "'a list \<Rightarrow> 'a list"
    using that is_range_set [of rng "[]"] by simp
  show ?thesis
    using groupAccesses_inactive [OF assms(1,2), of ns]
    by (simp add: SyncUser_def connectToHosts_def setRolesOnHosts_def closeConnectionToHosts_def
        empty [OF assms(3)] empty [OF assms(4)] empty [OF assms(5)])
qed

text \<open>C12. When \<open>SyncUser\<close> reports success, every host with an access was handled: the connection
  was opened with the configured credentials of that host, \<open>Role\<close> ran there to completion
  for the prefixed user name with all accesses of the host, and the connection was closed
  afterwards.\<close>

theorem SyncUser_success:
  assumes "SyncUser srv g rngC rngR rngX ns rolePrefix user h = Some (None, h')"
    and "is_range rngC" and "is_range rngR" and "is_range rngX"
    and "gm_get (snd (groupAccesses g ns (user_reads user) (user_writes user))) host = Some access"
  shows "\<exists>credentials d h1 h2.
      gm_get (g_HostCredentials g) host = Some credentials
    \<and> EvOpen (Raw (sync_connection host (dsc_Name (rwa_Database (hd access))) credentials)) (Inr d) \<in> set h1
    \<and> Role srv d (rolePrefix @ us_Name (pu_Spec user)) (g_StaticRoles g) (databaseSchemas access) h1 = (Inr (), h2)
    \<and> prefix h h1 \<and> (\<exists>r. EvClose d r \<in> set (drop (length h2) h'))"
proof -
  obtain err accesses where ga:
    "groupAccesses g ns (user_reads user) (user_writes user) = (err, accesses)"
    by (cases "groupAccesses g ns (user_reads user) (user_writes user)")
  let ?name = "rolePrefix @ us_Name (pu_Spec user)"
  from assms(1) obtain hosts h1 h2 cerr where
    conn: "connectToHosts srv g rngC accesses h = Some ((None, hosts), h1)"
    and roles: "setRolesOnHosts srv g rngR ?name accesses hosts h1 = (None, h2)"
    and close: "closeConnectionToHosts srv rngX hosts h2 = (cerr, h')"
    by (auto simp: SyncUser_def ga Let_def split: if_splits option.splits prod.splits)
  have entry: "(host, access) \<in> set accesses" using assms(5) ga by (simp add: map_of_SomeD)
  have "distinct (map fst accesses)"
    using groupAccesses_distinct [of g ns "user_reads user" "user_writes user"] ga by simp
  then have "distinct (map fst (rngC accesses))"
    using assms(2) unfolding is_range_def by (metis mset_map mset_eq_imp_distinct_iff)
  then obtain d where pre1: "prefix h h1" and d: "connected g hosts h1 host access d"
    using connect_loop_ok [OF conn [unfolded connectToHosts_def]] entry is_range_set [OF assms(2)]
    by fastforce
  then obtain h2a h2b where r: "prefix h1 h2a" "prefix h2b h2"
      "Role srv d ?name (g_StaticRoles g) (databaseSchemas access) h2a = (Inr (), h2b)"
    using set_roles_loop_ok [OF roles [unfolded setRolesOnHosts_def]] entry is_range_set [OF assms(3)]
    unfolding connected_def by fastforce
  obtain new where h': "h' = h2 @ new" and new: "\<forall>(name, d)\<in>set (rngX hosts). \<exists>r. EvClose d r \<in> set new"
    using close_loop_events [of srv "rngX hosts" None h2] close
    unfolding closeConnectionToHosts_def by auto
  have "(host, d) \<in> set (rngX hosts)"
    using d is_range_set [OF assms(4)] by (auto simp: connected_def dest: map_of_SomeD)
  then obtain c where "EvClose d c \<in> set new" using new by auto
  moreover have "set new \<subseteq> set (drop (length h2b) h')" using h' r(2) by (auto simp: prefix_def)
  ultimately have "\<exists>r. EvClose d r \<in> set (drop (length h2b) h')" by blast
  moreover obtain credentials where "gm_get (g_HostCredentials g) host = Some credentials"
    "EvOpen (Raw (sync_connection host (dsc_Name (rwa_Database (hd access))) credentials)) (Inr d) \<in> set h2a"
    using d r(1) unfolding connected_def by (blast dest: set_mono_prefix)
  ultimately show ?thesis using r(3) pre1 r(1) by (blast intro: prefix_order.trans)
qed

section \<open>Witnesses\<close>

lemma is_range_id: "is_range id"
  by (simp add: is_range_def)

definition demo_server :: server where
  "demo_server = ref_server id (\<lambda>h. [])"

theorem SyncUser_no_panic_witness:
  "SyncUser demo_server demo_granter id id id ''ns'' ''iam_'' (demo_user [demo_access 200]) [] \<noteq> None"
  by (rule SyncUser_no_panic [OF is_range_id])

theorem SyncUser_expired_sends_nothing_witness:
  "SyncUser demo_server demo_granter id id id ''ns'' ''iam_'' (demo_user [demo_access 50]) [] = Some (None, [])"
proof -
  have "\<not> active (g_Now demo_granter ReadPass 0) (demo_access 50)" by code_simp
  then show ?thesis
    by (intro SyncUser_expired_sends_nothing is_range_id) (simp_all add: demo_user_def)
qed

theorem SyncUser_success_witness:
  "\<exists>credentials d h1 h2.
      gm_get (g_HostCredentials demo_granter) ''db1'' = Some credentials
    \<and> EvOpen (Raw (sync_connection ''db1'' ''user'' credentials)) (Inr d) \<in> set h1
    \<and> Role demo_server d ''iam_bob'' [''rds_iam'']
        [\<lparr>dsc_Name = ''user'', dsc_Schema = ''public'', dsc_Privileges = PrivilegeRead\<rparr>] h1 = (Inr (), h2)"
proof -
  let ?u = "demo_user [demo_access 200]"
  let ?a = "[rwa ''db1'' ''user'' ''public'' PrivilegeRead (demo_access 200)]"
  have "map_option fst (SyncUser demo_server demo_granter id id id ''ns'' ''iam_'' ?u []) = Some None"
    by code_simp
  then obtain h' where run:
      "SyncUser demo_server demo_granter id id id ''ns'' ''iam_'' ?u [] = Some (None, h')"
    by auto
  have "user_reads ?u = [demo_access 200]" "user_writes ?u = []" by (simp_all add: demo_user_def)
  then have get: "gm_get (snd (groupAccesses demo_granter ''ns'' (user_reads ?u) (user_writes ?u))) ''db1'' = Some ?a"
    by (simp add: demo_groupAccesses)
  have "databaseSchemas ?a =
      [\<lparr>dsc_Name = ''user'', dsc_Schema = ''public'', dsc_Privileges = PrivilegeRead\<rparr>]"
    "g_StaticRoles demo_granter = [''rds_iam'']" "''iam_'' @ us_Name (pu_Spec ?u) = ''iam_bob''"
    by (simp_all add: databaseSchemas_def demo_granter_def demo_user_def)
  with SyncUser_success [OF run is_range_id is_range_id is_range_id get] show ?thesis
    by (simp del: append.simps) blast
qed

end
