(* ===== verification/Sql_Reasoning.thy ===== *)
theory Sql_Reasoning
  imports Pg_Connection
begin

text \<open>
  Deferred calls, and two small program logics over histories: which statements an
  operation sends (\<open>runs\<close>, \<open>script\<close>), and which connections an operation leaves open (\<open>balanced\<close>).
  Their rules follow the combinators of \<open>Sql_World\<close>, so that the statements of a component
  are derived from its definition by applying \<open>script_intros\<close> and \<open>balanced_intros\<close>.
\<close>

section \<open>Deferred calls\<close>

text \<open>\<open>defer cleanup()\<close>: the cleanup runs when \<open>m\<close> has returned, whatever it returned; its own
  error is only logged.\<close>

definition deferring :: "unit act \<Rightarrow> 'a act \<Rightarrow> 'a act" where
  "deferring cleanup m h = (case m h of (r, h1) \<Rightarrow> (r, snd (cleanup h1)))"

lemma snd_deferring [simp]: "snd (deferring c m h) = snd (c (snd (m h)))"
  by (simp add: deferring_def split: prod.split)

lemma fst_deferring [simp]: "fst (deferring c m h) = fst (m h)"
  by (simp add: deferring_def split: prod.split)

lemma snd_tolerate [simp]: "snd (tolerate c m h) = snd (m h)"
  by (auto simp: tolerate_def split: prod.split sum.split)

lemma appends_deferring [appends_intros]:
  assumes "appends c" and "appends m"
  shows "appends (deferring c m)"
  unfolding appends_def
proof
  fix h
  have "prefix h (snd (m h))" and "prefix (snd (m h)) (snd (c (snd (m h))))"
    using assms by (simp_all add: appends_def)
  then show "prefix h (snd (deferring c m h))" by (simp add: prefix_order.trans)
qed

lemma appends_if [appends_intros]: "appends m \<Longrightarrow> appends n \<Longrightarrow> appends (if b then m else n)"
  by simp

lemma for_each_exec_events:
  assumes "for_each (\<lambda>x. onerr (db_Exec srv d (f x)) (w x) ok) xs h = (Inr u, h')"
  shows "h' = h @ map (\<lambda>x. EvExec d (f x) None) xs"
  using assms
proof (induction xs arbitrary: h)
  case (Cons x xs)
  from Cons.prems have "for_each (\<lambda>x. onerr (db_Exec srv d (f x)) (w x) ok) xs (h @ [EvExec d (f x) None]) = (Inr u, h')"
    by (auto elim!: onerr_InrE dest!: db_Exec_InrD)
  from Cons.IH [OF this] show ?case by simp
qed simp

text \<open>\<open>contacts m\<close>: a run of \<open>m\<close> makes at least one call.\<close>

definition contacts :: "'a act \<Rightarrow> bool" where
  "contacts m \<longleftrightarrow> (\<forall>h. length h < length (snd (m h)))"

lemma contacts_onerr:
  assumes "contacts m" and "\<And>x. appends (k x)"
  shows "contacts (onerr m w k)"
  unfolding contacts_def
proof
  fix h
  obtain r h1 where m: "m h = (r, h1)" by (cases "m h")
  then have "length h < length h1" using assms(1) by (metis contacts_def snd_conv)
  moreover have "length h1 \<le> length (snd (k x h1))" for x
    using assms(2) by (simp add: appends_def prefix_length_le)
  ultimately show "length h < length (snd (onerr m w k h))"
    using m by (cases r) (auto intro: less_le_trans)
qed

lemma contacts_Connect: "contacts (Connect srv cs)"
  unfolding Connect_def
  by (rule contacts_onerr) (simp_all add: contacts_def sql_calls Let_def appends_intros)

section \<open>The statements an operation sends\<close>

named_theorems script_intros "the statements an operation sends"

text \<open>The texts of the statements executed, outside and inside transactions, in order.\<close>

definition sent :: "history \<Rightarrow> string list" where
  "sent h = List.map_filter (\<lambda>e. case e of EvExec d q r \<Rightarrow> Some q | EvTxExec t q r \<Rightarrow> Some q | _ \<Rightarrow> None) h"

text \<open>\<open>script m qs\<close>: a run of \<open>m\<close> sends the statements \<open>qs\<close> in order when it succeeds, and an
  initial part of them when it fails.\<close>

definition follows :: "string list \<Rightarrow> goerr + 'a \<Rightarrow> string list \<Rightarrow> bool" where
  "follows qs r ts \<longleftrightarrow> prefix ts qs \<and> (\<not> isl r \<longrightarrow> ts = qs)"

definition runs :: "'a act \<Rightarrow> (goerr + 'a \<Rightarrow> string list \<Rightarrow> bool) \<Rightarrow> bool" where
  "runs m A \<longleftrightarrow> (\<forall>h. \<exists>ts. sent (snd (m h)) = sent h @ ts \<and> A (fst (m h)) ts)"

abbreviation script :: "'a act \<Rightarrow> string list \<Rightarrow> bool" where
  "script m qs \<equiv> runs m (follows qs)"

lemma sent_simps [simp]:
  "sent [] = []" "sent (h @ h') = sent h @ sent h'" "sent (EvExec d q r # h) = q # sent h"
  "sent (EvOpen dsn ro # h) = sent h" "sent (EvPing d r # h) = sent h" "sent (EvClose d r # h) = sent h"
  "sent (EvQuery d q as rq # h) = sent h" "sent (EvBegin d rb # h) = sent h"
  "sent (EvTxExec t q r # h) = q # sent h" "sent (EvCommit t r # h) = sent h"
  "sent (EvRollback t r # h) = sent h"
  by (simp_all add: sent_def List.map_filter_def)

lemma runsE:
  assumes "runs m A" and "m h = (r, h')"
  obtains ts where "sent h' = sent h @ ts" and "A r ts"
  using assms unfolding runs_def by (metis fst_conv snd_conv)

lemma runs_weaken: "runs m A \<Longrightarrow> (\<And>r ts. A r ts \<Longrightarrow> B r ts) \<Longrightarrow> runs m B"
  unfolding runs_def by blast

lemma follows_simps [simp]:
  "follows qs (Inr x) ts \<longleftrightarrow> ts = qs" "follows qs (Inl e) ts \<longleftrightarrow> prefix ts qs"
  by (auto simp: follows_def)

lemma scriptD: "script m qs \<Longrightarrow> m h = (Inr x, h') \<Longrightarrow> sent h' = sent h @ qs"
  by (auto elim!: runsE)

lemma script_ok [script_intros]: "script (\<lambda>h. (r, h)) []"
  by (simp add: runs_def follows_def)

lemma script_calls [script_intros]:
  "script (db_Exec srv d q) [q]" "script (db_Close srv d) []"
  "script (db_Query srv d q as) []" "script (db_Ping srv d) []" "script (sql_Open srv dsn) []"
  by (simp_all add: runs_def sql_calls Let_def follows_def)

text \<open>Sequencing: the operation stopped in the first part, or went through it.\<close>

lemma runs_onerr:
  assumes "script m us" and "\<And>x. runs (k x) (A x)"
  shows "runs (onerr m w k)
    (\<lambda>r ts. (isl r \<and> prefix ts us) \<or> (\<exists>x vs. ts = us @ vs \<and> A x r vs))"
  unfolding runs_def
proof
  fix h
  obtain r h1 where m: "m h = (r, h1)" by (cases "m h")
  from assms(1) m obtain ts where ts: "sent h1 = sent h @ ts" "follows us r ts" by (rule runsE)
  show "\<exists>ts. sent (snd (onerr m w k h)) = sent h @ ts
    \<and> ((isl (fst (onerr m w k h)) \<and> prefix ts us) \<or> (\<exists>x vs. ts = us @ vs \<and> A x (fst (onerr m w k h)) vs))"
  proof (cases r)
    case (Inl e)
    then show ?thesis using m ts by auto
  next
    case (Inr x)
    obtain r2 h2 where k: "k x h1 = (r2, h2)" by (cases "k x h1")
    from assms(2) k obtain vs where "sent h2 = sent h1 @ vs" "A x r2 vs" by (rule runsE)
    then show ?thesis using Inr m ts k by auto
  qed
qed

lemma script_onerr [script_intros]:
  assumes "script m us" and "\<And>x. script (k x) vs"
  shows "script (onerr m w k) (us @ vs)"
  by (rule runs_weaken [OF runs_onerr [OF assms]]) (auto simp: follows_def)

text \<open>\<open>after us A\<close>: the operation failed within the statements \<open>us\<close>, or sent all of them and
  then some that satisfy \<open>A\<close>.\<close>

definition after ::
    "string list \<Rightarrow> (goerr + 'a \<Rightarrow> string list \<Rightarrow> bool) \<Rightarrow> goerr + 'a \<Rightarrow> string list \<Rightarrow> bool" where
  "after us A r ts \<longleftrightarrow> (isl r \<and> prefix ts us) \<or> (\<exists>vs. ts = us @ vs \<and> A r vs)"

lemma runs_after: "script m us \<Longrightarrow> (\<And>x. runs (k x) A) \<Longrightarrow> runs (onerr m w k) (after us A)"
  by (rule runs_weaken [OF runs_onerr]) (auto simp: after_def)

lemma runs_after_append:
  "script m us \<Longrightarrow> (\<And>x. runs (k x) (after vs A)) \<Longrightarrow> runs (onerr m w k) (after (us @ vs) A)"
  by (rule runs_weaken [OF runs_onerr]) (auto simp: after_def)

lemma runs_onerr_value:
  assumes "runs m A" and "\<And>x. runs (k x) (B x)"
    and "\<And>e ts. A (Inl e) ts \<Longrightarrow> C (Inl (w e)) ts"
    and "\<And>x ts r us. A (Inr x) ts \<Longrightarrow> B x r us \<Longrightarrow> C r (ts @ us)"
  shows "runs (onerr m w k) C"
  unfolding runs_def
proof
  fix h
  obtain r h1 where m: "m h = (r, h1)" by (cases "m h")
  from assms(1) m obtain ts where ts: "sent h1 = sent h @ ts" "A r ts" by (rule runsE)
  show "\<exists>ts. sent (snd (onerr m w k h)) = sent h @ ts \<and> C (fst (onerr m w k h)) ts"
  proof (cases r)
    case (Inl e)
    then show ?thesis using m ts assms(3) by auto
  next
    case (Inr x)
    obtain r2 h2 where k: "k x h1 = (r2, h2)" by (cases "k x h1")
    from assms(2) k obtain us where "sent h2 = sent h1 @ us" "B x r2 us" by (rule runsE)
    then show ?thesis using Inr m ts k assms(4) by auto
  qed
qed

text \<open>\<open>yields qs v\<close>: as \<open>follows qs\<close>, and the result of a success is \<open>v\<close>.\<close>

definition yields :: "string list \<Rightarrow> 'a \<Rightarrow> goerr + 'a \<Rightarrow> string list \<Rightarrow> bool" where
  "yields qs v r ts \<longleftrightarrow> prefix ts qs \<and> (\<forall>x. r = Inr x \<longrightarrow> x = v \<and> ts = qs)"

lemma yields_ok: "runs (ok v) (yields [] v)"
  by (simp add: runs_def yields_def)

lemma yields_append:
  "script m us \<Longrightarrow> (\<And>x. runs (k x) (yields vs v)) \<Longrightarrow> runs (onerr m w k) (yields (us @ vs) v)"
  by (rule runs_weaken [OF runs_onerr]) (auto simp: yields_def)

text \<open>The statements may depend on a value that was read.\<close>

lemma yields_choose:
  assumes "script m us" and "\<And>x. runs (k x) (yields (vs x) (v x))"
  shows "runs (onerr m w k) (\<lambda>r ts. \<exists>x. yields (us @ vs x) (v x) r ts)"
  by (rule runs_weaken [OF runs_onerr [OF assms]]) (auto simp: yields_def)

lemma yields_append_ex:
  assumes "script m us" and "\<And>x. runs (k x) (\<lambda>r ts. \<exists>a. yields (vs a) (v a) r ts)"
  shows "runs (onerr m w k) (\<lambda>r ts. \<exists>a. yields (us @ vs a) (v a) r ts)"
  by (rule runs_weaken [OF runs_onerr [OF assms]]) (auto simp: yields_def)

lemma script_tolerate [script_intros]: "script (tolerate c (db_Exec srv d q)) [q]"
  by (simp add: runs_def db_Exec_def Let_def follows_def)

lemma script_if [script_intros]:
  "script m us \<Longrightarrow> script n vs \<Longrightarrow> script (if b then m else n) (if b then us else vs)"
  by simp

lemma script_for_each [script_intros]:
  "(\<And>x. script (body x) (f x)) \<Longrightarrow> script (for_each body xs) (concat (map f xs))"
  by (induction xs) (simp_all add: script_intros)

text \<open>A deferred statement comes after all others, whatever the outcome; a deferred close sends
  none.\<close>

lemma runs_deferring_exec:
  assumes "runs m A"
  shows "runs (deferring (db_Exec srv d q) m) (\<lambda>r ts. \<exists>us. ts = us @ [q] \<and> A r us)"
  unfolding runs_def
proof
  fix h
  obtain ts where "sent (snd (m h)) = sent h @ ts" "A (fst (m h)) ts"
    using assms unfolding runs_def by blast
  then show "\<exists>ts. sent (snd (deferring (db_Exec srv d q) m h)) = sent h @ ts
      \<and> (\<exists>us. ts = us @ [q] \<and> A (fst (deferring (db_Exec srv d q) m h)) us)"
    by (intro exI [of _ "ts @ [q]"]) (simp add: db_Exec_def Let_def)
qed

lemma runs_deferring_close:
  assumes "runs m A"
  shows "runs (deferring (db_Close srv d) m) A"
  using assms unfolding runs_def by (simp add: db_Close_def Let_def)

lemmas script_deferring_close [script_intros] = runs_deferring_close [where A = "follows qs" for qs]

lemma script_Connect [script_intros]: "script (Connect srv cs) []"
proof -
  have "script (Connect srv cs) ([] @ [] @ [])"
    unfolding Connect_def by (intro script_intros)
  then show ?thesis by simp
qed

section \<open>The connections an operation leaves open\<close>

named_theorems balanced_intros "operations that close every connection they open"

text \<open>
  A connection counts as open once \<open>Connect\<close> has opened and pinged it successfully. The state
  \<open>conn_state\<close> holds the handle that was opened by the last call, if it was an \<open>Open\<close>, and the
  connections that are open.
\<close>

fun conn_step :: "db option \<times> db list \<Rightarrow> event \<Rightarrow> db option \<times> db list" where
  "conn_step (p, ds) (EvOpen dsn (Inr d)) = (Some d, ds)"
| "conn_step (p, ds) (EvPing d None) = (None, if p = Some d then d # ds else ds)"
| "conn_step (p, ds) (EvClose d r) = (None, remove1 d ds)"
| "conn_step (p, ds) e = (None, ds)"

definition conn_state :: "history \<Rightarrow> db option \<times> db list" where
  "conn_state h = foldl conn_step (None, []) h"

definition conns :: "history \<Rightarrow> db list" where
  "conns h = snd (conn_state h)"

text \<open>No call of \<open>Connect\<close> is under way.\<close>

definition settled :: "history \<Rightarrow> bool" where
  "settled h \<longleftrightarrow> fst (conn_state h) = None"

definition balanced :: "'a act \<Rightarrow> bool" where
  "balanced m \<longleftrightarrow> (\<forall>ds. preserves (\<lambda>h. conn_state h = (None, ds)) m)"

lemma conn_state_append: "conn_state (h @ h') = foldl conn_step (conn_state h) h'"
  by (simp add: conn_state_def)

lemma balancedD:
  assumes "balanced m" and "settled h"
  shows "conns (snd (m h)) = conns h" and "settled (snd (m h))"
proof -
  have "conn_state h = (None, conns h)" using assms(2) by (simp add: settled_def conns_def prod_eq_iff)
  then have "conn_state (snd (m h)) = (None, conns h)" using assms(1) by (simp add: balanced_def preserves_def)
  then show "conns (snd (m h)) = conns h" and "settled (snd (m h))" by (simp_all add: settled_def conns_def)
qed

lemma balanced_steps [balanced_intros]:
  "balanced (\<lambda>h. (r, h))"
  "balanced m \<Longrightarrow> (\<And>x. balanced (k x)) \<Longrightarrow> balanced (onerr m w k)"
  "balanced m' \<Longrightarrow> balanced n' \<Longrightarrow> balanced (if c then m' else n')"
  "(\<And>x. balanced (b x)) \<Longrightarrow> balanced (for_each b xs)"
  "(\<And>x. balanced (l x)) \<Longrightarrow> balanced (collect l xs)"
  by (simp_all add: balanced_def preserves_intros)

lemma conn_step_ping: "conn_step (None, ds) (EvPing d r) = (None, ds)"
  by (cases r) simp_all

lemma balanced_calls [balanced_intros]:
  "balanced (db_Ping srv d)" "balanced (db_Exec srv d q)" "balanced (db_Query srv d q as)"
  "balanced (db_Begin srv d)" "balanced (tx_Exec srv t q)" "balanced (tx_Commit srv t)"
  "balanced (tx_Rollback srv t)"
  by (simp_all add: balanced_def preserves_def sql_calls Let_def conn_state_append conn_step_ping)

lemma balanced_tolerate [balanced_intros]: "balanced m \<Longrightarrow> balanced (tolerate c m)"
  by (simp add: balanced_def preserves_def)

lemma balanced_deferring [balanced_intros]:
  "balanced c \<Longrightarrow> balanced m \<Longrightarrow> balanced (deferring c m)"
  by (simp add: balanced_def preserves_def)

lemma Connect_state:
  assumes "conn_state h = (None, ds)" and "Connect srv cs h = (r, h')"
  shows "conn_state h' = (None, (case r of Inl e \<Rightarrow> ds | Inr d \<Rightarrow> d # ds))"
  using assms by (auto simp: Connect_def onerr_def sql_calls Let_def conn_state_append
          split: sum.splits prod.splits option.splits)

text \<open>A connection that is closed by a deferred call is not left open, whatever happens.\<close>

lemma balanced_connection [balanced_intros]:
  assumes "\<And>d. balanced (m d)"
  shows "balanced (onerr (Connect srv cs) w (\<lambda>d. deferring (db_Close srv d) (m d)))"
  unfolding balanced_def preserves_def
proof (intro allI impI)
  fix h ds
  assume s: "conn_state h = (None, ds)"
  obtain r h1 where c: "Connect srv cs h = (r, h1)" by (cases "Connect srv cs h")
  note h1 = Connect_state [OF s c]
  show "conn_state (snd (onerr (Connect srv cs) w (\<lambda>d. deferring (db_Close srv d) (m d)) h)) = (None, ds)"
  proof (cases r)
    case (Inl e)
    with c h1 show ?thesis by simp
  next
    case (Inr d)
    with h1 have "conn_state (snd (m d h1)) = (None, d # ds)"
      using assms [of d] by (simp add: balanced_def preserves_def)
    with c Inr show ?thesis
      by (simp add: deferring_def db_Close_def Let_def conn_state_append case_prod_beta)
  qed
qed

section \<open>The kinds of calls an operation makes\<close>

named_theorems local_intros "operations that open and close no connection"

text \<open>\<open>only K m\<close>: a run of \<open>m\<close> appends calls of the kind \<open>K\<close> to the history and does nothing else.\<close>

definition only :: "(event \<Rightarrow> bool) \<Rightarrow> 'a act \<Rightarrow> bool" where
  "only K m \<longleftrightarrow> (\<forall>h0. preserves (\<lambda>h. \<exists>new. h = h0 @ new \<and> list_all K new) m)"

lemma onlyD:
  assumes "only K m" and "m h = (r, h')"
  shows "\<exists>new. h' = h @ new \<and> list_all K new"
proof -
  have "preserves (\<lambda>h'. \<exists>new. h' = h @ new \<and> list_all K new) m" using assms(1) by (simp add: only_def)
  from preservesD [OF this assms(2)] show ?thesis by simp
qed

lemma onlyI: "(\<And>h. \<exists>new. snd (m h) = h @ new \<and> list_all K new) \<Longrightarrow> only K m"
  unfolding only_def preserves_def by (metis append.assoc list_all_append)

lemma only_appends: "only K m \<Longrightarrow> appends m"
  unfolding appends_def by (metis onlyD prefixI prod.collapse)

lemma only_steps:
  "only K (\<lambda>h. (r, h))"
  "only K m \<Longrightarrow> (\<And>x. only K (k x)) \<Longrightarrow> only K (onerr m w k)"
  "only K m' \<Longrightarrow> only K n' \<Longrightarrow> only K (if c then m' else n')"
  "(\<And>x. only K (b x)) \<Longrightarrow> only K (for_each b xs)"
  "(\<And>x. only K (l x)) \<Longrightarrow> only K (collect l xs)"
  by (simp_all add: only_def preserves_intros)

lemma only_cases:
  "only K m \<Longrightarrow> (\<And>x. only K (f x)) \<Longrightarrow> only K (case opt of None \<Rightarrow> m | Some x \<Rightarrow> f x)"
  "(\<And>x y. only K (g x y)) \<Longrightarrow> only K (case pair of (x, y) \<Rightarrow> g x y)"
  by (simp_all split: option.split prod.split)

lemma only_choice: "(\<And>c. only K (m c)) \<Longrightarrow> only K (\<lambda>h. m (choice h) h)"
  by (rule onlyI) (metis onlyD prod.collapse)

lemma only_pure: "(\<And>h. snd (m h) = h) \<Longrightarrow> only K m"
  by (rule onlyI) simp

lemma only_same_history: "only K m \<Longrightarrow> (\<And>h. snd (m' h) = snd (m h)) \<Longrightarrow> only K m'"
  by (rule onlyI) (metis onlyD prod.collapse)

fun local_event :: "event \<Rightarrow> bool" where
  "local_event (EvOpen dsn r) = False"
| "local_event (EvClose d r) = False"
| "local_event e = True"

abbreviation local_op :: "'a act \<Rightarrow> bool" where
  "local_op m \<equiv> only local_event m"

lemma local_calls:
  "local_op (db_Ping srv d)" "local_op (db_Exec srv d q)" "local_op (db_Query srv d q as)"
  "local_op (db_Begin srv d)" "local_op (tx_Exec srv t q)" "local_op (tx_Commit srv t)"
  "local_op (tx_Rollback srv t)"
  by (rule onlyI, simp add: sql_calls Let_def)+

lemma local_QueryRow: "local_op (db_QueryRow srv d q as)"
  unfolding db_QueryRow_def
  by (intro only_steps local_calls only_pure) (simp split: rows.split list.split option.split)

lemma local_tolerate: "local_op m \<Longrightarrow> local_op (tolerate c m)"
  by (rule only_same_history) simp_all

lemmas local_rules = only_steps only_cases local_calls local_QueryRow local_tolerate

lemma local_state:
  assumes "list_all local_event new" and "conn_state h = (None, ds)"
  shows "conn_state (h @ new) = (None, ds)"
  using assms
proof (induction new rule: rev_induct)
  case Nil
  then show ?case by simp
next
  case (snoc e new)
  then have "conn_state (h @ new) = (None, ds)" and "local_event e" by simp_all
  then show ?case
    using conn_step_ping by (cases e) (simp_all add: conn_state_append [of "h @ new", simplified])
qed

lemma local_balanced: "local_op m \<Longrightarrow> balanced m"
  unfolding balanced_def preserves_def by (metis local_state onlyD prod.collapse)

section \<open>Invariants along a run\<close>

named_theorems along_intros "operations that keep a predicate of the history at every moment"

text \<open>\<open>along J m\<close>: if \<open>J\<close> holds before \<open>m\<close>, it holds after each single call that \<open>m\<close> makes.\<close>

definition along :: "(history \<Rightarrow> bool) \<Rightarrow> 'a act \<Rightarrow> bool" where
  "along J m \<longleftrightarrow> appends m \<and> (\<forall>h h1. J h \<longrightarrow> prefix h h1 \<longrightarrow> prefix h1 (snd (m h)) \<longrightarrow> J h1)"

lemma alongD: "along J m \<Longrightarrow> J h \<Longrightarrow> m h = (r, h') \<Longrightarrow> J h'"
  unfolding along_def appends_def by (metis prefix_order.order_refl snd_conv)

lemma along_ok [along_intros]: "along J (\<lambda>h. (r, h))"
  by (auto simp: along_def appends_intros dest: prefix_order.antisym)

lemma prefix_between:
  assumes "prefix h h1" and "prefix h1 (h @ evs)"
  obtains n where "n \<le> length evs" and "h1 = h @ take n evs"
proof -
  from assms(1) obtain us where us: "h1 = h @ us" by (rule prefixE)
  with assms(2) have "prefix us evs" by simp
  then have "us = take (length us) evs" "length us \<le> length evs"
    by (auto simp: prefix_def)
  with us show thesis by (metis that)
qed

lemma along_events:
  assumes "\<And>h. \<exists>evs. snd (m h) = h @ evs \<and> (J h \<longrightarrow> (\<forall>n \<le> length evs. J (h @ take n evs)))"
  shows "along J m"
  unfolding along_def appends_def
proof (intro conjI allI impI)
  fix h h1
  show "prefix h (snd (m h))" using assms [of h] by auto
  assume J: "J h" and p: "prefix h h1" "prefix h1 (snd (m h))"
  obtain evs where evs: "snd (m h) = h @ evs" "\<forall>n \<le> length evs. J (h @ take n evs)"
    using assms [of h] J by blast
  from p(2) evs(1) have "prefix h1 (h @ evs)" by simp
  with p(1) obtain n where "n \<le> length evs" "h1 = h @ take n evs" by (rule prefix_between)
  with evs(2) show "J h1" by blast
qed

lemma along_onerr [along_intros]:
  assumes m: "along J m" and k: "\<And>x. along J (k x)"
  shows "along J (onerr m w k)"
  unfolding along_def
proof (intro conjI allI impI)
  show "appends (onerr m w k)" using m k by (simp add: along_def appends_intros)
  fix h h1
  assume J: "J h" and p: "prefix h h1" "prefix h1 (snd (onerr m w k h))"
  obtain r h2 where r: "m h = (r, h2)" by (cases "m h")
  have m': "J h1" if "prefix h1 h2" using m J p(1) that r unfolding along_def by (metis snd_conv)
  have J2: "J h2" using m J r by (rule alongD)
  show "J h1"
  proof (cases r)
    case (Inl e)
    then show ?thesis using p(2) r m' by simp
  next
    case (Inr x)
    then have p2: "prefix h1 (snd (k x h2))" using p(2) r by simp
    moreover have "prefix h2 (snd (k x h2))" using k unfolding along_def appends_def by blast
    ultimately consider "prefix h1 h2" | "prefix h2 h1" by (metis prefix_same_cases)
    then show ?thesis using m' k J2 p2 unfolding along_def by cases blast+
  qed
qed

lemma along_for_each [along_intros]: "(\<And>x. x \<in> set xs \<Longrightarrow> along J (b x)) \<Longrightarrow> along J (for_each b xs)"
  by (induction xs) (simp_all add: along_intros)

lemma along_collect [along_intros]: "(\<And>x. x \<in> set xs \<Longrightarrow> along J (b x)) \<Longrightarrow> along J (collect b xs)"
  by (induction xs) (simp_all add: along_intros)

lemma along_if [along_intros]: "along J m \<Longrightarrow> along J n \<Longrightarrow> along J (if b then m else n)"
  by simp

text \<open>The same for one run: \<open>J\<close> holds from \<open>h\<close> on, after each call.\<close>

definition during :: "(history \<Rightarrow> bool) \<Rightarrow> 'a act \<Rightarrow> history \<Rightarrow> bool" where
  "during J m h \<longleftrightarrow> prefix h (snd (m h)) \<and> (\<forall>h1. prefix h h1 \<longrightarrow> prefix h1 (snd (m h)) \<longrightarrow> J h1)"

lemma along_during: "along J m \<Longrightarrow> J h \<Longrightarrow> during J m h"
  by (auto simp: along_def during_def appends_def)

lemma during_onerr:
  assumes m: "along J m" and J: "J h" and k: "\<And>x h2. m h = (Inr x, h2) \<Longrightarrow> during J (k x) h2"
  shows "during J (onerr m w k) h"
proof -
  obtain r h2 where r: "m h = (r, h2)" by (cases "m h")
  have p: "prefix h h2" and upto: "\<And>h1. prefix h h1 \<Longrightarrow> prefix h1 h2 \<Longrightarrow> J h1"
    using along_during [OF m J] r by (auto simp: during_def)
  show ?thesis
  proof (cases r)
    case (Inl e)
    then show ?thesis using r p upto by (simp add: during_def)
  next
    case (Inr x)
    then have d: "during J (k x) h2" using k r by simp
    then have p2: "prefix h2 (snd (k x h2))" by (simp add: during_def)
    have "J h1" if "prefix h h1" "prefix h1 (snd (k x h2))" for h1
    proof -
      from that(2) p2 consider "prefix h1 h2" | "prefix h2 h1" by (metis prefix_same_cases)
      then show ?thesis using that d upto by cases (auto simp: during_def)
    qed
    then show ?thesis using Inr r p p2 by (auto simp: during_def intro: prefix_order.trans)
  qed
qed

end
