(* ===== verification/Pg_Database.thy ===== *)
theory Pg_Database
  imports Pg_Roles Sql_Reasoning
begin

text \<open>
  \<open>pkg/postgres/database.go\<close>, \<open>extensions.go\<close>, \<open>manager_role.go\<close> and \<open>preflight.go\<close>:
  provisioning a database with its service user, the three access roles, default privileges
  and extensions.

  Statements are the exact texts that are sent; names are interpolated as the code does it.
  \<open>execAsf\<close> formats the text of \<open>prependSetRole\<close> with \<open>fmt.Sprintf\<close>; the model writes the
  result down, which is what \<open>Sprintf\<close> gives as long as the role and schema names contain no
  \<open>%\<close>.
\<close>

section \<open>Executing statements\<close>

definition execf :: "server \<Rightarrow> db \<Rightarrow> string \<Rightarrow> unit act" where
  "execf srv d query = db_Exec srv d query"

definition prependSetRole :: "string \<Rightarrow> string \<Rightarrow> string" where
  "prependSetRole query role =
     [CHR 0x0A, CHR 0x09, CHR 0x09] @ ''SET ROLE '' @ role @ '';'' @ [CHR 0x0A, CHR 0x09, CHR 0x09] @ query"

definition execAsf :: "server \<Rightarrow> db \<Rightarrow> string \<Rightarrow> string \<Rightarrow> unit act" where
  "execAsf srv d role query =
     onerr (execf srv d (prependSetRole query role))
       (Wrapf ''unable to execute query '%s', with args %v. %w'' [prependSetRole query role]) ok"

record tryExecReq =
  te_objectType :: string
  te_errorCode :: string
  te_query :: string

definition tryExec :: "server \<Rightarrow> db \<Rightarrow> tryExecReq \<Rightarrow> unit act" where
  "tryExec srv d args = tolerate (te_errorCode args) (db_Exec srv d (te_query args))"

section \<open>Preflight and the manager role\<close>

definition superuser_membership_sql :: string where
  "superuser_membership_sql =
     (let nl = [CHR 0x0A, CHR 0x09, CHR 0x09]; t = [CHR 0x09]
      in nl @ ''SELECT'' @ nl @ t @ ''current_user,'' @ nl @ t @ ''EXISTS(''
         @ nl @ t @ t @ ''SELECT 1'' @ nl @ t @ t @ ''FROM pg_roles r''
         @ nl @ t @ t @ ''WHERE r.rolname = $1''
         @ nl @ t @ t @ ''  AND pg_has_role(current_user, r.oid, 'MEMBER')''
         @ nl @ t @ '')'' @ [CHR 0x0A, CHR 0x09])"

text \<open>The two columns of the row: the connecting user and the boolean, which the driver scans
  from its text form.\<close>

definition assertSuperuserRoleMembership :: "server \<Rightarrow> db \<Rightarrow> string \<Rightarrow> unit act" where
  "assertSuperuserRoleMembership srv d superuserRole =
     onerr (\<lambda>h. case db_QueryRow srv d superuser_membership_sql [superuserRole] h of
              (Inl e, h1) \<Rightarrow> (Inl e, h1)
            | (Inr cols, h1) \<Rightarrow> (scan2 cols, h1))
       (Wrapf ''preflight: query connecting user privileges: %w'' [])
       (\<lambda>(currentUser, isMember).
          if isMember = ''true'' then ok ()
          else fail (Errorf ''preflight: connecting user %q is not a member of %s - grant %s to it before running the controller''
                       [currentUser, superuserRole, superuserRole]))"

definition Preflight :: "server \<Rightarrow> db \<Rightarrow> string \<Rightarrow> unit act" where
  "Preflight srv d superuserRole =
     (if superuserRole = []
      then fail (Errorf ''preflight: superuser role name is empty (configure --superuser-role-name)'' [])
      else onerr (db_Ping srv d) (Wrapf ''preflight: ping database: %w'' [])
        (\<lambda>_. onerr (assertSuperuserRoleMembership srv d superuserRole) id ok))"

definition EnsureManagerRole :: "server \<Rightarrow> db \<Rightarrow> string \<Rightarrow> unit act" where
  "EnsureManagerRole srv d role =
     (if role = [] then fail (Errorf ''ensure manager role: role name is empty'' [])
      else tryExec srv d
        \<lparr>te_objectType = ''management role'', te_errorCode = ''duplicate_object'',
         te_query = ''CREATE ROLE '' @ QuoteIdentifier srv role\<rparr>)"

section \<open>Extensions\<close>

record Extension =
  ext_Name :: string

definition NewExtension :: "string \<Rightarrow> Extension" where
  "NewExtension name = \<lparr>ext_Name = name\<rparr>"

definition extensionsIsEmpty :: "Extension list \<Rightarrow> bool" where
  "extensionsIsEmpty extensions = (length extensions = 0)"

definition installed_sql :: "string \<Rightarrow> string" where
  "installed_sql user = prependSetRole ''SELECT extname FROM pg_extension'' user"

definition getInstalledExtensions :: "server \<Rightarrow> db \<Rightarrow> Credentials \<Rightarrow> Extension list act" where
  "getInstalledExtensions srv d credentials =
     onerr (db_Query srv d (installed_sql (c_User credentials)) [])
       (Wrapf ''failed to list extensions from the database: %w'' [])
       (\<lambda>rs h. (map_sum id (map NewExtension)
                  (scan_rows (Wrapf ''failed to read row: %w'' []) (Wrapf ''failed to read rows: %w'' []) scan1 rs), h))"

text \<open>\<open>slices.Contains\<close> of \<open>k8s.io/utils\<close> is membership in the list.\<close>

fun to_install_loop :: "string list \<Rightarrow> Extension list \<Rightarrow> Extension list" where
  "to_install_loop alreadyAvailable [] = []"
| "to_install_loop alreadyAvailable (e # es) =
     (if ext_Name e \<notin> set alreadyAvailable then e # to_install_loop alreadyAvailable es
      else to_install_loop alreadyAvailable es)"

definition extensionsToInstall :: "Extension list \<Rightarrow> Extension list \<Rightarrow> Extension list \<times> bool" where
  "extensionsToInstall extensions alreadyAvailableExtensions =
     (let alreadyAvailable = map ext_Name alreadyAvailableExtensions;
          toInstall = to_install_loop alreadyAvailable extensions
      in (toInstall, \<not> extensionsIsEmpty toInstall))"

definition create_extension_sql :: "string \<Rightarrow> string \<Rightarrow> string" where
  "create_extension_sql extension schema =
     ''CREATE EXTENSION IF NOT EXISTS '' @ extension @ '' WITH SCHEMA '' @ schema"

definition installExtensions ::
    "server \<Rightarrow> db \<Rightarrow> Credentials \<Rightarrow> Credentials \<Rightarrow> Extension list \<Rightarrow> unit act" where
  "installExtensions srv d adminCredentials serviceCredentials extensions =
     for_each
       (\<lambda>e. onerr (db_Exec srv d (create_extension_sql (ext_Name e) (c_Name serviceCredentials)))
              (Wrapf ''failed to install: user: %s, db: %s, extension %s: %w''
                 [c_User adminCredentials, c_Name serviceCredentials, ext_Name e]) ok)
       extensions"

definition ensureExtensions ::
    "server \<Rightarrow> db \<Rightarrow> Credentials \<Rightarrow> Credentials \<Rightarrow> Extension list \<Rightarrow> unit act" where
  "ensureExtensions srv d serviceCredentials adminCredentials extensions =
     (if extensionsIsEmpty extensions then ok ()
      else onerr (getInstalledExtensions srv d serviceCredentials)
          (Wrapf ''failed to get installed extensions: %w'' [])
        (\<lambda>alreadyAvailableExtensions.
          (let (toInstall, needsReconciliation) = extensionsToInstall extensions alreadyAvailableExtensions
           in if \<not> needsReconciliation then ok ()
              else onerr (installExtensions srv d adminCredentials serviceCredentials toInstall)
                     (Wrapf ''failed to install extensions: %w'' []) ok)))"

section \<open>The steps of Database\<close>

definition createServiceRole :: "server \<Rightarrow> db \<Rightarrow> string \<Rightarrow> string \<Rightarrow> unit act" where
  "createServiceRole srv d user password =
     onerr (tryExec srv d
              \<lparr>te_objectType = ''service user'', te_errorCode = ''duplicate_object'',
               te_query = ''CREATE ROLE '' @ user @ '' NOCREATEROLE''\<rparr>) id
       (\<lambda>_. if password \<noteq> []
            then execf srv d (''ALTER ROLE '' @ user @ '' LOGIN PASSWORD '' @ [CHR 0x27] @ password @ [CHR 0x27]
                              @ '' VALID UNTIL '' @ [CHR 0x27] @ ''infinity'' @ [CHR 0x27])
            else execf srv d (''ALTER ROLE '' @ user @ '' NOLOGIN PASSWORD NULL''))"

definition admin_connection :: "string \<Rightarrow> string \<Rightarrow> Credentials \<Rightarrow> ConnectionString" where
  "admin_connection host database admin =
     \<lparr>cs_Host = host, cs_Database = database, cs_User = c_User admin, cs_Password = c_Password admin,
      cs_Params = c_Params admin\<rparr>"

definition createDatabase :: "server \<Rightarrow> string \<Rightarrow> Credentials \<Rightarrow> string \<Rightarrow> unit act" where
  "createDatabase srv host adminCredentials name =
     (let connectionString = admin_connection host ''postgres'' adminCredentials
      in onerr (Connect srv connectionString) (Wrapf ''connect to host %s: %w'' [String connectionString])
           (\<lambda>d. deferring (db_Close srv d)
              (tryExec srv d \<lparr>te_objectType = ''database'', te_errorCode = ''duplicate_database'',
                              te_query = ''CREATE DATABASE '' @ name\<rparr>)))"

definition createSchemaAs :: "server \<Rightarrow> db \<Rightarrow> string \<Rightarrow> string \<Rightarrow> unit act" where
  "createSchemaAs srv d schema actor =
     tryExec srv d \<lparr>te_objectType = ''schema'', te_errorCode = ''duplicate_schema'',
                    te_query = prependSetRole (''CREATE SCHEMA '' @ schema) actor\<rparr>"

text \<open>\<open>createRoles\<close> tries every role and collects the errors.\<close>

fun create_roles_loop :: "server \<Rightarrow> db \<Rightarrow> string list \<Rightarrow> goerr option \<Rightarrow> history \<Rightarrow> goerr option \<times> history" where
  "create_roles_loop srv d [] errs h = (errs, h)"
| "create_roles_loop srv d (role # roles) errs h =
     (case tryExec srv d \<lparr>te_objectType = ''service role'', te_errorCode = ''duplicate_object'',
                          te_query = ''CREATE ROLE '' @ role\<rparr> h of
        (Inl err, h1) \<Rightarrow>
          create_roles_loop srv d roles (multierr_Append errs (Wrapf ''create role %s: %w'' [role] err)) h1
      | (Inr _, h1) \<Rightarrow> create_roles_loop srv d roles errs h1)"

definition createRoles :: "server \<Rightarrow> db \<Rightarrow> string list \<Rightarrow> unit act" where
  "createRoles srv d roles h =
     (case create_roles_loop srv d roles None h of (errs, h1) \<Rightarrow> (of_error errs, h1))"

definition grantAdminOption :: "server \<Rightarrow> db \<Rightarrow> string \<Rightarrow> string \<Rightarrow> unit act" where
  "grantAdminOption srv d serviceRole managerRole =
     tryExec srv d \<lparr>te_objectType = ''service role'', te_errorCode = ''undefined_object'',
                    te_query = ''GRANT '' @ serviceRole @ '' TO '' @ managerRole @ '' WITH ADMIN OPTION''\<rparr>"

definition setDefaultPrivilegesAs ::
    "server \<Rightarrow> db \<Rightarrow> string \<Rightarrow> string \<Rightarrow> string \<Rightarrow> string \<Rightarrow> unit act" where
  "setDefaultPrivilegesAs srv d schema role privileges actor =
     onerr (execAsf srv d actor (''ALTER DEFAULT PRIVILEGES IN SCHEMA '' @ schema @ '' GRANT '' @ privileges @ '' ON TABLES TO '' @ role @ '';''))
       (Wrapf ''alter default privileges of schema: %w, as %s'' [actor])
     (\<lambda>_. onerr (execAsf srv d actor (''ALTER DEFAULT PRIVILEGES IN SCHEMA public GRANT '' @ privileges @ '' ON TABLES TO '' @ role @ '';''))
       (Wrapf ''alter default privileges of public schema: %w, as %s'' [actor])
     (\<lambda>_. onerr (execAsf srv d actor (''GRANT USAGE ON SCHEMA '' @ schema @ '' TO '' @ role))
       (Wrapf ''grant %s privileges on existing schema: %w, as %s'' [privileges, actor])
     (\<lambda>_. onerr (execAsf srv d actor (''GRANT '' @ privileges @ '' ON ALL TABLES IN SCHEMA '' @ schema @ '' TO '' @ role))
       (Wrapf ''grant %s privileges on existing tables: %w, as %s'' [privileges, actor]) ok)))"

definition setReadPrivilegesAs :: "server \<Rightarrow> db \<Rightarrow> string \<Rightarrow> string \<Rightarrow> string \<Rightarrow> unit act" where
  "setReadPrivilegesAs srv d schema role actor = setDefaultPrivilegesAs srv d schema role ''SELECT'' actor"

definition setReadWritePrivilegesAs :: "server \<Rightarrow> db \<Rightarrow> string \<Rightarrow> string \<Rightarrow> string \<Rightarrow> unit act" where
  "setReadWritePrivilegesAs srv d schema role actor =
     setDefaultPrivilegesAs srv d schema role ''SELECT, INSERT, UPDATE, DELETE'' actor"

definition setDefaultPrivileges ::
    "server \<Rightarrow> db \<Rightarrow> string \<Rightarrow> string \<Rightarrow> string \<Rightarrow> string \<Rightarrow> unit act" where
  "setDefaultPrivileges srv d serviceRole readRole readWriteRole readOwningWriteRole =
     onerr (setReadPrivilegesAs srv d serviceRole readRole serviceRole)
       (Wrapf ''set default read privileges for role %s: %w, as %s'' [readRole, serviceRole])
     (\<lambda>_. onerr (setReadWritePrivilegesAs srv d serviceRole readWriteRole serviceRole)
       (Wrapf ''set default readwrite privileges for role %s: %w, as %s'' [readWriteRole, serviceRole])
     (\<lambda>_. onerr (setReadWritePrivilegesAs srv d serviceRole readOwningWriteRole serviceRole)
       (Wrapf ''set default readowningwrite privileges for role %s: %w, as %s'' [readOwningWriteRole, serviceRole]) ok))"

definition revokeAllOnPublic_sql :: "string \<Rightarrow> string" where
  "revokeAllOnPublic_sql name =
     (let nl = [CHR 0x0A, CHR 0x09, CHR 0x09]
      in nl @ ''REVOKE ALL ON DATABASE '' @ name @ '' from PUBLIC;''
         @ nl @ ''REVOKE ALL ON SCHEMA public from PUBLIC;''
         @ nl @ ''REVOKE ALL ON ALL TABLES IN SCHEMA public from PUBLIC;'')"

definition revokeAllOnPublic :: "server \<Rightarrow> db \<Rightarrow> Credentials \<Rightarrow> unit act" where
  "revokeAllOnPublic srv d serviceCredentials =
     onerr (execAsf srv d (c_User serviceCredentials) (revokeAllOnPublic_sql (c_Name serviceCredentials)))
       (Wrapf ''revoke all for role PUBLIC on database '%s': %w, as %s'' [c_Name serviceCredentials, c_User serviceCredentials]) ok"

definition grantConnectAndUsage :: "server \<Rightarrow> db \<Rightarrow> Credentials \<Rightarrow> unit act" where
  "grantConnectAndUsage srv d serviceCredentials =
     onerr (execAsf srv d (c_User serviceCredentials) (''GRANT CONNECT ON DATABASE '' @ c_Name serviceCredentials @ '' TO PUBLIC''))
       (Wrapf ''grant connect to database '%s' to PUBLIC: %w as %s'' [c_Name serviceCredentials, c_User serviceCredentials])
     (\<lambda>_. onerr (execAsf srv d (c_User serviceCredentials) (''GRANT USAGE ON SCHEMA '' @ c_User serviceCredentials @ '' TO PUBLIC''))
       (Wrapf ''grant usage on schema '%s' to PUBLIC: %w as %s'' [c_User serviceCredentials, c_User serviceCredentials]) ok)"

section \<open>Database\<close>

definition grant_current_sql :: "string \<Rightarrow> string" where
  "grant_current_sql user = ''GRANT '' @ user @ '' TO CURRENT_USER''"

definition revoke_current_sql :: "string \<Rightarrow> string" where
  "revoke_current_sql user = ''REVOKE '' @ user @ '' FROM CURRENT_USER''"

text \<open>The part that runs while the connecting user is a member of the service user.\<close>

definition database_as_member ::
    "server \<Rightarrow> db \<Rightarrow> Credentials \<Rightarrow> Credentials \<Rightarrow> string \<Rightarrow> string \<Rightarrow> string \<Rightarrow> Extension list \<Rightarrow> unit act" where
  "database_as_member srv d adminCredentials serviceCredentials readRole readWriteRole readOwningWriteRole extensions =
     (let user = c_User serviceCredentials; name = c_Name serviceCredentials
      in onerr (if \<not> c_Shared serviceCredentials
                then execf srv d (''ALTER DATABASE '' @ name @ '' OWNER TO '' @ user) else ok ())
           (Wrapf ''alter owner of database %s to %s: %w'' [name, user])
         (\<lambda>_. onerr (execf srv d (''GRANT '' @ user @ '' TO '' @ readOwningWriteRole))
           (Wrapf ''grant owner %s to readowningwrite for role %s: %w'' [user, readOwningWriteRole])
         (\<lambda>_. onerr (createSchemaAs srv d user user)
           (Wrapf ''create schema '%s' as service user '%[1]s': %w'' [user])
         (\<lambda>_. onerr (setDefaultPrivileges srv d user readRole readWriteRole readOwningWriteRole)
           (Wrapf ''set default privileges for service user '%s': %w'' [user])
         (\<lambda>_. onerr (revokeAllOnPublic srv d serviceCredentials)
           (Wrapf ''revoke all on public for service user '%s': %w'' [user])
         (\<lambda>_. onerr (grantConnectAndUsage srv d serviceCredentials)
           (Wrapf ''grant connect and usage to public for service user '%s': %w'' [user])
         (\<lambda>_. onerr (ensureExtensions srv d serviceCredentials adminCredentials extensions)
           (Wrapf ''failed to reconcile extensions: '%s': %w'' [user]) ok)))))))"

definition database_on_connection ::
    "server \<Rightarrow> db \<Rightarrow> Credentials \<Rightarrow> Credentials \<Rightarrow> string \<Rightarrow> Extension list \<Rightarrow> unit act" where
  "database_on_connection srv d adminCredentials serviceCredentials managerRole extensions =
     (let user = c_User serviceCredentials; name = c_Name serviceCredentials;
          readRole = user @ ''_'' @ roleSuffixRead;
          readWriteRole = user @ ''_'' @ roleSuffixWrite;
          readOwningWriteRole = user @ ''_'' @ roleSuffixOwningWrite
      in onerr (createServiceRole srv d user (c_Password serviceCredentials)) (Wrapf ''create service user: %w'' [])
         (\<lambda>_. onerr (if c_Shared serviceCredentials then execf srv d (''GRANT '' @ name @ '' TO '' @ user) else ok ())
           (Wrapf ''grant %s to service user %s: %w'' [name, user])
         (\<lambda>_. onerr (grantAdminOption srv d name managerRole)
           (Wrapf ''grant %s to management role %s: %w'' [name, managerRole])
         (\<lambda>_. onerr (createRoles srv d [readRole, readWriteRole, readOwningWriteRole])
           (Wrapf ''create service read, readwrite and readowningwrite roles: %w'' [])
         (\<lambda>_. onerr (execf srv d (grant_current_sql user))
           (Wrapf ''grant new role '%s' to creator role: %w'' [user])
         (\<lambda>_. deferring (execf srv d (revoke_current_sql user))
           (database_as_member srv d adminCredentials serviceCredentials readRole readWriteRole
              readOwningWriteRole extensions)))))))"

definition Database ::
    "server \<Rightarrow> string \<Rightarrow> Credentials \<Rightarrow> Credentials \<Rightarrow> string \<Rightarrow> Extension list \<Rightarrow> unit act" where
  "Database srv host adminCredentials serviceCredentials managerRole extensions =
     (if host = [] then fail (Errorf ''host is required'' [])
      else if managerRole = [] then fail (Errorf ''managerRole required'' [])
      else case Validate serviceCredentials of
        Some err \<Rightarrow> fail (Wrapf ''serviceCredentials not valid: %w'' [] err)
      | None \<Rightarrow>
          onerr (createDatabase srv host adminCredentials (c_Name serviceCredentials))
            (Wrapf ''create service database '%s': %w'' [c_Name serviceCredentials])
          (\<lambda>_. let serviceConnectionString = admin_connection host (c_Name serviceCredentials) adminCredentials
               in onerr (Connect srv serviceConnectionString)
                    (Wrapf ''connect to host %s: %w'' [String serviceConnectionString])
                  (\<lambda>d. deferring (db_Close srv d)
                     (database_on_connection srv d adminCredentials serviceCredentials managerRole extensions))))"

section \<open>The statements of Database, in order\<close>

text \<open>What \<open>Database\<close> is to send: the statements up to the temporary membership in the service
  user, those sent under that membership, and the extensions that were missing.\<close>

definition privilege_statements :: "string \<Rightarrow> string \<Rightarrow> string \<Rightarrow> string list" where
  "privilege_statements schema role privileges =
     map (\<lambda>q. prependSetRole q schema)
       [''ALTER DEFAULT PRIVILEGES IN SCHEMA '' @ schema @ '' GRANT '' @ privileges @ '' ON TABLES TO '' @ role @ '';'',
        ''ALTER DEFAULT PRIVILEGES IN SCHEMA public GRANT '' @ privileges @ '' ON TABLES TO '' @ role @ '';'',
        ''GRANT USAGE ON SCHEMA '' @ schema @ '' TO '' @ role,
        ''GRANT '' @ privileges @ '' ON ALL TABLES IN SCHEMA '' @ schema @ '' TO '' @ role]"

definition login_statement :: "string \<Rightarrow> string \<Rightarrow> string" where
  "login_statement user password =
     (if password \<noteq> []
      then ''ALTER ROLE '' @ user @ '' LOGIN PASSWORD '' @ [CHR 0x27] @ password @ [CHR 0x27]
           @ '' VALID UNTIL '' @ [CHR 0x27] @ ''infinity'' @ [CHR 0x27]
      else ''ALTER ROLE '' @ user @ '' NOLOGIN PASSWORD NULL'')"

definition setup_statements :: "Credentials \<Rightarrow> string \<Rightarrow> string list" where
  "setup_statements sc managerRole =
     (let user = c_User sc; name = c_Name sc
      in [''CREATE DATABASE '' @ name, ''CREATE ROLE '' @ user @ '' NOCREATEROLE'',
          login_statement user (c_Password sc)]
         @ (if c_Shared sc then [''GRANT '' @ name @ '' TO '' @ user] else [])
         @ [''GRANT '' @ name @ '' TO '' @ managerRole @ '' WITH ADMIN OPTION'',
            ''CREATE ROLE '' @ user @ ''_read'', ''CREATE ROLE '' @ user @ ''_readwrite'',
            ''CREATE ROLE '' @ user @ ''_readowningwrite'', grant_current_sql user])"

definition member_statements :: "Credentials \<Rightarrow> string list" where
  "member_statements sc =
     (let user = c_User sc; name = c_Name sc
      in (if c_Shared sc then [] else [''ALTER DATABASE '' @ name @ '' OWNER TO '' @ user])
         @ [''GRANT '' @ user @ '' TO '' @ user @ ''_readowningwrite'',
            prependSetRole (''CREATE SCHEMA '' @ user) user]
         @ privilege_statements user (user @ ''_read'') ''SELECT''
         @ privilege_statements user (user @ ''_readwrite'') ''SELECT, INSERT, UPDATE, DELETE''
         @ privilege_statements user (user @ ''_readowningwrite'') ''SELECT, INSERT, UPDATE, DELETE''
         @ [prependSetRole (revokeAllOnPublic_sql name) user,
            prependSetRole (''GRANT CONNECT ON DATABASE '' @ name @ '' TO PUBLIC'') user,
            prependSetRole (''GRANT USAGE ON SCHEMA '' @ user @ '' TO PUBLIC'') user])"

definition extension_statements :: "Credentials \<Rightarrow> Extension list \<Rightarrow> string list \<Rightarrow> string list" where
  "extension_statements sc extensions installed =
     map (\<lambda>e. create_extension_sql (ext_Name e) (c_Name sc))
       (filter (\<lambda>e. ext_Name e \<notin> set installed) extensions)"

section \<open>Lemmas\<close>

lemma to_install_loop_eq:
  "to_install_loop available es = filter (\<lambda>e. ext_Name e \<notin> set available) es"
  by (induction es) simp_all

text \<open>Extensions are only added, never removed.\<close>

interpretation extensions: diff_sync
  "\<lambda>existing desired. map ext_Name (fst (extensionsToInstall (map NewExtension desired) (map NewExtension existing)))"
  "\<lambda>existing desired. []"
  "\<lambda>_. False"
  by unfold_locales
    (auto simp: extensionsToInstall_def Let_def to_install_loop_eq NewExtension_def filter_map comp_def)

lemma script_execf [script_intros]: "script (execf srv d q) [q]"
  by (simp add: execf_def script_intros)

lemma script_tryExec [script_intros]:
  "script (tryExec srv d \<lparr>te_objectType = t, te_errorCode = c, te_query = q\<rparr>) [q]"
  by (simp add: tryExec_def script_intros)

lemma script_execf_if [script_intros]:
  "script (if b then execf srv d p else execf srv d q) [if b then p else q]"
  by (simp add: script_intros)

lemma script_execAsf [script_intros]: "script (execAsf srv d role q) [prependSetRole q role]"
proof -
  have "script (execAsf srv d role q) ([prependSetRole q role] @ [])"
    unfolding execAsf_def by (intro script_intros)
  then show ?thesis by simp
qed

lemma script_wrap [script_intros]: "script m qs \<Longrightarrow> script (onerr m w ok) qs"
  using script_onerr [of m qs "\<lambda>x. ok x" "[]"] by (simp add: script_ok)

lemma script_createServiceRole [script_intros]:
  "script (createServiceRole srv d user password)
     ([''CREATE ROLE '' @ user @ '' NOCREATEROLE''] @ [login_statement user password])"
  unfolding createServiceRole_def login_statement_def by (intro script_intros)

lemma create_roles_loop_sent:
  "sent (snd (create_roles_loop srv d roles errs h)) = sent h @ map (\<lambda>r. ''CREATE ROLE '' @ r) roles"
proof (induction roles arbitrary: errs h)
  case (Cons role roles)
  let ?req = "\<lparr>te_objectType = ''service role'', te_errorCode = ''duplicate_object'',
               te_query = ''CREATE ROLE '' @ role\<rparr>"
  have "sent (snd (tryExec srv d ?req h)) = sent h @ [''CREATE ROLE '' @ role]"
    by (simp add: tryExec_def db_Exec_def Let_def)
  then show ?case using Cons by (auto split: prod.split sum.split)
qed simp

lemma script_createRoles [script_intros]:
  "script (createRoles srv d roles) (map (\<lambda>r. ''CREATE ROLE '' @ r) roles)"
  unfolding runs_def
proof
  fix h
  show "\<exists>ts. sent (snd (createRoles srv d roles h)) = sent h @ ts
      \<and> follows (map (\<lambda>r. ''CREATE ROLE '' @ r) roles) (fst (createRoles srv d roles h)) ts"
    using create_roles_loop_sent [of srv d roles None h]
    by (simp add: createRoles_def follows_def case_prod_beta)
qed

lemma script_setDefaultPrivilegesAs:
  "script (setDefaultPrivilegesAs srv d schema role privileges schema)
     (privilege_statements schema role privileges)"
proof -
  have "script (setDefaultPrivilegesAs srv d schema role privileges schema)
     ([prependSetRole (''ALTER DEFAULT PRIVILEGES IN SCHEMA '' @ schema @ '' GRANT '' @ privileges @ '' ON TABLES TO '' @ role @ '';'') schema]
      @ [prependSetRole (''ALTER DEFAULT PRIVILEGES IN SCHEMA public GRANT '' @ privileges @ '' ON TABLES TO '' @ role @ '';'') schema]
      @ [prependSetRole (''GRANT USAGE ON SCHEMA '' @ schema @ '' TO '' @ role) schema]
      @ [prependSetRole (''GRANT '' @ privileges @ '' ON ALL TABLES IN SCHEMA '' @ schema @ '' TO '' @ role) schema])"
    unfolding setDefaultPrivilegesAs_def by (intro script_intros)
  then show ?thesis unfolding privilege_statements_def by simp
qed

lemmas setPrivileges_defs = setReadPrivilegesAs_def setReadWritePrivilegesAs_def

lemma script_setDefaultPrivileges:
  "script (setDefaultPrivileges srv d user readRole readWriteRole readOwningWriteRole)
     (privilege_statements user readRole ''SELECT''
      @ privilege_statements user readWriteRole ''SELECT, INSERT, UPDATE, DELETE''
      @ privilege_statements user readOwningWriteRole ''SELECT, INSERT, UPDATE, DELETE'')"
  unfolding setDefaultPrivileges_def setPrivileges_defs
  by (intro script_intros script_setDefaultPrivilegesAs)

lemma ensureExtensions_eq:
  "ensureExtensions srv d sc admin extensions =
     (if extensions = [] then ok ()
      else onerr (getInstalledExtensions srv d sc) (Wrapf ''failed to get installed extensions: %w'' [])
        (\<lambda>available.
           if filter (\<lambda>e. ext_Name e \<notin> set (map ext_Name available)) extensions = [] then ok ()
           else onerr (installExtensions srv d admin sc
                  (filter (\<lambda>e. ext_Name e \<notin> set (map ext_Name available)) extensions))
                  (Wrapf ''failed to install extensions: %w'' []) ok))"
  by (simp add: ensureExtensions_def extensionsToInstall_def extensionsIsEmpty_def to_install_loop_eq Let_def
      cong del: if_weak_cong)

lemma script_installExtensions:
  "script (installExtensions srv d admin sc es) (map (\<lambda>e. create_extension_sql (ext_Name e) (c_Name sc)) es)"
proof -
  have "script (installExtensions srv d admin sc es)
      (concat (map (\<lambda>e. [create_extension_sql (ext_Name e) (c_Name sc)]) es))"
    unfolding installExtensions_def by (intro script_intros)
  then show ?thesis by simp
qed

lemma script_getInstalledExtensions [script_intros]: "script (getInstalledExtensions srv d sc) []"
  unfolding getInstalledExtensions_def
  using script_onerr [OF script_calls(3), where vs = "[]", OF script_ok] by (simp only: append_Nil)

lemma runs_ensureExtensions:
  "runs (ensureExtensions srv d sc admin extensions)
     (\<lambda>r ts. \<exists>installed. follows (extension_statements sc extensions installed) r ts)"
proof (cases "extensions = []")
  case True
  then show ?thesis by (simp add: ensureExtensions_eq runs_def extension_statements_def)
next
  case False
  let ?missing = "\<lambda>available. filter (\<lambda>e. ext_Name e \<notin> set (map ext_Name available)) extensions"
  have k: "script (if ?missing available = [] then ok ()
      else onerr (installExtensions srv d admin sc (?missing available)) w ok)
      (extension_statements sc extensions (map ext_Name available))" for available w
  proof (cases "?missing available = []")
    case True
    then show ?thesis by (simp only: extension_statements_def simp_thms if_True list.map script_ok)
  next
    case False
    then show ?thesis
      unfolding extension_statements_def
      by (simp only: simp_thms if_False script_wrap [OF script_installExtensions])
  qed
  show ?thesis
    unfolding ensureExtensions_eq using False
    by (simp only: if_False)
      (rule runs_weaken [OF runs_onerr [OF script_getInstalledExtensions k]], auto simp: follows_def)
qed

text \<open>The statements under the temporary membership.\<close>

abbreviation member_run ::
    "Credentials \<Rightarrow> Extension list \<Rightarrow> goerr + unit \<Rightarrow> string list \<Rightarrow> bool" where
  "member_run sc extensions \<equiv>
     after (member_statements sc)
       (\<lambda>r ts. \<exists>installed. follows (extension_statements sc extensions installed) r ts)"

lemma runs_wrap: "runs m A \<Longrightarrow> (\<And>e ts. A (Inl e) ts \<Longrightarrow> A (Inl (w e)) ts) \<Longrightarrow> runs (onerr m w ok) A"
  unfolding runs_def onerr_def
  by (auto split: prod.splits sum.splits) (metis fst_conv snd_conv)+

lemma runs_database_as_member:
  "runs (database_as_member srv d admin sc (c_User sc @ ''_read'') (c_User sc @ ''_readwrite'')
      (c_User sc @ ''_readowningwrite'') extensions) (member_run sc extensions)"
proof -
  let ?user = "c_User sc" and ?name = "c_Name sc"
  let ?ts = "(if \<not> c_Shared sc then [''ALTER DATABASE '' @ ?name @ '' OWNER TO '' @ ?user] else [])
      @ [''GRANT '' @ ?user @ '' TO '' @ ?user @ ''_readowningwrite'']
      @ [prependSetRole (''CREATE SCHEMA '' @ ?user) ?user]
      @ (privilege_statements ?user (?user @ ''_read'') ''SELECT''
         @ privilege_statements ?user (?user @ ''_readwrite'') ''SELECT, INSERT, UPDATE, DELETE''
         @ privilege_statements ?user (?user @ ''_readowningwrite'') ''SELECT, INSERT, UPDATE, DELETE'')
      @ [prependSetRole (revokeAllOnPublic_sql ?name) ?user]
      @ ([prependSetRole (''GRANT CONNECT ON DATABASE '' @ ?name @ '' TO PUBLIC'') ?user]
         @ [prependSetRole (''GRANT USAGE ON SCHEMA '' @ ?user @ '' TO PUBLIC'') ?user])"
  have eq: "member_statements sc = ?ts" by (simp add: member_statements_def Let_def)
  show ?thesis
    unfolding eq database_as_member_def Let_def createSchemaAs_def revokeAllOnPublic_def grantConnectAndUsage_def
    by (intro runs_after_append runs_after runs_wrap [OF runs_ensureExtensions] script_intros
        script_setDefaultPrivileges) (auto simp: follows_def)
qed

text \<open>The statements on the service connection: up to the temporary membership, under it, and its
  revocation.\<close>

abbreviation database_run ::
    "Credentials \<Rightarrow> Extension list \<Rightarrow> goerr + unit \<Rightarrow> string list \<Rightarrow> bool" where
  "database_run sc extensions \<equiv>
     (\<lambda>r ts. \<exists>us. ts = us @ [revoke_current_sql (c_User sc)] \<and> member_run sc extensions r us)"

lemma runs_database_on_connection:
  "runs (database_on_connection srv d admin sc managerRole extensions)
     (after (tl (setup_statements sc managerRole)) (database_run sc extensions))"
proof -
  let ?user = "c_User sc" and ?name = "c_Name sc"
  let ?ts = "([''CREATE ROLE '' @ ?user @ '' NOCREATEROLE''] @ [login_statement ?user (c_Password sc)])
      @ (if c_Shared sc then [''GRANT '' @ ?name @ '' TO '' @ ?user] else [])
      @ [''GRANT '' @ ?name @ '' TO '' @ managerRole @ '' WITH ADMIN OPTION'']
      @ map (\<lambda>r. ''CREATE ROLE '' @ r) [?user @ ''_read'', ?user @ ''_readwrite'', ?user @ ''_readowningwrite'']
      @ [grant_current_sql ?user]"
  have eq: "tl (setup_statements sc managerRole) = ?ts"
    unfolding setup_statements_def Let_def by simp
  have roles: "?user @ ''_'' @ roleSuffixRead = ?user @ ''_read''"
    "?user @ ''_'' @ roleSuffixWrite = ?user @ ''_readwrite''"
    "?user @ ''_'' @ roleSuffixOwningWrite = ?user @ ''_readowningwrite''"
    by (simp_all add: roleSuffix_defs)
  show ?thesis
    unfolding eq database_on_connection_def Let_def grantAdminOption_def roles execf_def
    by (intro runs_after_append runs_after runs_deferring_exec [OF runs_database_as_member] script_intros)
qed

lemma script_createDatabase [script_intros]:
  "script (createDatabase srv host admin name) [''CREATE DATABASE '' @ name]"
proof -
  have "script (createDatabase srv host admin name) ([] @ [''CREATE DATABASE '' @ name])"
    unfolding createDatabase_def Let_def by (intro script_intros)
  then show ?thesis by simp
qed

lemma runs_Database:
  "runs (Database srv host admin sc managerRole extensions)
     (after (setup_statements sc managerRole) (database_run sc extensions))"
proof (cases "host = [] \<or> managerRole = [] \<or> Validate sc \<noteq> None")
  case True
  then show ?thesis
    by (auto simp: Database_def runs_def after_def split: option.splits)
next
  case False
  have "setup_statements sc managerRole =
      [''CREATE DATABASE '' @ c_Name sc] @ [] @ tl (setup_statements sc managerRole)"
    by (simp add: setup_statements_def Let_def)
  moreover have "runs (Database srv host admin sc managerRole extensions)
     (after ([''CREATE DATABASE '' @ c_Name sc] @ [] @ tl (setup_statements sc managerRole)) (database_run sc extensions))"
    using False unfolding Database_def Let_def
    by (simp only: simp_thms de_Morgan_disj if_False option.case)
      (intro runs_after_append script_intros runs_deferring_close runs_database_on_connection)
  ultimately show ?thesis by simp
qed

lemma balanced_ensureExtensions [balanced_intros]:
  "balanced (ensureExtensions srv d sc admin extensions)"
  unfolding ensureExtensions_def getInstalledExtensions_def installExtensions_def Let_def case_prod_beta
  by (simp add: balanced_intros)

lemma balanced_execf [balanced_intros]: "balanced (execf srv d q)"
  by (simp add: execf_def balanced_intros)

lemma balanced_execAsf [balanced_intros]: "balanced (execAsf srv d role q)"
  by (simp add: execAsf_def balanced_intros)

lemma balanced_tryExec [balanced_intros]: "balanced (tryExec srv d req)"
  by (simp add: tryExec_def balanced_intros)

lemma create_roles_loop_state:
  "conn_state h = (None, ds) \<Longrightarrow> conn_state (snd (create_roles_loop srv d roles errs h)) = (None, ds)"
proof (induction roles arbitrary: errs h)
  case (Cons role roles)
  let ?req = "\<lparr>te_objectType = ''service role'', te_errorCode = ''duplicate_object'', te_query = ''CREATE ROLE '' @ role\<rparr>"
  obtain r h1 where t: "tryExec srv d ?req h = (r, h1)"
    by (cases "tryExec srv d ?req h")
  then have "conn_state h1 = (None, ds)"
    using balanced_tryExec [of srv d ?req] Cons.prems
    unfolding balanced_def by (blast dest: preservesD)
  with Cons.IH t show ?case by (cases r) (simp_all only: create_roles_loop.simps prod.case sum.case)
qed simp

lemma balanced_createRoles [balanced_intros]: "balanced (createRoles srv d roles)"
  by (simp add: balanced_def preserves_def createRoles_def case_prod_beta create_roles_loop_state)

lemmas database_steps = database_on_connection_def database_as_member_def createServiceRole_def
  grantAdminOption_def createSchemaAs_def setDefaultPrivileges_def setPrivileges_defs setDefaultPrivilegesAs_def
  revokeAllOnPublic_def grantConnectAndUsage_def Let_def

lemma balanced_database_on_connection [balanced_intros]:
  "balanced (database_on_connection srv d admin sc managerRole extensions)"
  unfolding database_steps by (intro balanced_intros)

lemma balanced_Database: "balanced (Database srv host admin sc managerRole extensions)"
  unfolding Database_def createDatabase_def Let_def
  by (intro balanced_intros) (auto split: option.split intro!: balanced_intros)

lemma appends_statements [appends_intros]:
  "appends (execf srv d q)" "appends (execAsf srv d role q)" "appends (tryExec srv d req)"
  by (simp_all add: execf_def execAsf_def tryExec_def appends_intros)

lemma appends_ensureExtensions [appends_intros]:
  "appends (ensureExtensions srv d sc admin extensions)"
  unfolding ensureExtensions_def getInstalledExtensions_def installExtensions_def Let_def case_prod_beta
  by (simp add: appends_intros)

lemma prefix_create_roles_loop: "prefix h (snd (create_roles_loop srv d roles errs h))"
proof (induction roles arbitrary: errs h)
  case (Cons role roles)
  let ?req = "\<lparr>te_objectType = ''service role'', te_errorCode = ''duplicate_object'',
               te_query = ''CREATE ROLE '' @ role\<rparr>"
  obtain r h1 where t: "tryExec srv d ?req h = (r, h1)" by (cases "tryExec srv d ?req h")
  then have "prefix h h1" using appends_statements(3) [of srv d ?req] by (metis appends_def snd_conv)
  with t Cons show ?case by (cases r) (auto intro: prefix_order.trans)
qed simp

lemma appends_createRoles [appends_intros]: "appends (createRoles srv d roles)"
  by (simp add: appends_def createRoles_def case_prod_beta prefix_create_roles_loop)

lemma appends_database_on_connection [appends_intros]:
  "appends (database_on_connection srv d admin sc managerRole extensions)"
  unfolding database_steps by (intro appends_intros)

lemma contacts_createDatabase: "contacts (createDatabase srv host admin name)"
  unfolding createDatabase_def Let_def
  by (intro contacts_onerr contacts_Connect appends_intros)

lemma installExtensions_events:
  assumes "installExtensions srv d admin sc es h = (Inr u, h')"
  shows "h' = h @ map (\<lambda>e. EvExec d (create_extension_sql (ext_Name e) (c_Name sc)) None) es"
  using assms unfolding installExtensions_def by (rule for_each_exec_events)

lemma map_sum_Inr: "map_sum id f x = Inr y \<longleftrightarrow> (\<exists>z. x = Inr z \<and> y = f z)"
  by (cases x) auto

section \<open>Properties\<close>

text \<open>C10. Whatever the server answers, \<open>Database\<close> sends the statements of its script in order:
  either it fails before the connecting user was made a member of the service user, having
  sent an initial part of the set-up statements, or it has sent all of these and its last
  statement is the revocation of that temporary membership. In between are the statements
  sent under the membership, all of them when \<open>Database\<close> reports success, and an
  initial part of them when it fails.\<close>

theorem Database_statements:
  "\<exists>ts. sent (snd (Database srv host admin sc managerRole extensions h)) = sent h @ ts \<and>
     (let failed = isl (fst (Database srv host admin sc managerRole extensions h))
      in (failed \<and> prefix ts (setup_statements sc managerRole)) \<or>
         (\<exists>us. ts = setup_statements sc managerRole @ us @ [revoke_current_sql (c_User sc)] \<and>
            ((failed \<and> prefix us (member_statements sc)) \<or>
             (\<exists>installed vs. us = member_statements sc @ vs \<and>
                prefix vs (extension_statements sc extensions installed) \<and>
                (failed \<or> vs = extension_statements sc extensions installed)))))"
  using runs_Database [of srv host admin sc managerRole extensions]
  unfolding runs_def after_def follows_def Let_def by (elim allE [of _ h]) fast

text \<open>\<open>Database\<close> contacts a server exactly when host, manager role, database name and service
  user are all given; otherwise it fails without having done anything.\<close>

theorem Database_validates:
  "if host = [] \<or> managerRole = [] \<or> c_Name sc = [] \<or> c_User sc = []
   then \<exists>e. Database srv host admin sc managerRole extensions h = (Inl e, h)
   else length h < length (snd (Database srv host admin sc managerRole extensions h))"
proof (cases "host = [] \<or> managerRole = [] \<or> c_Name sc = [] \<or> c_User sc = []")
  case True
  then show ?thesis by (auto simp: Database_def Validate_def)
next
  case False
  then have "Validate sc = None" by (simp add: Validate_def)
  with False have "contacts (Database srv host admin sc managerRole extensions)"
    unfolding Database_def Let_def
    by (simp only: simp_thms de_Morgan_disj if_False option.case)
      (intro contacts_onerr contacts_createDatabase appends_intros appends_Connect)
  with False show ?thesis by (simp add: contacts_def)
qed

text \<open>\<open>Database\<close> leaves no connection open, on any outcome: every connection it has
  established is closed when it returns.\<close>

theorem Database_closes_connections:
  assumes "settled h"
  shows "conns (snd (Database srv host admin sc managerRole extensions h)) = conns h"
  by (rule balancedD(1) [OF balanced_Database assms])

theorem Database_closes_connections_witness:
  "conns (snd (Database (ref_server id (\<lambda>_. [])) ''db'' no_credentials (no_credentials\<lparr>c_Name := ''app'', c_User := ''app''\<rparr>) ''manager'' [] [])) = conns []"
  by (rule Database_closes_connections) (simp add: settled_def conn_state_def)

text \<open>A successful \<open>ensureExtensions\<close> of a non-empty list has asked the server for the installed
  extensions and has then created exactly the requested ones that were missing, in the
  order of the request; afterwards all requested extensions are there and none was removed.\<close>

theorem ensureExtensions_installs:
  assumes "ensureExtensions srv d sc admin extensions h = (Inr (), h')" and "extensions \<noteq> []"
  shows "\<exists>rs installed created.
      srv_Query srv h d (installed_sql (c_User sc)) [] = Inr rs \<and>
      scan_rows (Wrapf ''failed to read row: %w'' []) (Wrapf ''failed to read rows: %w'' []) scan1 rs = Inr installed \<and>
      created = filter (\<lambda>n. n \<notin> set installed) (map ext_Name extensions) \<and>
      h' = h @ EvQuery d (installed_sql (c_User sc)) [] (Inr rs)
             # map (\<lambda>n. EvExec d (create_extension_sql n (c_Name sc)) None) created \<and>
      set installed \<union> set created = set installed \<union> set (map ext_Name extensions)"
proof -
  obtain available h1 where g: "getInstalledExtensions srv d sc h = (Inr available, h1)"
    and k: "(if filter (\<lambda>e. ext_Name e \<notin> set (map ext_Name available)) extensions = [] then ok ()
         else onerr (installExtensions srv d admin sc
                (filter (\<lambda>e. ext_Name e \<notin> set (map ext_Name available)) extensions))
                (Wrapf ''failed to install extensions: %w'' []) ok) h1 = (Inr (), h')"
    using assms unfolding ensureExtensions_eq by (auto elim!: onerr_InrE)
  obtain rs installed where q: "srv_Query srv h d (installed_sql (c_User sc)) [] = Inr rs"
    and s: "scan_rows (Wrapf ''failed to read row: %w'' []) (Wrapf ''failed to read rows: %w'' []) scan1 rs = Inr installed"
    and a: "available = map NewExtension installed"
    and h1: "h1 = h @ [EvQuery d (installed_sql (c_User sc)) [] (Inr rs)]"
    using g unfolding getInstalledExtensions_def
    by (auto simp: db_Query_def Let_def map_sum_Inr elim!: onerr_InrE)
  have names: "map ext_Name available = installed"
    by (simp add: a NewExtension_def comp_def)
  let ?es = "filter (\<lambda>e. ext_Name e \<notin> set installed) extensions"
  have "h' = h1 @ map (\<lambda>e. EvExec d (create_extension_sql (ext_Name e) (c_Name sc)) None) ?es"
    using k names by (auto split: if_splits elim!: onerr_InrE dest!: installExtensions_events)
  then show ?thesis
    using q s by (intro exI [of _ rs] exI [of _ installed] exI) (auto simp: h1 filter_map comp_def)
qed

definition demo_service :: Credentials where
  "demo_service = \<lparr>c_Name = ''user'', c_User = ''user'', c_Password = ''secret'', c_Shared = False, c_Params = []\<rparr>"

definition demo_extensions :: "Extension list" where
  "demo_extensions = [NewExtension ''hstore'', NewExtension ''pgcrypto'']"

theorem ensureExtensions_installs_witness:
  "snd (ensureExtensions (ref_server id (\<lambda>h. singletons [''plpgsql'', ''hstore''])) 0 demo_service demo_service demo_extensions [])
     = [EvQuery 0 (installed_sql ''user'') [] (Inr (good_rows (singletons [''plpgsql'', ''hstore'']))),
        EvExec 0 (create_extension_sql ''pgcrypto'' ''user'') None]"
proof -
  let ?srv = "ref_server id (\<lambda>h. singletons [''plpgsql'', ''hstore''])"
  let ?r = "ensureExtensions ?srv 0 demo_service demo_service demo_extensions []"
  have "fst ?r = Inr ()" by code_simp
  then have r: "?r = (Inr (), snd ?r)" by (simp add: prod_eq_iff)
  have q: "srv_Query ?srv [] 0 q [] = Inr (good_rows (singletons [''plpgsql'', ''hstore'']))" for q
    by (simp add: ref_server_def)
  have u: "c_User demo_service = ''user''" "c_Name demo_service = ''user''" by (simp_all add: demo_service_def)
  have f: "filter (\<lambda>n. n \<notin> set [''plpgsql'', ''hstore'']) (map ext_Name demo_extensions) = [''pgcrypto'']"
    by code_simp
  obtain rs installed created where
    *: "srv_Query ?srv [] 0 (installed_sql ''user'') [] = Inr rs"
    "scan_rows (Wrapf ''failed to read row: %w'' []) (Wrapf ''failed to read rows: %w'' []) scan1 rs = Inr installed"
    "created = filter (\<lambda>n. n \<notin> set installed) (map ext_Name demo_extensions)"
    "snd ?r = [] @ EvQuery 0 (installed_sql ''user'') [] (Inr rs)
        # map (\<lambda>n. EvExec 0 (create_extension_sql n ''user'') None) created"
    using ensureExtensions_installs [OF r] unfolding u by (auto simp: demo_extensions_def)
  have rs: "rs = good_rows (singletons [''plpgsql'', ''hstore''])" using *(1) unfolding q by simp
  have "installed = [''plpgsql'', ''hstore'']" using *(2) unfolding rs scan_good_rows1 by simp
  with *(3) f have "created = [''pgcrypto'']" by simp
  with *(4) rs show ?thesis by simp
qed

end
