(* ===== verification/Custom_Role.thy ===== *)
theory Custom_Role
  imports Pg_Database
begin

text \<open>
  \<open>pkg/postgres/customrole.go\<close> and \<open>customrole_roles.go\<close>: listing the databases of a server,
  running a statement as the owner of an object inside a transaction, and creating, granting
  and dropping a custom role.
\<close>

section \<open>Databases\<close>

definition ReservedSystemDatabases :: "string list" where
  "ReservedSystemDatabases = [''rdsadmin'', ''template0'', ''template1'']"

definition user_databases_sql :: string where
  "user_databases_sql = raw_lines
     [''SELECT datname FROM pg_database'',
      ''WHERE datistemplate = false AND datname NOT IN ('postgres', 'rdsadmin')'',
      ''ORDER BY datname'']"

definition UserDatabases :: "server \<Rightarrow> db \<Rightarrow> string list act" where
  "UserDatabases srv d =
     onerr (db_Query srv d user_databases_sql []) (Wrapf ''query databases: %w'' [])
       (\<lambda>rs h. (scan_rows (Wrapf ''scan database name: %w'' []) id scan1 rs, h))"

section \<open>Statements in the name of an owner\<close>

definition set_role :: "server \<Rightarrow> string \<Rightarrow> string" where
  "set_role srv owner = ''SET LOCAL ROLE '' @ QuoteIdentifier srv owner"

text \<open>The errors of \<open>Rollback\<close> are dropped.\<close>

definition execWithRole :: "server \<Rightarrow> db \<Rightarrow> string \<Rightarrow> (tx \<Rightarrow> unit act) \<Rightarrow> unit act" where
  "execWithRole srv d owner fn =
     onerr (db_Begin srv d) (Wrapf ''begin transaction: %w'' [])
       (\<lambda>t h. case tx_Exec srv t (set_role srv owner) h of
          (Inl err, h1) \<Rightarrow> (Inl (Wrapf ''set role %s: %w'' [owner] err), snd (tx_Rollback srv t h1))
        | (Inr _, h1) \<Rightarrow>
           (case fn t h1 of
              (Inl err, h2) \<Rightarrow> (Inl err, snd (tx_Rollback srv t h2))
            | (Inr _, h2) \<Rightarrow> tx_Commit srv t h2))"

text \<open>Every caller runs one statement.\<close>

definition exec_as :: "server \<Rightarrow> db \<Rightarrow> string \<Rightarrow> string \<Rightarrow> unit act" where
  "exec_as srv d owner q = execWithRole srv d owner (\<lambda>t. tx_Exec srv t q)"

section \<open>The role and its memberships\<close>

definition create_role_sql :: "server \<Rightarrow> string \<Rightarrow> string" where
  "create_role_sql srv roleName = ''CREATE ROLE '' @ QuoteIdentifier srv roleName @ '' NOLOGIN''"

definition granted_roles_sql :: string where
  "granted_roles_sql = raw_lines
     [''SELECT r.rolname'',
      ''FROM pg_auth_members m'',
      ''JOIN pg_roles r ON r.oid = m.roleid'',
      ''JOIN pg_roles u ON u.oid = m.member'',
      ''WHERE u.rolname = $1'']"

definition currentGrantedRoles :: "server \<Rightarrow> db \<Rightarrow> string \<Rightarrow> string list act" where
  "currentGrantedRoles srv d roleName =
     onerr (db_Query srv d granted_roles_sql [roleName]) (Wrapf ''query granted roles: %w'' [])
       (\<lambda>rs h. (scan_rows (Wrapf ''scan role name: %w'' []) id scan1 rs, h))"

definition grant_member_sql :: "server \<Rightarrow> string list \<Rightarrow> string \<Rightarrow> string" where
  "grant_member_sql srv roles roleName =
     ''GRANT '' @ Join (map (QuoteIdentifier srv) roles) '', '' @ '' TO '' @ QuoteIdentifier srv roleName"

definition revoke_member_sql :: "server \<Rightarrow> string \<Rightarrow> string \<Rightarrow> string" where
  "revoke_member_sql srv r roleName =
     ''REVOKE '' @ QuoteIdentifier srv r @ '' FROM '' @ QuoteIdentifier srv roleName"

text \<open>The loop that revokes what is no longer desired, and the list of what is to be granted.\<close>

definition revoke_members :: "server \<Rightarrow> db \<Rightarrow> string \<Rightarrow> string list \<Rightarrow> string list \<Rightarrow> unit act" where
  "revoke_members srv d roleName desired current =
     for_each
       (\<lambda>r. if r \<notin> set desired
            then onerr (db_Exec srv d (revoke_member_sql srv r roleName))
                   (Wrapf ''revoke role %s from %s: %w'' [r, roleName]) ok
            else ok ())
       current"

definition members_to_grant :: "string list \<Rightarrow> string list \<Rightarrow> string list" where
  "members_to_grant current desired = filter (\<lambda>r. r \<notin> set current) desired"

definition EnsureCustomRole :: "server \<Rightarrow> db \<Rightarrow> string \<Rightarrow> string list \<Rightarrow> unit act" where
  "EnsureCustomRole srv d roleName grantRoles =
     onerr (tolerate ''duplicate_object'' (db_Exec srv d (create_role_sql srv roleName)))
       (Wrapf ''create role %s: %w'' [roleName])
     (\<lambda>_. onerr (currentGrantedRoles srv d roleName) (Wrapf ''query granted roles for %s: %w'' [roleName])
     (\<lambda>current. onerr (revoke_members srv d roleName grantRoles current) id
     (\<lambda>_. let toGrant = members_to_grant current grantRoles
          in if toGrant = [] then ok ()
             else onerr (db_Exec srv d (grant_member_sql srv toGrant roleName))
                    (Wrapf ''grant roles %s to %s: %w'' [Join toGrant '', '', roleName]) ok)))"

definition DropCustomRole :: "server \<Rightarrow> db \<Rightarrow> string \<Rightarrow> unit act" where
  "DropCustomRole srv d roleName =
     onerr (db_Exec srv d (''DROP ROLE IF EXISTS '' @ QuoteIdentifier srv roleName))
       (Wrapf ''drop role %s: %w'' [roleName]) ok"

section \<open>Lemmas\<close>

interpretation members: diff_sync members_to_grant
  "\<lambda>current desired. filter (\<lambda>r. r \<notin> set desired) current" "\<lambda>_. True"
  by unfold_locales (auto simp: members_to_grant_def)

text \<open>Every way a statement run with \<open>exec_as\<close> can end, with the calls that were made.\<close>

lemma exec_as_cases:
  obtains (begin_fails) e where
      "exec_as srv d owner q h = (Inl (Wrapf ''begin transaction: %w'' [] e), h @ [EvBegin d (Inl e)])"
  | (set_role_fails) t e r where
      "exec_as srv d owner q h = (Inl (Wrapf ''set role %s: %w'' [owner] e),
         h @ [EvBegin d (Inr t), EvTxExec t (set_role srv owner) (Some e), EvRollback t r])"
  | (statement_fails) t e r where
      "exec_as srv d owner q h = (Inl e,
         h @ [EvBegin d (Inr t), EvTxExec t (set_role srv owner) None,
              EvTxExec t q (Some e), EvRollback t r])"
  | (commits) t r where
      "exec_as srv d owner q h = (of_error r,
         h @ [EvBegin d (Inr t), EvTxExec t (set_role srv owner) None,
              EvTxExec t q None, EvCommit t r])"
proof (cases "srv_Begin srv h d")
  case (Inl e)
  then show thesis
    by (intro begin_fails [of e]) (simp add: exec_as_def execWithRole_def onerr_def db_Begin_def Let_def)
next
  case (Inr t)
  let ?set = "set_role srv owner"
  let ?h1 = "h @ [EvBegin d (Inr t)]"
  let ?h2 = "?h1 @ [EvTxExec t ?set None]"
  show thesis
  proof (cases "srv_TxExec srv ?h1 t ?set")
    case (Some e)
    then show thesis using Inr
      by (intro set_role_fails [of e t "srv_Rollback srv (?h1 @ [EvTxExec t ?set (Some e)]) t"])
        (simp add: exec_as_def execWithRole_def onerr_def sql_calls Let_def)
  next
    case None
    show thesis
    proof (cases "srv_TxExec srv ?h2 t q")
      case (Some e)
      then show thesis using Inr None
        by (intro statement_fails [of e t "srv_Rollback srv (?h2 @ [EvTxExec t q (Some e)]) t"])
          (simp add: exec_as_def execWithRole_def onerr_def sql_calls Let_def)
    next
      case N2: None
      then show thesis using Inr None
        by (intro commits [of "srv_Commit srv (?h2 @ [EvTxExec t q None]) t" t])
          (simp add: exec_as_def execWithRole_def onerr_def sql_calls Let_def)
    qed
  qed
qed

text \<open>The calls of a statement that was run in the name of an owner and committed.\<close>

definition tx_events :: "server \<Rightarrow> db \<Rightarrow> tx \<Rightarrow> string \<Rightarrow> string \<Rightarrow> history" where
  "tx_events srv d t owner q =
     [EvBegin d (Inr t), EvTxExec t (set_role srv owner) None, EvTxExec t q None, EvCommit t None]"

lemma exec_as_Inr: "exec_as srv d owner q h = (Inr u, h') \<Longrightarrow> \<exists>t. h' = h @ tx_events srv d t owner q"
  by (cases rule: exec_as_cases [of srv d owner q h]) (auto simp: tx_events_def of_error_def split: option.splits)

lemma exec_as_Inl:
  assumes "isl (fst (exec_as srv d owner q h))"
  shows "\<exists>new. snd (exec_as srv d owner q h) = h @ new \<and> (\<forall>t. EvCommit t None \<notin> set new)"
  using assms by (cases rule: exec_as_cases [of srv d owner q h]) (auto simp: of_error_def split: option.splits)

text \<open>What a function run in the name of an owner may do to the history, with the result that is
  reported. The body sees the role already set; an error of it is reported as it is, after a
  rollback, and only a body without error is committed, the answer to which is the result.\<close>

inductive role_transaction ::
    "server \<Rightarrow> db \<Rightarrow> string \<Rightarrow> (tx \<Rightarrow> unit act) \<Rightarrow> history \<Rightarrow> goerr + unit \<Rightarrow> history \<Rightarrow> bool"
  for srv d owner body h where
  not_begun: "role_transaction srv d owner body h (Inl (Wrapf ''begin transaction: %w'' [] e)) (h @ [EvBegin d (Inl e)])"
| role_refused: "role_transaction srv d owner body h (Inl (Wrapf ''set role %s: %w'' [owner] e))
    (h @ [EvBegin d (Inr t), EvTxExec t (set_role srv owner) (Some e), EvRollback t a])"
| rolled_back: "body t (h @ [EvBegin d (Inr t), EvTxExec t (set_role srv owner) None]) = (Inl e, h1) \<Longrightarrow>
    role_transaction srv d owner body h (Inl e) (h1 @ [EvRollback t a])"
| committed: "body t (h @ [EvBegin d (Inr t), EvTxExec t (set_role srv owner) None]) = (Inr u, h1) \<Longrightarrow>
    role_transaction srv d owner body h (Inr ()) (h1 @ [EvCommit t None])"
| commit_refused: "body t (h @ [EvBegin d (Inr t), EvTxExec t (set_role srv owner) None]) = (Inr u, h1) \<Longrightarrow>
    role_transaction srv d owner body h (Inl e) (h1 @ [EvCommit t (Some e)])"

lemma execWithRole_role_transaction:
  "role_transaction srv d owner fn h (fst (execWithRole srv d owner fn h)) (snd (execWithRole srv d owner fn h))"
proof (cases "srv_Begin srv h d")
  case (Inl e)
  then show ?thesis
    using not_begun [of srv d owner fn h e] by (simp add: execWithRole_def onerr_def db_Begin_def Let_def)
next
  case (Inr t)
  let ?set = "set_role srv owner"
  let ?h1 = "h @ [EvBegin d (Inr t)]"
  show ?thesis
  proof (cases "srv_TxExec srv ?h1 t ?set")
    case (Some e)
    then show ?thesis
      using Inr role_refused [of srv d owner fn h e t] by (simp add: execWithRole_def onerr_def sql_calls Let_def)
  next
    case None
    obtain r h2 where body: "fn t (?h1 @ [EvTxExec t ?set None]) = (r, h2)" by (cases "fn t (?h1 @ [EvTxExec t ?set None])")
    show ?thesis
    proof (cases r)
      case (Inl e)
      with Inr None body rolled_back [of fn t h d srv owner e h2] show ?thesis
        by (simp add: execWithRole_def onerr_def sql_calls Let_def)
    next
      case r: (Inr u)
      with Inr None body committed [of fn t h d srv owner u h2] commit_refused [of fn t h d srv owner u h2] show ?thesis
        by (cases "srv_Commit srv h2 t") (simp_all add: execWithRole_def onerr_def sql_calls Let_def)
    qed
  qed
qed

text \<open>The text that revokes several roles at once, for stating the law of \<open>REVOKE\<close>.\<close>

definition revoke_members_sql :: "server \<Rightarrow> string list \<Rightarrow> string \<Rightarrow> string" where
  "revoke_members_sql srv roles roleName =
     ''REVOKE '' @ Join (map (QuoteIdentifier srv) roles) '', '' @ '' FROM '' @ QuoteIdentifier srv roleName"

lemma revoke_member_singleton: "revoke_members_sql srv [r] roleName = revoke_member_sql srv r roleName"
  by (simp add: revoke_members_sql_def revoke_member_sql_def)

lemma for_each_filter:
  "for_each (\<lambda>x. if P x then f x else ok ()) xs = for_each f (filter P xs)"
  by (induction xs) (simp_all add: onerr_ok)

lemma revoke_members_events:
  assumes "revoke_members srv d roleName desired current h = (Inr u, h')"
  shows "h' = h @ map (\<lambda>r. EvExec d (revoke_member_sql srv r roleName) None) (filter (\<lambda>r. r \<notin> set desired) current)"
  using assms unfolding revoke_members_def for_each_filter by (rule for_each_exec_events)

lemma membership_revoke_each:
  assumes laws: "membership_laws N d grant (\<lambda>rs. revoke_members_sql srv rs roleName) mem" and "set rs \<subseteq> N"
  shows "mem (h @ map (\<lambda>r. EvExec d (revoke_member_sql srv r roleName) None) rs) = mem h - set rs"
  using assms(2)
proof (induction rs rule: rev_induct)
  case (snoc r rs)
  have "mem (h' @ [EvExec d (revoke_member_sql srv r roleName) None]) = mem h' - {r}" for h'
    using membership_revoke [OF laws, of "[r]" h'] snoc.prems by (simp add: revoke_member_singleton)
  with snoc show ?case by (auto simp flip: append_assoc)
qed simp

lemma EnsureCustomRole_events:
  assumes "EnsureCustomRole srv d roleName desired h = (Inr u, h')"
  obtains r0 rs current h1 where
    "h1 = h @ [EvExec d (create_role_sql srv roleName) r0]"
    "srv_Query srv h1 d granted_roles_sql [roleName] = Inr rs"
    "scan_rows (Wrapf ''scan role name: %w'' []) id scan1 rs = Inr current"
    "h' = ((h1 @ [EvQuery d granted_roles_sql [roleName] (Inr rs)])
       @ map (\<lambda>r. EvExec d (revoke_member_sql srv r roleName) None) (filter (\<lambda>r. r \<notin> set desired) current))
       @ (if members_to_grant current desired \<noteq> []
          then [EvExec d (grant_member_sql srv (members_to_grant current desired) roleName) None] else [])"
  using assms unfolding EnsureCustomRole_def currentGrantedRoles_def
  by (elim onerr_InrE tolerate_InrE)
    (auto simp: Let_def db_Query_def elim!: onerr_InrE
      dest!: db_Exec_InrD revoke_members_events split: if_splits)

section \<open>Properties\<close>

text \<open>C19. \<open>execWithRole\<close> is all or nothing, whatever its function does and whatever the server answers:
  the function runs only in a begun transaction whose first statement has set the owner's role;
  if it returns an error the transaction is rolled back and that error is returned; only if it
  returns none is the transaction committed, and the answer to the commit is the result. So a
  statement that is run this way reports success exactly when role, statement and commit were all
  accepted, and after a failure nothing of it has been committed.\<close>

theorem execWithRole_transaction:
  "role_transaction srv d owner fn h (fst (execWithRole srv d owner fn h)) (snd (execWithRole srv d owner fn h))
   \<and> (fst (exec_as srv d owner q h) = Inr () \<longleftrightarrow> (\<exists>t. snd (exec_as srv d owner q h) = h @ tx_events srv d t owner q))
   \<and> (isl (fst (exec_as srv d owner q h)) \<longrightarrow>
        (\<exists>new. snd (exec_as srv d owner q h) = h @ new \<and> (\<forall>t. EvCommit t None \<notin> set new)))"
proof (intro conjI execWithRole_role_transaction)
  let ?run = "exec_as srv d owner q h"
  have commit: "\<forall>t. EvCommit t None \<notin> set new" if "snd ?run = h @ new" "isl (fst ?run)" for new
    using exec_as_Inl [OF that(2)] that(1) by simp
  show "isl (fst ?run) \<longrightarrow> (\<exists>new. snd ?run = h @ new \<and> (\<forall>t. EvCommit t None \<notin> set new))"
    using exec_as_Inl by blast
  show "fst ?run = Inr () \<longleftrightarrow> (\<exists>t. snd ?run = h @ tx_events srv d t owner q)"
  proof
    assume "fst ?run = Inr ()"
    then show "\<exists>t. snd ?run = h @ tx_events srv d t owner q" using exec_as_Inr by (metis prod.collapse)
  next
    assume "\<exists>t. snd ?run = h @ tx_events srv d t owner q"
    then obtain t where "snd ?run = h @ tx_events srv d t owner q" ..
    with commit have "\<not> isl (fst ?run)" by (force simp: tx_events_def)
    then show "fst ?run = Inr ()" by (cases "fst ?run") simp_all
  qed
qed

theorem execWithRole_transaction_witness:
  "\<exists>t. snd (exec_as (ref_server id (\<lambda>_. [])) 1 ''svc'' ''SELECT 1'' []) = tx_events (ref_server id (\<lambda>_. [])) 1 t ''svc'' ''SELECT 1''"
proof -
  have "fst (exec_as (ref_server id (\<lambda>_. [])) 1 ''svc'' ''SELECT 1'' []) = Inr ()" by code_simp
  then show ?thesis
    using execWithRole_transaction [of "ref_server id (\<lambda>_. [])" 1 "''svc''" "\<lambda>_. ok ()" "[]" "''SELECT 1''"] by simp
qed

text \<open>C9. A successful \<open>EnsureCustomRole\<close> leaves the role with exactly the memberships of
  \<open>grantRoles\<close>: every other membership has been revoked and every missing one granted. The
  server is any server that follows the laws of granting and revoking.\<close>

theorem EnsureCustomRole_membership:
  assumes "EnsureCustomRole srv d roleName grantRoles h = (Inr (), h')"
    and laws: "membership_laws N d (\<lambda>rs. grant_member_sql srv rs roleName) (\<lambda>rs. revoke_members_sql srv rs roleName) mem"
    and reads: "reads_members srv d granted_roles_sql [roleName] mem"
    and creates: "keeps_members d (create_role_sql srv roleName) mem"
    and names: "mem h \<subseteq> N" "set grantRoles \<subseteq> N"
  shows "mem h' = set grantRoles"
proof -
  obtain r0 rs current h1 where
    h1: "h1 = h @ [EvExec d (create_role_sql srv roleName) r0]"
    and q: "srv_Query srv h1 d granted_roles_sql [roleName] = Inr rs"
    and sc: "scan_rows (Wrapf ''scan role name: %w'' []) id scan1 rs = Inr current"
    and h': "h' = ((h1 @ [EvQuery d granted_roles_sql [roleName] (Inr rs)])
       @ map (\<lambda>r. EvExec d (revoke_member_sql srv r roleName) None) (filter (\<lambda>r. r \<notin> set grantRoles) current))
       @ (if members_to_grant current grantRoles \<noteq> []
          then [EvExec d (grant_member_sql srv (members_to_grant current grantRoles) roleName) None] else [])"
    using assms(1) by (rule EnsureCustomRole_events)
  have mem1: "mem h1 = mem h" using creates h1 by (simp add: keeps_members_def)
  have cur: "set current = mem h" using reads q sc mem1 unfolding reads_members_def by metis
  have mem2: "mem (h1 @ [EvQuery d granted_roles_sql [roleName] (Inr rs)]) = mem h"
    using reads mem1 unfolding reads_members_def by blast
  have "set (filter (\<lambda>r. r \<notin> set grantRoles) current) \<subseteq> N" "set (members_to_grant current grantRoles) \<subseteq> N"
    using names cur by (auto simp: members.set_to_add)
  then have "mem h' = mem h - set (filter (\<lambda>r. r \<notin> set grantRoles) current) \<union> set (members_to_grant current grantRoles)"
    unfolding h' by (simp only: membership_grant [OF laws] membership_revoke_each [OF laws] mem2)
  then show ?thesis
    using members.remove_then_add [of current grantRoles] cur by simp
qed

text \<open>The server of the witness lists the members of \<open>auditor\<close>, which starts with \<open>old\<close>; it quotes
  identifiers with double quotes.\<close>

definition quoted :: "string \<Rightarrow> string" where
  "quoted s = [CHR 0x22] @ s @ [CHR 0x22]"

definition unquote_list :: "string \<Rightarrow> string list" where
  "unquote_list m = map (filter (\<lambda>c. c \<noteq> CHR 0x22 \<and> c \<noteq> CHR 0x20)) (Split m (CHR '',''))"

definition auditor_members :: "history \<Rightarrow> string list" where
  "auditor_members = ref_members unquote_list (quoted ''auditor'') [''old'']"

abbreviation plain_name :: "string \<Rightarrow> bool" where
  "plain_name r \<equiv> CHR 0x22 \<notin> set r \<and> CHR 0x20 \<notin> set r \<and> CHR '','' \<notin> set r"

lemma unquote_list_space: "unquote_list (CHR 0x20 # s) = unquote_list s"
  by (cases "Split s (CHR '','')") (simp_all add: unquote_list_def)

lemma unquote_list_Join:
  "rs \<noteq> [] \<Longrightarrow> \<forall>r\<in>set rs. plain_name r \<Longrightarrow> unquote_list (Join (map quoted rs) '', '') = rs"
proof (induction rs rule: list_nonempty_induct)
  case (single r)
  then have "Split (quoted r) (CHR '','') = [quoted r]" by (intro Split_no_sep) (simp add: quoted_def)
  moreover have "filter (\<lambda>c. c \<noteq> CHR 0x22 \<and> c \<noteq> CHR 0x20) r = r"
    using single by (intro filter_True) auto
  ultimately show ?case by (simp add: unquote_list_def quoted_def)
next
  case (cons r rs)
  then have "Split (quoted r @ CHR '','' # t) (CHR '','') = quoted r # Split t (CHR '','')" for t
    by (intro Split_append_sep) (simp add: quoted_def)
  then have step: "unquote_list (quoted r @ CHR '','' # t) = filter (\<lambda>c. c \<noteq> CHR 0x22 \<and> c \<noteq> CHR 0x20) (quoted r) # unquote_list t" for t
    by (simp add: unquote_list_def)
  have "filter (\<lambda>c. c \<noteq> CHR 0x22 \<and> c \<noteq> CHR 0x20) r = r"
    using cons by (intro filter_True) auto
  moreover obtain x xs where "rs = x # xs" using cons(1) by (cases rs) auto
  ultimately show ?case
    using cons step by (simp add: unquote_list_space quoted_def)
qed

theorem EnsureCustomRole_membership_witness:
  "let srv = ref_server quoted (\<lambda>h. singletons (auditor_members h));
       (r, h') = EnsureCustomRole srv 0 ''auditor'' [''pg_monitor'', ''rds_iam''] []
   in r = Inr () \<and> set (auditor_members h') = {''pg_monitor'', ''rds_iam''}"
proof -
  let ?srv = "ref_server quoted (\<lambda>h. singletons (auditor_members h))"
  let ?N = "{r. plain_name r}"
  have "fst (EnsureCustomRole ?srv 0 ''auditor'' [''pg_monitor'', ''rds_iam''] []) = Inr ()" by code_simp
  then obtain h' where run: "EnsureCustomRole ?srv 0 ''auditor'' [''pg_monitor'', ''rds_iam''] [] = (Inr (), h')"
    by (metis prod.collapse)
  have laws: "membership_laws ?N 0 (\<lambda>rs. grant_member_sql ?srv rs ''auditor'') (\<lambda>rs. revoke_members_sql ?srv rs ''auditor'')
      (\<lambda>h. set (auditor_members h))"
    unfolding auditor_members_def
    by (rule ref_membership_laws [where listing = "\<lambda>rs. Join (map quoted rs) '', ''"])
      (auto simp: grant_member_sql_def revoke_members_sql_def intro!: unquote_list_Join)
  have reads: "reads_members ?srv 0 granted_roles_sql [''auditor''] (\<lambda>h. set (auditor_members h))"
    unfolding auditor_members_def by (rule ref_reads_members)
  have creates: "keeps_members 0 (create_role_sql ?srv ''auditor'') (\<lambda>h. set (auditor_members h))"
    unfolding auditor_members_def by (rule ref_keeps_members) (simp_all add: create_role_sql_def)
  have "set (auditor_members []) \<subseteq> ?N" "set [''pg_monitor'', ''rds_iam''] \<subseteq> ?N"
    by (auto simp: auditor_members_def ref_members_def)
  then show ?thesis
    using EnsureCustomRole_membership [OF run laws reads creates] run by simp
qed

end
