(* ===== verification/Sql_Text.thy ===== *)
theory Sql_Text
  imports Go_Prelude
begin

text \<open>
  The lexical structure of SQL as PostgreSQL documents it (chapter ``Lexical Structure''), as far as it
  decides where a parenthesised list ends: quoted identifiers and string constants, dollar-quoted
  constants, line comments and nested block comments hide their contents, and a semicolon outside
  of them ends the statement. A doubled quote ends a quoted text and begins another one at once,
  which comes to the same. Escape constants (\<open>E'...'\<close>) are left out: every text the program
  interpolates unquoted is refused if it has a single quote.
\<close>

definition ident_char :: "char \<Rightarrow> bool" where
  "ident_char c \<longleftrightarrow>
     (let n = (of_char c :: nat)
      in (48 \<le> n \<and> n \<le> 57) \<or> (65 \<le> n \<and> n \<le> 90) \<or> (97 \<le> n \<and> n \<le> 122) \<or> n = 95 \<or> 128 \<le> n)"

text \<open>The tag of a dollar quote whose first dollar sign is followed by \<open>s\<close>; it does not start with
  a digit.\<close>

definition dollar_tag :: "string \<Rightarrow> string option" where
  "dollar_tag s =
     (let tag = takeWhile ident_char s
      in if prefix (tag @ ''$'') s \<and> (tag = [] \<or> hd tag \<notin> set ''0123456789'') then Some tag else None)"

datatype lex_mode =
    Code | Quoted char | Dollar string | Line_Comment | Block_Comment nat | Skip nat lex_mode

text \<open>The mode after the character \<open>c\<close>, before the text \<open>s\<close>; \<open>inside\<close> says that \<open>c\<close> continues an
  identifier, in which a dollar sign is an ordinary character.\<close>

fun lex_step :: "lex_mode \<Rightarrow> bool \<Rightarrow> char \<Rightarrow> string \<Rightarrow> lex_mode" where
  "lex_step Code inside c s =
     (if c = CHR 0x22 \<or> c = CHR 0x27 then Quoted c
      else if c = CHR ''-'' \<and> prefix ''-'' s then Line_Comment
      else if c = CHR ''/'' \<and> prefix ''*'' s then Skip 1 (Block_Comment 1)
      else if c = CHR ''$'' \<and> \<not> inside
        then (case dollar_tag s of None \<Rightarrow> Code | Some tag \<Rightarrow> Skip (length tag + 1) (Dollar tag))
      else Code)"
| "lex_step (Quoted q) inside c s = (if c = q then Code else Quoted q)"
| "lex_step (Dollar tag) inside c s =
     (if prefix (''$'' @ tag @ ''$'') (c # s) then Skip (length tag + 1) Code else Dollar tag)"
| "lex_step Line_Comment inside c s = (if c = CHR 0x0A \<or> c = CHR 0x0D then Code else Line_Comment)"
| "lex_step (Block_Comment n) inside c s =
     (if c = CHR ''*'' \<and> prefix ''/'' s then Skip 1 (if n \<le> 1 then Code else Block_Comment (n - 1))
      else if c = CHR ''/'' \<and> prefix ''*'' s then Skip 1 (Block_Comment (n + 1))
      else Block_Comment n)"
| "lex_step (Skip n m) inside c s = (if n \<le> 1 then m else Skip (n - 1) m)"

text \<open>The position of the parenthesis that closes the list whose opening parenthesis is before the
  text, with \<open>depth\<close> further ones open; none if the text or the statement ends before.\<close>

fun list_end :: "lex_mode \<Rightarrow> bool \<Rightarrow> nat \<Rightarrow> string \<Rightarrow> nat option" where
  "list_end m inside depth [] = None"
| "list_end m inside depth (c # s) =
     (if m = Code \<and> c = CHR '')'' \<and> depth = 0 then Some 0
      else if m = Code \<and> c = CHR '';'' then None
      else map_option Suc
        (list_end (lex_step m inside c s) (m = Code \<and> (ident_char c \<or> inside \<and> c = CHR ''$''))
           (if m = Code \<and> c = CHR ''('' then depth + 1 else if m = Code \<and> c = CHR '')'' then depth - 1 else depth) s))"

abbreviation closes_at :: "string \<Rightarrow> nat \<Rightarrow> bool" where
  "closes_at s n \<equiv> list_end Code False 0 s = Some n"

text \<open>Examples: parentheses in quotes and comments do not count.\<close>

lemma list_end_examples:
  "closes_at ''a int, b numeric(4)) RETURNS'' 19"
  "closes_at ([CHR 0x22, CHR ''('', CHR 0x22] @ '' int) RETURNS'') 7"
  "closes_at ''$x$ ) $x$, /* ) /* */ ) */ a$b$) c'' 31"
  "list_end Code False 0 ''a; b)'' = None"
  by code_simp+

end
