(* ===== verification/Custom_Functions.thy ===== *)
theory Custom_Functions
  imports Custom_Role Sql_Text
begin

text \<open>
  \<open>pkg/postgres/customrole_functions.go\<close>: the \<open>SECURITY DEFINER\<close> functions of a custom role.
  Function definitions are checked before they are interpolated into statements, named after
  the role, created and granted in the name of their owner, and dropped when no longer wanted.

  \<open>rnd\<close> gives the eight random bytes of the n-th dollar tag; \<open>uni\<close> is \<open>strings.ToUpper\<close> outside
  ASCII.
\<close>

record CustomRoleFunction =
  fn_Name :: string
  fn_Args :: string
  fn_Returns :: string
  fn_OwningRole :: string
  fn_Body :: string

section \<open>Checks\<close>

definition unsafe_text :: "string \<Rightarrow> bool" where
  "unsafe_text s \<longleftrightarrow> ContainsAny s [CHR '';'', CHR 0x27] \<or> Contains s ''--'' \<or> Contains s ''/*''"

fun args_loop :: "nat \<Rightarrow> string \<Rightarrow> bool" where
  "args_loop depth [] = (depth = 0)"
| "args_loop depth (r # s) =
     (if r = CHR ''('' then args_loop (depth + 1) s
      else if r = CHR '')'' then (if depth = 0 then False else args_loop (depth - 1) s)
      else args_loop depth s)"

definition isSafeArgs :: "string \<Rightarrow> bool" where
  "isSafeArgs s = (if unsafe_text s then False else args_loop 0 s)"

definition is_blank :: "char \<Rightarrow> bool" where
  "is_blank c \<longleftrightarrow> c \<in> {CHR '' '', CHR 0x09, CHR 0x0A, CHR 0x0D}"

fun returns_loop :: "nat \<Rightarrow> string \<Rightarrow> bool" where
  "returns_loop depth [] = (depth = 0)"
| "returns_loop depth (r # s) =
     (if r = CHR ''('' then returns_loop (depth + 1) s
      else if r = CHR '')'' then (if depth = 0 then False else returns_loop (depth - 1) s)
      else if is_blank r then (if depth = 0 then False else returns_loop depth s)
      else returns_loop depth s)"

definition isSafeReturns :: "(string \<Rightarrow> string) \<Rightarrow> string \<Rightarrow> bool" where
  "isSafeReturns uni s =
     (if unsafe_text s then False
      else let remaining = (if HasPrefix (ToUpper uni s) ''SETOF '' then drop 6 s else s)
           in returns_loop 0 remaining)"

definition validateFunction :: "(string \<Rightarrow> string) \<Rightarrow> CustomRoleFunction \<Rightarrow> goerr option" where
  "validateFunction uni f =
     (if fn_Name f = [] then NewInvalid (Some (Errorf ''function name must not be empty'' []))
      else if Contains (fn_Name f) ''__'' then NewInvalid (Some (Errorf ''function %q: name must not contain \"__\"'' [fn_Name f]))
      else if fn_Returns f = [] then NewInvalid (Some (Errorf ''function %q: returns must not be empty'' [fn_Name f]))
      else if \<not> isSafeArgs (fn_Args f) then NewInvalid (Some (Errorf ''function %q: args contains unsafe SQL characters or unbalanced parentheses'' [fn_Name f]))
      else if \<not> isSafeReturns uni (fn_Returns f) then NewInvalid (Some (Errorf ''function %q: returns contains unsafe SQL characters or spaces outside parentheses'' [fn_Name f]))
      else if fn_Body f = [] then NewInvalid (Some (Errorf ''function %q: body must not be empty'' [fn_Name f]))
      else None)"

section \<open>Names\<close>

definition lower_hex :: "nat \<Rightarrow> char" where
  "lower_hex n = ''0123456789abcdef'' ! n"

definition randomDollarTag :: "string \<Rightarrow> string" where
  "randomDollarTag b =
     ''$f_'' @ concat (map (\<lambda>c. [lower_hex (of_char c div 16), lower_hex (of_char c mod 16)]) b) @ ''$''"

definition controllerSentinelOwningRole :: string where
  "controllerSentinelOwningRole = ''$controllerUser''"

definition managedFunctionPrefix :: "string \<Rightarrow> string" where
  "managedFunctionPrefix roleName = roleName @ ''__''"

definition managedFunctionName :: "string \<Rightarrow> string \<Rightarrow> string" where
  "managedFunctionName roleName funcName = managedFunctionPrefix roleName @ funcName"

section \<open>Queries\<close>

record managedFunctionKey =
  mf_name :: string
  mf_identityArgs :: string
  mf_owner :: string

record desiredFunctionKey =
  df_name :: string
  df_identityArgs :: string

definition query_string :: "server \<Rightarrow> db \<Rightarrow> string \<Rightarrow> string list \<Rightarrow> string act" where
  "query_string srv d q as = onerr (db_QueryRow srv d q as) id (\<lambda>cols h. (scan1 cols, h))"

definition currentUser :: "server \<Rightarrow> db \<Rightarrow> string act" where
  "currentUser srv d = onerr (query_string srv d ''SELECT current_user'' []) (Wrapf ''query current user: %w'' []) ok"

definition managed_functions_sql :: string where
  "managed_functions_sql = raw_lines
     [''SELECT p.proname, pg_get_function_identity_arguments(p.oid), r.rolname'',
      ''FROM pg_proc p'',
      ''JOIN pg_namespace n ON n.oid = p.pronamespace'',
      ''JOIN pg_roles r ON r.oid = p.proowner'',
      ''WHERE n.nspname = 'public'' @ [CHR 0x27],
      ''  AND starts_with(p.proname, $1)'',
      ''  AND position('__' in substring(p.proname from length($1)+1)) = 0'']"

definition managedFunctions :: "server \<Rightarrow> db \<Rightarrow> string \<Rightarrow> managedFunctionKey list act" where
  "managedFunctions srv d roleName =
     onerr (db_Query srv d managed_functions_sql [managedFunctionPrefix roleName])
       (Wrapf ''query managed functions for %s: %w'' [roleName])
       (\<lambda>rs h. (map_sum id (map (\<lambda>(n, a, w). \<lparr>mf_name = n, mf_identityArgs = a, mf_owner = w\<rparr>))
                  (scan_rows (Wrapf ''scan managed function: %w'' []) id scan3 rs), h))"

definition database_owner_sql :: string where
  "database_owner_sql = raw_lines
     [''SELECT r.rolname'',
      ''FROM pg_database d'',
      ''JOIN pg_roles r ON r.oid = d.datdba'',
      ''WHERE d.datname = current_database()'']"

definition databaseOwner :: "server \<Rightarrow> db \<Rightarrow> string act" where
  "databaseOwner srv d = onerr (query_string srv d database_owner_sql []) (Wrapf ''query database owner: %w'' []) ok"

definition identity_args_sql :: string where
  "identity_args_sql = concat (map (\<lambda>l. [CHR 0x0A, CHR 0x09, CHR 0x09, CHR 0x09] @ l)
     [''SELECT pg_get_function_identity_arguments(p.oid)'',
      ''FROM pg_proc p'',
      ''JOIN pg_namespace n ON n.oid = p.pronamespace'',
      ''WHERE n.nspname = 'public' AND p.proname = $1'',
      ''ORDER BY p.oid DESC LIMIT 1''])"

section \<open>Statements\<close>

definition function_ref :: "server \<Rightarrow> string \<Rightarrow> string \<Rightarrow> string" where
  "function_ref srv pgName args = ''public.'' @ QuoteIdentifier srv pgName @ ''('' @ args @ '')''"

definition drop_function_sql :: "server \<Rightarrow> string \<Rightarrow> string \<Rightarrow> string" where
  "drop_function_sql srv pgName args = ''DROP FUNCTION IF EXISTS '' @ function_ref srv pgName args"

definition create_function_sql :: "server \<Rightarrow> string \<Rightarrow> string \<Rightarrow> CustomRoleFunction \<Rightarrow> string" where
  "create_function_sql srv pgName tag f =
     ''CREATE OR REPLACE FUNCTION '' @ function_ref srv pgName (fn_Args f) @ '' RETURNS '' @ fn_Returns f
     @ '' LANGUAGE plpgsql SECURITY DEFINER SET search_path = pg_catalog AS '' @ tag @ [CHR 0x0A] @ ''BEGIN''
     @ [CHR 0x0A] @ fn_Body f @ [CHR 0x0A] @ ''END;'' @ [CHR 0x0A] @ tag"

definition owner_function_sql :: "server \<Rightarrow> string \<Rightarrow> string \<Rightarrow> string \<Rightarrow> string" where
  "owner_function_sql srv pgName args owner =
     ''ALTER FUNCTION '' @ function_ref srv pgName args @ '' OWNER TO '' @ QuoteIdentifier srv owner"

definition revoke_public_sql :: "server \<Rightarrow> string \<Rightarrow> string \<Rightarrow> string" where
  "revoke_public_sql srv pgName args =
     ''REVOKE ALL ON FUNCTION '' @ function_ref srv pgName args @ '' FROM PUBLIC''"

definition grant_execute_sql :: "server \<Rightarrow> string \<Rightarrow> string \<Rightarrow> string \<Rightarrow> string" where
  "grant_execute_sql srv pgName args roleName =
     ''GRANT EXECUTE ON FUNCTION '' @ function_ref srv pgName args @ '' TO '' @ QuoteIdentifier srv roleName"

section \<open>SyncDatabaseFunctions\<close>

text \<open>The owner of a function: its \<open>OwningRole\<close>, the database owner, or the connected role.\<close>

definition resolve_owner :: "string \<Rightarrow> string \<Rightarrow> CustomRoleFunction \<Rightarrow> string" where
  "resolve_owner dbOwner controllerUser f =
     (if fn_OwningRole f = [] then dbOwner
      else if fn_OwningRole f = controllerSentinelOwningRole then controllerUser
      else fn_OwningRole f)"

text \<open>The first owner seen for each name.\<close>

fun current_owners :: "managedFunctionKey list \<Rightarrow> (string, string) gomap \<Rightarrow> (string, string) gomap" where
  "current_owners [] m = m"
| "current_owners (f # fs) m =
     current_owners fs (if gm_get m (mf_name f) = None then gm_put (mf_name f) (mf_owner f) m else m)"

text \<open>One iteration of the main loop; it returns the key that is recorded as desired.\<close>

definition sync_function ::
    "server \<Rightarrow> db \<Rightarrow> string \<Rightarrow> string \<Rightarrow> (string, string) gomap \<Rightarrow> string \<Rightarrow> CustomRoleFunction
     \<Rightarrow> desiredFunctionKey act" where
  "sync_function srv d roleName owner currentOwner tag f =
     (let pgName = managedFunctionName roleName (fn_Name f);
          qualifiedName = function_ref srv pgName (fn_Args f)
      in onerr (case gm_get currentOwner pgName of
                  Some prev \<Rightarrow> if prev \<noteq> owner then exec_as srv d prev (drop_function_sql srv pgName (fn_Args f)) else ok ()
                | None \<Rightarrow> ok ())
           (Wrapf ''drop function %s before owner change: %w'' [qualifiedName])
         (\<lambda>_. onerr (exec_as srv d owner (create_function_sql srv pgName tag f))
           (Wrapf ''create function %s as %s: %w'' [qualifiedName, owner])
         (\<lambda>_. onerr (query_string srv d identity_args_sql [pgName])
           (Wrapf ''lookup identity args for %s: %w'' [pgName])
         (\<lambda>canonicalArgs. onerr (exec_as srv d owner (owner_function_sql srv pgName canonicalArgs owner))
           (Wrapf ''set owner on function %s: %w'' [qualifiedName])
         (\<lambda>_. onerr (exec_as srv d owner (revoke_public_sql srv pgName canonicalArgs))
           (Wrapf ''revoke public execute on %s: %w'' [qualifiedName])
         (\<lambda>_. onerr (exec_as srv d owner (grant_execute_sql srv pgName canonicalArgs roleName))
           (Wrapf ''grant execute on %s to %s: %w'' [qualifiedName, roleName])
         (\<lambda>_. ok \<lparr>df_name = pgName, df_identityArgs = canonicalArgs\<rparr>)))))))"

text \<open>The main loop; \<open>n\<close> counts the dollar tags.\<close>

fun sync_functions_loop ::
    "server \<Rightarrow> db \<Rightarrow> (nat \<Rightarrow> string) \<Rightarrow> string \<Rightarrow> (CustomRoleFunction \<Rightarrow> string) \<Rightarrow> (string, string) gomap
     \<Rightarrow> nat \<Rightarrow> CustomRoleFunction list \<Rightarrow> desiredFunctionKey list act" where
  "sync_functions_loop srv d rnd roleName owner currentOwner n [] = ok []"
| "sync_functions_loop srv d rnd roleName owner currentOwner n (f # fs) =
     onerr (sync_function srv d roleName (owner f) currentOwner (randomDollarTag (rnd n)) f) id
     (\<lambda>key. onerr (sync_functions_loop srv d rnd roleName owner currentOwner (n + 1) fs) id
     (\<lambda>keys. ok (key # keys)))"

definition drop_function :: "server \<Rightarrow> db \<Rightarrow> managedFunctionKey \<Rightarrow> unit act" where
  "drop_function srv d f =
     onerr (exec_as srv d (mf_owner f) (drop_function_sql srv (mf_name f) (mf_identityArgs f)))
       (Wrapf ''drop function public.%s(%s): %w'' [mf_name f, mf_identityArgs f]) ok"

fun validate_functions :: "(string \<Rightarrow> string) \<Rightarrow> CustomRoleFunction list \<Rightarrow> goerr option" where
  "validate_functions uni [] = None"
| "validate_functions uni (f # fs) =
     (case validateFunction uni f of Some err \<Rightarrow> Some err | None \<Rightarrow> validate_functions uni fs)"

definition SyncDatabaseFunctions ::
    "server \<Rightarrow> (string \<Rightarrow> string) \<Rightarrow> (nat \<Rightarrow> string) \<Rightarrow> db \<Rightarrow> string \<Rightarrow> CustomRoleFunction list \<Rightarrow> unit act" where
  "SyncDatabaseFunctions srv uni rnd d roleName functions =
     (case validate_functions uni functions of
        Some err \<Rightarrow> fail err
      | None \<Rightarrow>
          onerr (if list_ex (\<lambda>f. fn_OwningRole f = []) functions then databaseOwner srv d else ok []) id
          (\<lambda>dbOwner. onerr (if list_ex (\<lambda>f. fn_OwningRole f = controllerSentinelOwningRole) functions
                            then currentUser srv d else ok []) id
          (\<lambda>controllerUser. onerr (managedFunctions srv d roleName) id
          (\<lambda>current. onerr (sync_functions_loop srv d rnd roleName (resolve_owner dbOwner controllerUser)
                              (current_owners current []) 0 functions) id
          (\<lambda>desired.
             for_each (\<lambda>f. if \<lparr>df_name = mf_name f, df_identityArgs = mf_identityArgs f\<rparr> \<notin> set desired
                           then drop_function srv d f else ok ())
               current)))))"

definition DropManagedFunctions :: "server \<Rightarrow> db \<Rightarrow> string \<Rightarrow> unit act" where
  "DropManagedFunctions srv d roleName =
     onerr (managedFunctions srv d roleName) id (\<lambda>funcs. for_each (drop_function srv d) funcs)"

section \<open>Lemmas on the checks\<close>

text \<open>A text without double quotes and dollar signs that passes the first check is all code, so
  counting its parentheses tells whether the list it is put into ends right after it.\<close>

abbreviation no_quoting :: "string \<Rightarrow> bool" where
  "no_quoting s \<equiv> CHR 0x22 \<notin> set s \<and> CHR ''$'' \<notin> set s"

lemma unsafe_text_iff:
  "unsafe_text s \<longleftrightarrow> CHR '';'' \<in> set s \<or> CHR 0x27 \<in> set s \<or> sublist ''--'' s \<or> sublist ''/*'' s"
  by (auto simp: unsafe_text_def ContainsAny_def Contains_def list_ex_iff)

lemma safe_code_step:
  assumes "\<not> unsafe_text (c # s)" and "no_quoting (c # s)"
  shows "lex_step Code inside c (s @ CHR '')'' # rest) = Code" and "c \<noteq> CHR '';''" and "\<not> unsafe_text s"
proof -
  have "sublist [c, x] (c # x # t)" for x t by (metis append.left_neutral append_Cons sublist_append_rightI)
  then have "\<not> (c = CHR ''-'' \<and> prefix ''-'' s)" "\<not> (c = CHR ''/'' \<and> prefix ''*'' s)"
    using assms(1) by (auto simp: unsafe_text_iff prefix_def)
  then have "\<not> (c = CHR ''-'' \<and> prefix ''-'' (s @ CHR '')'' # rest))" "\<not> (c = CHR ''/'' \<and> prefix ''*'' (s @ CHR '')'' # rest))"
    by (cases s; simp)+
  then show "lex_step Code inside c (s @ CHR '')'' # rest) = Code"
    using assms by (auto simp: unsafe_text_iff)
  show "c \<noteq> CHR '';''" "\<not> unsafe_text s"
    using assms(1) by (auto simp: unsafe_text_iff sublist_Cons_right)
qed

lemma list_end_iff:
  assumes "\<not> unsafe_text s" and "no_quoting s"
  shows "list_end Code inside depth (s @ CHR '')'' # rest) = Some (length s) \<longleftrightarrow> args_loop depth s"
  using assms
proof (induction s arbitrary: inside depth)
  case Nil
  show ?case by simp
next
  case (Cons c s)
  note step = safe_code_step [OF Cons.prems]
  have "list_end Code inside' depth' (s @ CHR '')'' # rest) = Some (length s) \<longleftrightarrow> args_loop depth' s" for inside' depth'
    using Cons step(3) by simp
  then show ?case using step(1,2) by simp
qed

definition depth_at :: "string \<Rightarrow> nat \<Rightarrow> int" where
  "depth_at s i = int (count_list (take i s) (CHR ''('')) - int (count_list (take i s) (CHR '')''))"

lemma depth_at_simps [simp]:
  "depth_at s 0 = 0"
  "depth_at (c # s) (Suc i) =
     (if c = CHR ''('' then 1 else if c = CHR '')'' then -1 else 0) + depth_at s i"
  by (auto simp: depth_at_def)

lemma returns_loop_iff:
  "returns_loop depth s \<longleftrightarrow>
     args_loop depth s \<and> (\<forall>i < length s. is_blank (s ! i) \<longrightarrow> 0 < int depth + depth_at s i)"
proof (induction depth s rule: returns_loop.induct)
  case (2 depth r s)
  have split: "(\<forall>i < length (r # s). is_blank ((r # s) ! i) \<longrightarrow> 0 < int depth + depth_at (r # s) i) \<longleftrightarrow>
      (is_blank r \<longrightarrow> 0 < depth) \<and>
      (\<forall>i < length s. is_blank (s ! i) \<longrightarrow> 0 < int depth + depth_at (r # s) (Suc i))"
    by (auto simp: less_Suc_eq_0_disj)
  have blank: "\<not> is_blank (CHR ''('')" "\<not> is_blank (CHR '')'')" by (simp_all add: is_blank_def)
  show ?case
    unfolding split using 2 blank
    by (auto simp: of_nat_diff add.commute add.left_commute add.assoc algebra_simps)
qed simp

lemma dunder_overlap:
  assumes "us @ ''__'' @ f = ''__'' @ g" and "\<not> Contains g ''__''"
  shows "(us = [] \<and> f = g) \<or> (us = ''_'' \<and> g = ''_'' @ f)"
proof -
  consider "us = []" | c where "us = [c]" | c c' vs where "us = c # c' # vs"
    by (metis neq_Nil_conv)
  then show ?thesis
  proof cases
    case 3
    then have "g = vs @ ''__'' @ f" using assms(1) by simp
    then have "Contains g ''__''" unfolding Contains_def sublist_def by blast
    with assms(2) show ?thesis by simp
  qed (use assms(1) in auto)
qed

section \<open>Lemmas on the statements\<close>

lemma script_exec_as [script_intros]: "script (exec_as srv d owner q) [set_role srv owner, q]"
  unfolding runs_def
proof
  fix h
  show "\<exists>ts. sent (snd (exec_as srv d owner q h)) = sent h @ ts
      \<and> follows [set_role srv owner, q] (fst (exec_as srv d owner q h)) ts"
  proof (cases rule: exec_as_cases [of srv d owner q h])
    case (commits t r)
    then show ?thesis by (cases r) simp_all
  qed simp_all
qed

lemma script_db_QueryRow [script_intros]: "script (db_QueryRow srv d q as) []"
  unfolding runs_def db_QueryRow_def onerr_def db_Query_def Let_def
  by (auto simp: follows_def split: sum.split rows.split list.split option.split)

lemma script_query_string [script_intros]: "script (query_string srv d q as) []"
proof -
  have "script (query_string srv d q as) ([] @ [])"
    unfolding query_string_def by (intro script_intros)
  then show ?thesis by simp
qed

text \<open>What a successful run leaves in the history. \<open>ran_as\<close>: one statement, committed, in the name of a
  role. \<open>answered\<close>: a query whose first row was the one value \<open>a\<close>.\<close>

definition ran_as :: "server \<Rightarrow> db \<Rightarrow> string \<Rightarrow> string \<Rightarrow> history \<Rightarrow> bool" where
  "ran_as srv d owner q evs \<longleftrightarrow> (\<exists>t. evs = tx_events srv d t owner q)"

definition answered :: "db \<Rightarrow> string \<Rightarrow> string list \<Rightarrow> string \<Rightarrow> history \<Rightarrow> bool" where
  "answered d q as a evs \<longleftrightarrow> (\<exists>more e. evs = [EvQuery d q as (Inr (Rows (Inr [a] # more) e))])"

definition listed :: "db \<Rightarrow> string \<Rightarrow> managedFunctionKey list \<Rightarrow> history \<Rightarrow> bool" where
  "listed d roleName current evs \<longleftrightarrow>
     evs = [EvQuery d managed_functions_sql [roleName @ ''__'']
       (Inr (Rows (map (\<lambda>m. Inr [mf_name m, mf_identityArgs m, mf_owner m]) current) None))]"

text \<open>The role that is to own a function, given the owner of the database and the connected user.\<close>

definition owned_by :: "string \<Rightarrow> string \<Rightarrow> CustomRoleFunction \<Rightarrow> string \<Rightarrow> bool" where
  "owned_by dbOwner user f owner \<longleftrightarrow>
     (if fn_OwningRole f = [] then owner = dbOwner
      else if fn_OwningRole f = ''$controllerUser'' then owner = user
      else owner = fn_OwningRole f)"

text \<open>One function: if a function of that name is listed with another owner, it is dropped in the name
  of that one; then, all in the name of the owner, the function is created, the server is asked
  for its arguments in canonical form, and with these ownership is set, the right of everybody to
  execute it is revoked, and the role gets it.\<close>

definition function_run ::
    "server \<Rightarrow> db \<Rightarrow> string \<Rightarrow> string \<Rightarrow> managedFunctionKey list \<Rightarrow> string \<Rightarrow> CustomRoleFunction \<Rightarrow> string \<Rightarrow> history \<Rightarrow> bool" where
  "function_run srv d roleName owner current tag f args evs \<longleftrightarrow>
     (let name = roleName @ ''__'' @ fn_Name f
      in \<exists>dropped created asked owning revoked granted.
           evs = dropped @ created @ asked @ owning @ revoked @ granted
         \<and> (case find (\<lambda>m. mf_name m = name) current of
              Some m \<Rightarrow> if mf_owner m \<noteq> owner then ran_as srv d (mf_owner m) (drop_function_sql srv name (fn_Args f)) dropped
                        else dropped = []
            | None \<Rightarrow> dropped = [])
         \<and> ran_as srv d owner (create_function_sql srv name tag f) created
         \<and> answered d identity_args_sql [name] args asked
         \<and> ran_as srv d owner (owner_function_sql srv name args owner) owning
         \<and> ran_as srv d owner (revoke_public_sql srv name args) revoked
         \<and> ran_as srv d owner (grant_execute_sql srv name args roleName) granted)"

fun functions_run ::
    "server \<Rightarrow> db \<Rightarrow> (nat \<Rightarrow> string) \<Rightarrow> string \<Rightarrow> (CustomRoleFunction \<Rightarrow> string \<Rightarrow> bool) \<Rightarrow> managedFunctionKey list
     \<Rightarrow> nat \<Rightarrow> CustomRoleFunction list \<Rightarrow> string list \<Rightarrow> history \<Rightarrow> bool" where
  "functions_run srv d rnd roleName owned current n (f # fs) (a # as) evs \<longleftrightarrow>
     (\<exists>owner first rest. evs = first @ rest \<and> owned f owner
        \<and> function_run srv d roleName owner current (randomDollarTag (rnd n)) f a first
        \<and> functions_run srv d rnd roleName owned current (n + 1) fs as rest)"
| "functions_run srv d rnd roleName owned current n fs as evs \<longleftrightarrow> fs = [] \<and> as = [] \<and> evs = []"

fun drops_run :: "server \<Rightarrow> db \<Rightarrow> managedFunctionKey list \<Rightarrow> history \<Rightarrow> bool" where
  "drops_run srv d [] evs \<longleftrightarrow> evs = []"
| "drops_run srv d (m # ms) evs \<longleftrightarrow>
     (\<exists>first rest. evs = first @ rest
        \<and> ran_as srv d (mf_owner m) (drop_function_sql srv (mf_name m) (mf_identityArgs m)) first
        \<and> drops_run srv d ms rest)"

text \<open>The listed functions that are none of the desired ones.\<close>

definition stale :: "string \<Rightarrow> CustomRoleFunction list \<Rightarrow> string list \<Rightarrow> managedFunctionKey list \<Rightarrow> managedFunctionKey list" where
  "stale roleName fs args current =
     filter (\<lambda>m. (mf_name m, mf_identityArgs m) \<notin> set (zip (map (\<lambda>f. roleName @ ''__'' @ fn_Name f) fs) args)) current"

text \<open>The whole course: the questions to the server, each only if a function needs the answer, the
  functions, and the drops.\<close>

definition sync_course ::
    "server \<Rightarrow> (nat \<Rightarrow> string) \<Rightarrow> db \<Rightarrow> string \<Rightarrow> CustomRoleFunction list \<Rightarrow> history \<Rightarrow> bool" where
  "sync_course srv rnd d roleName fs evs \<longleftrightarrow>
     (\<exists>dbOwner user current args asked_owner asked_user asked_listing synced drops.
        evs = asked_owner @ asked_user @ asked_listing @ synced @ drops
      \<and> (if \<exists>f\<in>set fs. fn_OwningRole f = [] then answered d database_owner_sql [] dbOwner asked_owner
         else asked_owner = [])
      \<and> (if \<exists>f\<in>set fs. fn_OwningRole f = ''$controllerUser'' then answered d ''SELECT current_user'' [] user asked_user
         else asked_user = [])
      \<and> listed d roleName current asked_listing
      \<and> functions_run srv d rnd roleName (owned_by dbOwner user) current 0 fs args synced
      \<and> drops_run srv d (stale roleName fs args current) drops)"

lemma exec_as_ran: "exec_as srv d owner q h = (Inr u, h') \<Longrightarrow> \<exists>evs. h' = h @ evs \<and> ran_as srv d owner q evs"
  using exec_as_Inr by (metis ran_as_def)

lemma query_string_answered:
  "query_string srv d q as h = (Inr a, h') \<Longrightarrow> \<exists>evs. h' = h @ evs \<and> answered d q as a evs"
  unfolding query_string_def db_QueryRow_def
  by (elim onerr_InrE)
    (auto simp: db_Query_def Let_def answered_def scan1_def split: rows.splits list.splits option.splits)

lemma owner_queries_answered:
  "databaseOwner srv d h = (Inr a, h') \<Longrightarrow> \<exists>evs. h' = h @ evs \<and> answered d database_owner_sql [] a evs"
  "currentUser srv d h = (Inr a, h') \<Longrightarrow> \<exists>evs. h' = h @ evs \<and> answered d ''SELECT current_user'' [] a evs"
  unfolding databaseOwner_def currentUser_def by (elim onerr_InrE; auto dest!: query_string_answered)+

lemma scan_each_rows:
  "scan_each w scan3 rs = Inr ks \<Longrightarrow> rs = map (\<lambda>(a, b, c). Inr [a, b, c]) ks"
proof (induction rs arbitrary: ks)
  case (Cons r rs)
  then show ?case
    by (cases r) (auto simp: scan3_def split: sum.splits list.splits)
qed simp

lemma managedFunctions_listed:
  assumes "managedFunctions srv d roleName h = (Inr current, h')"
  shows "\<exists>evs. h' = h @ evs \<and> listed d roleName current evs"
proof -
  let ?key = "\<lambda>(n, a, w). \<lparr>mf_name = n, mf_identityArgs = a, mf_owner = w\<rparr>"
  obtain rs ks where h': "h' = h @ [EvQuery d managed_functions_sql [managedFunctionPrefix roleName] (Inr (Rows rs None))]"
    and ks: "scan_each (Wrapf ''scan managed function: %w'' []) scan3 rs = Inr ks" and current: "current = map ?key ks"
    using assms unfolding managedFunctions_def
    by (elim onerr_InrE) (auto simp: db_Query_def Let_def scan_rows_def split: rows.splits sum.splits option.splits)
  have "rs = map (\<lambda>m. Inr [mf_name m, mf_identityArgs m, mf_owner m]) current"
    unfolding scan_each_rows [OF ks] current by (simp add: case_prod_beta)
  then show ?thesis unfolding h' by (simp add: listed_def managedFunctionPrefix_def)
qed

lemma current_owners_find:
  "gm_get (current_owners ms m) n = (case gm_get m n of Some w \<Rightarrow> Some w | None \<Rightarrow> map_option mf_owner (find (\<lambda>k. mf_name k = n) ms))"
  by (induction ms arbitrary: m) (auto simp: update_conv split: option.split)

lemma resolve_owner_owned: "owned_by dbOwner user f (resolve_owner dbOwner user f)"
  by (simp add: owned_by_def resolve_owner_def controllerSentinelOwningRole_def)

lemma sync_function_run:
  assumes "sync_function srv d roleName owner (current_owners current []) tag f h = (Inr key, h')"
  shows "\<exists>evs args. h' = h @ evs \<and> key = \<lparr>df_name = roleName @ ''__'' @ fn_Name f, df_identityArgs = args\<rparr>
    \<and> function_run srv d roleName owner current tag f args evs"
proof -
  let ?name = "roleName @ ''__'' @ fn_Name f"
  have name: "managedFunctionName roleName (fn_Name f) = ?name"
    by (simp add: managedFunctionName_def managedFunctionPrefix_def)
  have owners: "gm_get (current_owners current []) ?name = map_option mf_owner (find (\<lambda>m. mf_name m = ?name) current)"
    by (simp add: current_owners_find)
  let ?drop = "case map_option mf_owner (find (\<lambda>m. mf_name m = ?name) current) of
      Some prev \<Rightarrow> if prev \<noteq> owner then exec_as srv d prev (drop_function_sql srv ?name (fn_Args f)) else ok ()
    | None \<Rightarrow> ok ()"
  obtain h1 h2 args h3 h4 h5 where drop: "?drop h = (Inr (), h1)"
    and runs: "exec_as srv d owner (create_function_sql srv ?name tag f) h1 = (Inr (), h2)"
      "query_string srv d identity_args_sql [?name] h2 = (Inr args, h3)"
      "exec_as srv d owner (owner_function_sql srv ?name args owner) h3 = (Inr (), h4)"
      "exec_as srv d owner (revoke_public_sql srv ?name args) h4 = (Inr (), h5)"
      "exec_as srv d owner (grant_execute_sql srv ?name args roleName) h5 = (Inr (), h')"
    and key: "key = \<lparr>df_name = ?name, df_identityArgs = args\<rparr>"
    using assms unfolding sync_function_def Let_def name owners by (elim onerr_InrE) auto
  obtain dropped where "h1 = h @ dropped" and "case find (\<lambda>m. mf_name m = ?name) current of
      Some m \<Rightarrow> if mf_owner m \<noteq> owner then ran_as srv d (mf_owner m) (drop_function_sql srv ?name (fn_Args f)) dropped else dropped = []
    | None \<Rightarrow> dropped = []"
    using drop exec_as_ran by (cases "find (\<lambda>m. mf_name m = ?name) current") (fastforce split: if_splits)+
  note dropped = this
  obtain created where c: "h2 = h1 @ created" "ran_as srv d owner (create_function_sql srv ?name tag f) created"
    using exec_as_ran [OF runs(1)] by blast
  obtain asked where a: "h3 = h2 @ asked" "answered d identity_args_sql [?name] args asked"
    using query_string_answered [OF runs(2)] by blast
  obtain owning where o: "h4 = h3 @ owning" "ran_as srv d owner (owner_function_sql srv ?name args owner) owning"
    using exec_as_ran [OF runs(3)] by blast
  obtain revoked where r: "h5 = h4 @ revoked" "ran_as srv d owner (revoke_public_sql srv ?name args) revoked"
    using exec_as_ran [OF runs(4)] by blast
  obtain granted where g: "h' = h5 @ granted" "ran_as srv d owner (grant_execute_sql srv ?name args roleName) granted"
    using exec_as_ran [OF runs(5)] by blast
  have "function_run srv d roleName owner current tag f args (dropped @ created @ asked @ owning @ revoked @ granted)"
    unfolding function_run_def Let_def
    by (rule exI [of _ dropped], rule exI [of _ created], rule exI [of _ asked], rule exI [of _ owning], rule exI [of _ revoked],
        rule exI [of _ granted]) (intro conjI refl dropped(2) c(2) a(2) o(2) r(2) g(2))
  moreover have "h' = h @ (dropped @ created @ asked @ owning @ revoked @ granted)"
    by (simp add: dropped(1) c(1) a(1) o(1) r(1) g(1))
  ultimately show ?thesis using key by blast
qed

lemma sync_functions_loop_run:
  assumes "sync_functions_loop srv d rnd roleName (resolve_owner dbOwner user) (current_owners current []) n fs h = (Inr keys, h')"
  shows "\<exists>evs args. h' = h @ evs \<and> length args = length fs
    \<and> map (\<lambda>k. (df_name k, df_identityArgs k)) keys = zip (map (\<lambda>f. roleName @ ''__'' @ fn_Name f) fs) args
    \<and> functions_run srv d rnd roleName (owned_by dbOwner user) current n fs args evs"
  using assms
proof (induction fs arbitrary: n h keys)
  case Nil
  then show ?case by simp
next
  case (Cons f fs)
  from Cons.prems obtain key h1 keys' where first: "sync_function srv d roleName (resolve_owner dbOwner user f)
      (current_owners current []) (randomDollarTag (rnd n)) f h = (Inr key, h1)"
    and rest: "sync_functions_loop srv d rnd roleName (resolve_owner dbOwner user) (current_owners current []) (n + 1) fs h1 = (Inr keys', h')"
    and keys: "keys = key # keys'"
    by (auto elim!: onerr_InrE)
  from sync_function_run [OF first] obtain evs1 a where one: "h1 = h @ evs1"
    "key = \<lparr>df_name = roleName @ ''__'' @ fn_Name f, df_identityArgs = a\<rparr>"
    "function_run srv d roleName (resolve_owner dbOwner user f) current (randomDollarTag (rnd n)) f a evs1" by blast
  from Cons.IH [OF rest] obtain evs2 as where two: "h' = h1 @ evs2" "length as = length fs"
    "map (\<lambda>k. (df_name k, df_identityArgs k)) keys' = zip (map (\<lambda>f. roleName @ ''__'' @ fn_Name f) fs) as"
    "functions_run srv d rnd roleName (owned_by dbOwner user) current (n + 1) fs as evs2" by blast
  have "functions_run srv d rnd roleName (owned_by dbOwner user) current n (f # fs) (a # as) (evs1 @ evs2)"
    using one(3) two(4) resolve_owner_owned [of dbOwner user f] unfolding functions_run.simps by blast
  with one two keys show ?case by (intro exI [of _ "evs1 @ evs2"] exI [of _ "a # as"]) simp
qed

lemma drop_functions_run:
  assumes "for_each (drop_function srv d) ms h = (Inr (), h')"
  shows "\<exists>evs. h' = h @ evs \<and> drops_run srv d ms evs"
  using assms
proof (induction ms arbitrary: h)
  case (Cons m ms)
  from Cons.prems obtain h1 where first: "exec_as srv d (mf_owner m) (drop_function_sql srv (mf_name m) (mf_identityArgs m)) h = (Inr (), h1)"
    and rest: "for_each (drop_function srv d) ms h1 = (Inr (), h')"
    unfolding for_each.simps drop_function_def [of _ _ m] by (elim onerr_InrE) auto
  from exec_as_ran [OF first] Cons.IH [OF rest] obtain evs1 evs2 where "h' = h @ (evs1 @ evs2)"
    and "ran_as srv d (mf_owner m) (drop_function_sql srv (mf_name m) (mf_identityArgs m)) evs1" "drops_run srv d ms evs2" by auto
  then show ?case unfolding drops_run.simps by blast
qed simp

definition drop_statements :: "server \<Rightarrow> managedFunctionKey list \<Rightarrow> string list" where
  "drop_statements srv fs =
     concat (map (\<lambda>f. [set_role srv (mf_owner f), drop_function_sql srv (mf_name f) (mf_identityArgs f)]) fs)"

lemma script_drop_function [script_intros]:
  "script (drop_function srv d f) [set_role srv (mf_owner f), drop_function_sql srv (mf_name f) (mf_identityArgs f)]"
  unfolding drop_function_def by (intro script_intros)

lemma script_drop_functions: "script (for_each (drop_function srv d) fs) (drop_statements srv fs)"
  unfolding drop_statements_def by (intro script_intros)

lemma script_managedFunctions [script_intros]: "script (managedFunctions srv d roleName) []"
  unfolding managedFunctions_def
  using script_onerr [OF script_calls(3), where vs = "[]", OF script_ok] by (simp only: append_Nil)

text \<open>The conditions on a function definition.\<close>

definition valid_function :: "(string \<Rightarrow> string) \<Rightarrow> CustomRoleFunction \<Rightarrow> bool" where
  "valid_function uni f \<longleftrightarrow>
     fn_Name f \<noteq> [] \<and> \<not> Contains (fn_Name f) ''__'' \<and> fn_Returns f \<noteq> [] \<and> fn_Body f \<noteq> [] \<and>
     isSafeArgs (fn_Args f) \<and> isSafeReturns uni (fn_Returns f)"

lemma validateFunction_cases:
  "if valid_function uni f then validateFunction uni f = None
   else \<exists>e. validateFunction uni f = Some e \<and> IsInvalid e"
  by (simp add: valid_function_def validateFunction_def NewInvalid_def)

lemma validate_functions_cases:
  "if list_all (valid_function uni) fs then validate_functions uni fs = None
   else \<exists>e. validate_functions uni fs = Some e \<and> IsInvalid e"
proof (induction fs)
  case (Cons f fs)
  then show ?case using validateFunction_cases [of uni f] by (auto split: if_splits)
qed simp

lemma appends_exec_as [appends_intros]: "appends (exec_as srv d owner q)"
  unfolding appends_def
proof
  fix h
  show "prefix h (snd (exec_as srv d owner q h))" by (cases rule: exec_as_cases [of srv d owner q h]) simp_all
qed

section \<open>Properties\<close>

text \<open>C17. \<open>isSafeArgs\<close> and the argument list. For PostgreSQL's own reading of the statement
  (\<open>list_end\<close>): a text without double quotes and dollar signs is accepted exactly if it has no
  statement terminator, single quote or comment marker and the parenthesis that closes the
  list is the one that comes right after the text, whatever follows. So such a text cannot end
  the list early. Quoted identifiers are not understood by the check; see below.\<close>

theorem isSafeArgs_closes:
  assumes "no_quoting s"
  shows "isSafeArgs s \<longleftrightarrow>
     \<not> (CHR '';'' \<in> set s \<or> CHR 0x27 \<in> set s \<or> sublist ''--'' s \<or> sublist ''/*'' s) \<and>
     (\<forall>rest. closes_at (s @ CHR '')'' # rest) (length s))"
  using list_end_iff [OF _ assms, of False 0] by (auto simp: isSafeArgs_def simp flip: unsafe_text_iff)

theorem isSafeArgs_closes_witness:
  "closes_at (''n numeric(4), m int'' @ '') RETURNS void'') 19 \<and> \<not> isSafeArgs ''n int) RETURNS void AS (x''"
proof -
  have "isSafeArgs ''n numeric(4), m int''" by code_simp
  with isSafeArgs_closes [of "''n numeric(4), m int''"]
  have "closes_at (''n numeric(4), m int'' @ CHR '')'' # '' RETURNS void'') (length ''n numeric(4), m int'')" by auto
  moreover have "\<not> isSafeArgs ''n int) RETURNS void AS (x''" by code_simp
  ultimately show ?thesis by simp
qed

text \<open>The check counts parentheses also inside of quoted identifiers, so with one the list can be
  ended early: the parenthesis after \<open>int\<close> closes it, and the rest of the text becomes part of the
  statement.\<close>

lemma isSafeArgs_quoted_escape:
  "isSafeArgs ([CHR 0x22, CHR ''('', CHR 0x22] @ '' int) RETURNS void LANGUAGE sql AS '')
   \<and> closes_at ([CHR 0x22, CHR ''('', CHR 0x22] @ '' int) RETURNS void LANGUAGE sql AS ) RETURNS'') 7"
  by code_simp

text \<open>\<open>isSafeReturns\<close> accepts, of the texts without double quotes and dollar signs, exactly those without
  statement terminators, quotes and comment markers whose rest after an optional leading \<open>SETOF\<close> has
  balanced parentheses and blanks only inside of them, so that no further clause of the statement
  can follow the type.\<close>

theorem isSafeReturns_closes:
  assumes "no_quoting s" and "\<not> unsafe_text s"
  shows "isSafeReturns uni s \<longleftrightarrow>
     (let r = (if prefix ''SETOF '' (ToUpper uni s) then drop 6 s else s)
      in (\<forall>rest. closes_at (r @ CHR '')'' # rest) (length r)) \<and>
         {i. i < length r \<and> is_blank (r ! i)} \<subseteq> {i. 0 < depth_at r i})"
proof -
  have "no_quoting (drop 6 s)" using assms(1) by (auto dest: in_set_dropD)
  moreover have "\<not> unsafe_text (drop 6 s)"
    using assms(2) by (auto simp: unsafe_text_iff dest: in_set_dropD sublist_order.order.trans [OF _ sublist_drop])
  ultimately show ?thesis
    using list_end_iff [OF assms(2,1), of False 0] list_end_iff [of "drop 6 s" False 0] assms(2)
    by (auto simp: isSafeReturns_def Let_def HasPrefix_def returns_loop_iff)
qed

text \<open>C18. The names of the functions of different roles: for function names that \<open>validateFunction\<close>
  accepts, two managed names are equal exactly when role and function are, or when one role
  name is the other one followed by an underscore and the function names differ by that
  underscore.\<close>

theorem managedFunctionName_collision:
  assumes "\<not> Contains f ''__''" and "\<not> Contains g ''__''"
  shows "managedFunctionName r f = managedFunctionName s g \<longleftrightarrow>
    (r = s \<and> f = g) \<or> (s = r @ ''_'' \<and> f = ''_'' @ g) \<or> (r = s @ ''_'' \<and> g = ''_'' @ f)"
proof
  assume "managedFunctionName r f = managedFunctionName s g"
  then have "r @ (''__'' @ f) = s @ (''__'' @ g)"
    by (simp add: managedFunctionName_def managedFunctionPrefix_def)
  then obtain us where "(r = s @ us \<and> us @ ''__'' @ f = ''__'' @ g) \<or> (r @ us = s \<and> ''__'' @ f = us @ ''__'' @ g)"
    unfolding append_eq_append_conv2 by blast
  then show "(r = s \<and> f = g) \<or> (s = r @ ''_'' \<and> f = ''_'' @ g) \<or> (r = s @ ''_'' \<and> g = ''_'' @ f)"
  proof
    assume "r = s @ us \<and> us @ ''__'' @ f = ''__'' @ g"
    then show ?thesis using dunder_overlap [of us f g] assms(2) by auto
  next
    assume *: "r @ us = s \<and> ''__'' @ f = us @ ''__'' @ g"
    then have "us @ ''__'' @ g = ''__'' @ f" by (simp only:)
    then show ?thesis using dunder_overlap [of us g f] assms(1) * by auto
  qed
qed (auto simp: managedFunctionName_def managedFunctionPrefix_def)

theorem managedFunctionName_collision_witness:
  "managedFunctionName ''reporting'' ''_run'' = managedFunctionName ''reporting_'' ''run''
   \<and> managedFunctionName ''reporting-db'' ''run'' \<noteq> managedFunctionName ''reporting_db'' ''run''"
proof -
  have "\<not> Contains ''_run'' ''__''" "\<not> Contains ''run'' ''__''" by code_simp+
  then show ?thesis
    using managedFunctionName_collision [of "''_run''" "''run''" "''reporting''" "''reporting_''"]
      managedFunctionName_collision [of "''run''" "''run''" "''reporting-db''" "''reporting_db''"]
    by simp
qed

text \<open>C16. \<open>SyncDatabaseFunctions\<close> checks all function definitions first: if one of them is not valid
  it returns an \<open>Invalid\<close> error and has not made any call to the server.\<close>

theorem SyncDatabaseFunctions_rejects_invalid:
  assumes "f \<in> set functions" and "\<not> valid_function uni f"
  shows "\<exists>e. SyncDatabaseFunctions srv uni rnd d roleName functions h = (Inl e, h) \<and> IsInvalid e"
proof -
  have "\<not> list_all (valid_function uni) functions" using assms by (auto simp: list_all_iff)
  then show ?thesis
    using validate_functions_cases [of uni "functions"] by (auto simp: SyncDatabaseFunctions_def)
qed

text \<open>C15. The exact course of a successful \<open>SyncDatabaseFunctions\<close>. The server is asked for the owner of the
  database and for the connected user, each only if a function needs it, and for the managed
  functions of the role. Then every desired function, in order, is created, owned, closed to
  the public and only then granted to the role, in the name of its owner: the owning role it
  gives, else the owner of the database or the connected user as the server answered. A function
  of the same name that the server listed with another owner is dropped first, in the name of that
  owner. Finally exactly the listed functions are dropped, in the name of their owners, whose name
  and arguments, in the canonical form that the server gave, are not those of a desired one. Nothing
  else is sent, and all definitions are valid.\<close>

theorem SyncDatabaseFunctions_statements:
  assumes "SyncDatabaseFunctions srv uni rnd d roleName functions h = (Inr (), h')"
  shows "list_all (valid_function uni) functions \<and> (\<exists>new. h' = h @ new \<and> sync_course srv rnd d roleName functions new)"
proof -
  let ?owner = "if list_ex (\<lambda>f. fn_OwningRole f = []) functions then databaseOwner srv d else ok []"
  let ?user = "if list_ex (\<lambda>f. fn_OwningRole f = controllerSentinelOwningRole) functions then currentUser srv d else ok []"
  have v: "validate_functions uni functions = None"
    using assms by (auto simp: SyncDatabaseFunctions_def split: option.splits)
  then have valid: "list_all (valid_function uni) functions"
    using validate_functions_cases [of uni "functions"] by (auto split: if_splits)
  obtain dbOwner h1 user h2 current h3 desired h4 where
    owner: "?owner h = (Inr dbOwner, h1)" and user: "?user h1 = (Inr user, h2)"
    and m: "managedFunctions srv d roleName h2 = (Inr current, h3)"
    and l: "sync_functions_loop srv d rnd roleName (resolve_owner dbOwner user) (current_owners current []) 0 functions h3 = (Inr desired, h4)"
    and e: "for_each (drop_function srv d) (filter (\<lambda>f. \<lparr>df_name = mf_name f, df_identityArgs = mf_identityArgs f\<rparr> \<notin> set desired) current) h4 = (Inr (), h')"
    using assms unfolding SyncDatabaseFunctions_def v option.case for_each_filter by (elim onerr_InrE) auto
  from sync_functions_loop_run [OF l] obtain synced args where h4: "h4 = h3 @ synced"
    and keys: "map (\<lambda>k. (df_name k, df_identityArgs k)) desired = zip (map (\<lambda>f. roleName @ ''__'' @ fn_Name f) functions) args"
    and synced: "functions_run srv d rnd roleName (owned_by dbOwner user) current 0 functions args synced" by blast
  have eta: "(\<lparr>df_name = df_name k, df_identityArgs = df_identityArgs k\<rparr> :: desiredFunctionKey) = k" for k by simp
  have "\<lparr>df_name = n, df_identityArgs = a\<rparr> \<in> set desired \<longleftrightarrow> (n, a) \<in> set (map (\<lambda>k. (df_name k, df_identityArgs k)) desired)" for n a
    by (auto simp: image_iff simp del: desiredFunctionKey.surjective) (simp_all only: eta, force)
  then have "stale roleName functions args current =
      filter (\<lambda>f. \<lparr>df_name = mf_name f, df_identityArgs = mf_identityArgs f\<rparr> \<notin> set desired) current"
    unfolding stale_def keys [symmetric] by simp
  with drop_functions_run [OF e] obtain drops where d: "h' = h4 @ drops" "drops_run srv d (stale roleName functions args current) drops" by auto
  obtain asked_listing where al: "h3 = h2 @ asked_listing" "listed d roleName current asked_listing"
    using managedFunctions_listed [OF m] by blast
  obtain asked_owner where ao: "h1 = h @ asked_owner" "if \<exists>f\<in>set functions. fn_OwningRole f = []
      then answered d database_owner_sql [] dbOwner asked_owner else asked_owner = []"
    using owner owner_queries_answered(1) [of srv d h dbOwner h1] by (auto simp: list_ex_iff split: if_splits)
  obtain asked_user where au: "h2 = h1 @ asked_user" "if \<exists>f\<in>set functions. fn_OwningRole f = ''$controllerUser''
      then answered d ''SELECT current_user'' [] user asked_user else asked_user = []"
    using user owner_queries_answered(2) [of srv d h1 user h2]
    by (auto simp: list_ex_iff controllerSentinelOwningRole_def split: if_splits)
  have "sync_course srv rnd d roleName functions (asked_owner @ asked_user @ asked_listing @ synced @ drops)"
    unfolding sync_course_def
    by (rule exI [of _ dbOwner], rule exI [of _ user], rule exI [of _ current], rule exI [of _ args], rule exI [of _ asked_owner],
        rule exI [of _ asked_user], rule exI [of _ asked_listing], rule exI [of _ synced], rule exI [of _ drops])
      (intro conjI refl ao(2) au(2) al(2) synced d(2))
  moreover have "h' = h @ (asked_owner @ asked_user @ asked_listing @ synced @ drops)"
    by (simp add: d(1) h4 al(1) au(1) ao(1))
  ultimately show ?thesis using valid by blast
qed

definition demo_function :: CustomRoleFunction where
  "demo_function = \<lparr>fn_Name = ''run'', fn_Args = ''n numeric(4)'', fn_Returns = ''SETOF text'', fn_OwningRole = ''svc'',
     fn_Body = ''PERFORM 1;''\<rparr>"

text \<open>A server that lists two managed functions: one that is desired, but has another owner, and one that is
  no longer desired. The owner of the database is \<open>dbo\<close>.\<close>

definition demo_function_server :: server where
  "demo_function_server = ref_server quoted (\<lambda>h.
     case h of
       [] \<Rightarrow> [[''dbo'']]
     | [_] \<Rightarrow> [[''rep__run'', ''n numeric'', ''other''], [''rep__old'', [], ''old_owner'']]
     | _ \<Rightarrow> [[''n numeric'']])"

theorem SyncDatabaseFunctions_rejects_invalid_witness:
  "\<exists>e. SyncDatabaseFunctions demo_function_server id (\<lambda>_. ''00000000'') 0 ''rep''
       [demo_function, demo_function\<lparr>fn_Args := '') AS x''\<rparr>] [] = (Inl e, []) \<and> IsInvalid e"
proof -
  have "\<not> valid_function id (demo_function\<lparr>fn_Args := '') AS x''\<rparr>)" by code_simp
  then show ?thesis
    by (intro SyncDatabaseFunctions_rejects_invalid [of "demo_function\<lparr>fn_Args := '') AS x''\<rparr>"]) simp_all
qed

theorem SyncDatabaseFunctions_statements_witness:
  "sync_course demo_function_server (\<lambda>_. ''00000000'') 0 ''rep'' [demo_function\<lparr>fn_OwningRole := []\<rparr>]
     (snd (SyncDatabaseFunctions demo_function_server id (\<lambda>_. ''00000000'') 0 ''rep'' [demo_function\<lparr>fn_OwningRole := []\<rparr>] []))"
proof -
  let ?run = "SyncDatabaseFunctions demo_function_server id (\<lambda>_. ''00000000'') 0 ''rep'' [demo_function\<lparr>fn_OwningRole := []\<rparr>] []"
  have "fst ?run = Inr ()" by code_simp
  then have "?run = (Inr (), snd ?run)" by (simp add: prod_eq_iff)
  from SyncDatabaseFunctions_statements [OF this] show ?thesis by (auto simp only: append_Nil)
qed

text \<open>A successful \<open>DropManagedFunctions\<close> has dropped every managed function the server had
  listed, each in the name of its owner, and nothing else.\<close>

theorem DropManagedFunctions_drops_listed:
  assumes "DropManagedFunctions srv d roleName h = (Inr (), h')"
  shows "\<exists>current h1. managedFunctions srv d roleName h = (Inr current, h1) \<and>
    sent h' = sent h @ drop_statements srv current"
  using assms unfolding DropManagedFunctions_def
  by (elim onerr_InrE) (use scriptD [OF script_managedFunctions] scriptD [OF script_drop_functions] in fastforce)

end
