(* ===== verification/Custom_Grants.thy ===== *)
theory Custom_Grants
  imports Custom_Functions
begin

text \<open>
  \<open>pkg/postgres/customrole_grants.go\<close>: the table privileges and schema usage of a custom role in
  one database. \<open>SyncDatabaseGrants\<close> compares what the role holds with what is desired and
  sends only the difference, each statement in the name of the owner of the object.

  Go ranges over maps and sets in an unspecified order: the orders of one call are the
  parameter \<open>sync_orders\<close>, one rearrangement per loop.
\<close>

record CustomRoleGrant =
  gr_Schema :: string
  gr_Table :: string
  gr_Privileges :: "string list"

definition allowedTablePrivileges :: "string list" where
  "allowedTablePrivileges = [''SELECT'', ''INSERT'', ''UPDATE'', ''DELETE'', ''TRUNCATE'', ''REFERENCES'', ''TRIGGER'']"

definition validatePrivileges :: "(string \<Rightarrow> string) \<Rightarrow> string list \<Rightarrow> goerr option" where
  "validatePrivileges uni privs =
     (if privs = [] then NewInvalid (Some (Errorf ''privileges must not be empty'' []))
      else case find (\<lambda>p. ToUpper uni p \<notin> set allowedTablePrivileges) privs of
        Some p \<Rightarrow> NewInvalid (Some (Errorf ''invalid privilege %q: must be one of SELECT, INSERT, UPDATE, DELETE, TRUNCATE, REFERENCES, TRIGGER'' [p]))
      | None \<Rightarrow> None)"

fun validate_grants :: "(string \<Rightarrow> string) \<Rightarrow> CustomRoleGrant list \<Rightarrow> goerr option" where
  "validate_grants uni [] = None"
| "validate_grants uni (g # gs) =
     (case validatePrivileges uni (gr_Privileges g) of Some err \<Rightarrow> Some err | None \<Rightarrow> validate_grants uni gs)"

record grantKey =
  gk_schema :: string
  gk_table :: string
  gk_privilege :: string

type_synonym tableKey = "string \<times> string"

abbreviation gk_tableKey :: "grantKey \<Rightarrow> tableKey" where
  "gk_tableKey k \<equiv> (gk_schema k, gk_table k)"

section \<open>Reading the catalog\<close>

definition schema_owners_sql :: string where
  "schema_owners_sql = raw_lines
     [''SELECT n.nspname, r.rolname'',
      ''FROM pg_namespace n'',
      ''JOIN pg_roles r ON r.oid = n.nspowner'',
      ''WHERE n.nspname NOT LIKE 'pg_%' AND n.nspname <> 'information_schema'' @ [CHR 0x27]]"

definition schemaOwnerMap :: "server \<Rightarrow> db \<Rightarrow> (string, string) gomap act" where
  "schemaOwnerMap srv d =
     onerr (db_Query srv d schema_owners_sql []) (Wrapf ''query schema owners: %w'' [])
       (\<lambda>rs h. (map_sum id (foldl (\<lambda>owners (schema, owner). gm_put schema owner owners) [])
                  (scan_rows (Wrapf ''scan schema owner: %w'' []) id scan2 rs), h))"

definition table_owners_sql :: string where
  "table_owners_sql = raw_lines
     [''SELECT schemaname, tablename, tableowner FROM pg_tables'',
      ''WHERE schemaname NOT LIKE 'pg_%' AND schemaname <> 'information_schema'' @ [CHR 0x27]]"

definition put_table_owner ::
    "(string, (string, string) gomap) gomap \<Rightarrow> string \<times> string \<times> string \<Rightarrow> (string, (string, string) gomap) gomap" where
  "put_table_owner owners row =
     (case row of (schema, table, owner) \<Rightarrow>
        gm_put schema (gm_put table owner (case gm_get owners schema of None \<Rightarrow> [] | Some m \<Rightarrow> m)) owners)"

definition tableOwnerMap :: "server \<Rightarrow> db \<Rightarrow> (string, (string, string) gomap) gomap act" where
  "tableOwnerMap srv d =
     onerr (db_Query srv d table_owners_sql []) (Wrapf ''query table owners: %w'' [])
       (\<lambda>rs h. (map_sum id (foldl put_table_owner [])
                  (scan_rows (Wrapf ''scan table owner: %w'' []) id scan3 rs), h))"

text \<open>\<open>tblOwners[schema][table]\<close>: the empty string when there is no entry.\<close>

definition table_owner :: "(string, (string, string) gomap) gomap \<Rightarrow> tableKey \<Rightarrow> string" where
  "table_owner owners tk =
     (case gm_get owners (fst tk) of
        None \<Rightarrow> []
      | Some m \<Rightarrow> (case gm_get m (snd tk) of None \<Rightarrow> [] | Some owner \<Rightarrow> owner))"

definition table_grants_sql :: string where
  "table_grants_sql = raw_lines
     [''SELECT n.nspname, c.relname, a.privilege_type'',
      ''FROM pg_class c'',
      ''JOIN pg_namespace n ON n.oid = c.relnamespace,'',
      ''    aclexplode(c.relacl) AS a(grantor, grantee, privilege_type, is_grantable)'',
      ''WHERE a.grantee = (SELECT oid FROM pg_roles WHERE rolname = $1)'',
      ''  AND c.relkind = 'r'' @ [CHR 0x27],
      ''  AND n.nspname NOT LIKE 'pg_%'' @ [CHR 0x27],
      ''  AND n.nspname <> 'information_schema'' @ [CHR 0x27]]"

definition row_grant :: "string \<times> string \<times> string \<Rightarrow> grantKey" where
  "row_grant row = (case row of (s, t, p) \<Rightarrow> \<lparr>gk_schema = s, gk_table = t, gk_privilege = p\<rparr>)"

definition currentTableGrants :: "server \<Rightarrow> db \<Rightarrow> string \<Rightarrow> grantKey list act" where
  "currentTableGrants srv d roleName =
     onerr (db_Query srv d table_grants_sql [roleName]) (Wrapf ''query table grants for %s: %w'' [roleName])
       (\<lambda>rs h. (map_sum id (map row_grant) (scan_rows (Wrapf ''scan table grant: %w'' []) id scan3 rs), h))"

definition granted_schemas_sql :: string where
  "granted_schemas_sql = raw_lines
     [''SELECT DISTINCT n.nspname'',
      ''FROM pg_namespace n,'',
      ''     aclexplode(n.nspacl) AS a'',
      ''WHERE n.nspacl IS NOT NULL'',
      ''  AND a.grantee = (SELECT oid FROM pg_roles WHERE rolname = $1)'',
      ''  AND a.privilege_type = 'USAGE'' @ [CHR 0x27],
      ''  AND n.nspname NOT LIKE 'pg_%'' @ [CHR 0x27],
      ''  AND n.nspname <> 'information_schema'' @ [CHR 0x27]]"

definition currentGrantedSchemas :: "server \<Rightarrow> db \<Rightarrow> string \<Rightarrow> string list act" where
  "currentGrantedSchemas srv d roleName =
     onerr (db_Query srv d granted_schemas_sql [roleName]) (Wrapf ''query granted schemas for %s: %w'' [roleName])
       (\<lambda>rs h. (scan_rows (Wrapf ''scan schema name: %w'' []) id scan1 rs, h))"

section \<open>Expanding the desired grants\<close>

definition table_exists_sql :: string where
  "table_exists_sql = ''SELECT EXISTS(SELECT 1 FROM pg_tables WHERE schemaname = $1 AND tablename = $2)''"

definition schema_tables_sql :: string where
  "schema_tables_sql = raw_lines [''SELECT tablename FROM pg_tables'', ''WHERE schemaname = $1'', ''ORDER BY tablename'']"

abbreviation wildcard :: "string \<Rightarrow> bool" where
  "wildcard name \<equiv> name = [] \<or> name = ''*''"

definition query_bool :: "server \<Rightarrow> db \<Rightarrow> string \<Rightarrow> string list \<Rightarrow> bool act" where
  "query_bool srv d q as = onerr (db_QueryRow srv d q as) id (\<lambda>cols h. (scan_bool cols, h))"

definition resolveTables :: "server \<Rightarrow> db \<Rightarrow> string \<Rightarrow> string \<Rightarrow> string list act" where
  "resolveTables srv d schema table =
     (if \<not> wildcard table
      then onerr (query_bool srv d table_exists_sql [schema, table])
             (Wrapf ''check table %s.%s existence: %w'' [schema, table])
             (\<lambda>exists. ok (if exists then [table] else []))
      else onerr (db_Query srv d schema_tables_sql [schema]) (Wrapf ''query tables in schema %s: %w'' [schema])
             (\<lambda>rs h. (scan_rows (Wrapf ''scan table name: %w'' []) id scan1 rs, h)))"

definition schema_exists_sql :: string where
  "schema_exists_sql = ''SELECT EXISTS(SELECT 1 FROM pg_catalog.pg_namespace WHERE nspname = $1)''"

definition schemas_sql :: string where
  "schemas_sql = raw_lines
     [''SELECT nspname FROM pg_catalog.pg_namespace'',
      ''WHERE nspname NOT LIKE 'pg_%' AND nspname <> 'information_schema'' @ [CHR 0x27],
      ''ORDER BY nspname'']"

definition resolveSchemas :: "server \<Rightarrow> db \<Rightarrow> string \<Rightarrow> string list act" where
  "resolveSchemas srv d schema =
     (if \<not> wildcard schema
      then onerr (query_bool srv d schema_exists_sql [schema]) (Wrapf ''check schema %s existence: %w'' [schema])
             (\<lambda>exists. ok (if exists then [schema] else []))
      else onerr (db_Query srv d schemas_sql []) (Wrapf ''query schemas: %w'' [])
             (\<lambda>rs h. (scan_rows (Wrapf ''scan schema name: %w'' []) id scan1 rs, h)))"

text \<open>The three nested loops; skipping a schema or table that does not exist adds nothing.\<close>

definition expand_schema :: "server \<Rightarrow> (string \<Rightarrow> string) \<Rightarrow> db \<Rightarrow> CustomRoleGrant \<Rightarrow> string \<Rightarrow> grantKey list act" where
  "expand_schema srv uni d grant schema =
     onerr (resolveTables srv d schema (gr_Table grant)) (Wrapf ''resolve tables in schema %s: %w'' [schema])
       (\<lambda>tables. ok (concat (map (\<lambda>table. map
           (\<lambda>priv. \<lparr>gk_schema = schema, gk_table = table, gk_privilege = ToUpper uni priv\<rparr>)
           (gr_Privileges grant)) tables)))"

definition expand_grant :: "server \<Rightarrow> (string \<Rightarrow> string) \<Rightarrow> db \<Rightarrow> CustomRoleGrant \<Rightarrow> grantKey list act" where
  "expand_grant srv uni d grant =
     onerr (resolveSchemas srv d (gr_Schema grant)) (Wrapf ''resolve schemas: %w'' [])
       (\<lambda>schemas. collect (expand_schema srv uni d grant) schemas)"

definition expandGrants :: "server \<Rightarrow> (string \<Rightarrow> string) \<Rightarrow> db \<Rightarrow> CustomRoleGrant list \<Rightarrow> grantKey list act" where
  "expandGrants srv uni d grants = collect (expand_grant srv uni d) grants"

section \<open>SyncDatabaseGrants\<close>

definition grant_usage_sql :: "server \<Rightarrow> string \<Rightarrow> string \<Rightarrow> string" where
  "grant_usage_sql srv roleName schema =
     ''GRANT USAGE ON SCHEMA '' @ QuoteIdentifier srv schema @ '' TO '' @ QuoteIdentifier srv roleName"

definition revoke_usage_sql :: "server \<Rightarrow> string \<Rightarrow> string \<Rightarrow> string" where
  "revoke_usage_sql srv roleName schema =
     ''REVOKE USAGE ON SCHEMA '' @ QuoteIdentifier srv schema @ '' FROM '' @ QuoteIdentifier srv roleName"

definition grant_table_sql :: "server \<Rightarrow> string \<Rightarrow> tableKey \<Rightarrow> string list \<Rightarrow> string" where
  "grant_table_sql srv roleName tk privs =
     ''GRANT '' @ Join privs '', '' @ '' ON TABLE '' @ QuoteIdentifier srv (fst tk) @ ''.'' @ QuoteIdentifier srv (snd tk)
     @ '' TO '' @ QuoteIdentifier srv roleName"

definition revoke_table_sql :: "server \<Rightarrow> string \<Rightarrow> tableKey \<Rightarrow> string list \<Rightarrow> string" where
  "revoke_table_sql srv roleName tk privs =
     ''REVOKE '' @ Join privs '', '' @ '' ON TABLE '' @ QuoteIdentifier srv (fst tk) @ ''.'' @ QuoteIdentifier srv (snd tk)
     @ '' FROM '' @ QuoteIdentifier srv roleName"

text \<open>An error is skipped when it is a lack of privileges, and returned otherwise.\<close>

definition skip_denied :: "(goerr \<Rightarrow> goerr) \<Rightarrow> unit act \<Rightarrow> unit act" where
  "skip_denied wrap m h =
     (case m h of
        (Inl err, h') \<Rightarrow> if isPermissionDenied err then (Inr (), h') else (Inl (wrap err), h')
      | (Inr _, h') \<Rightarrow> (Inr (), h'))"

definition grant_usage :: "server \<Rightarrow> db \<Rightarrow> string \<Rightarrow> (string, string) gomap \<Rightarrow> string \<Rightarrow> unit act" where
  "grant_usage srv d roleName schemaOwners schema =
     (case gm_get schemaOwners schema of
        None \<Rightarrow> ok ()
      | Some owner \<Rightarrow> skip_denied (Wrapf ''grant usage on schema %s to %s: %w'' [schema, roleName])
                        (exec_as srv d owner (grant_usage_sql srv roleName schema)))"

definition revoke_usage :: "server \<Rightarrow> db \<Rightarrow> string \<Rightarrow> (string, string) gomap \<Rightarrow> string \<Rightarrow> unit act" where
  "revoke_usage srv d roleName schemaOwners schema =
     (case gm_get schemaOwners schema of
        None \<Rightarrow> ok ()
      | Some owner \<Rightarrow> skip_denied (Wrapf ''revoke usage on schema %s from %s: %w'' [schema, roleName])
                        (exec_as srv d owner (revoke_usage_sql srv roleName schema)))"

definition grant_table ::
    "server \<Rightarrow> db \<Rightarrow> string \<Rightarrow> (string, (string, string) gomap) gomap \<Rightarrow> tableKey \<times> string list \<Rightarrow> unit act" where
  "grant_table srv d roleName tblOwners entry =
     (case entry of (tk, privs) \<Rightarrow>
        let owner = table_owner tblOwners tk
        in if owner = [] then ok ()
           else skip_denied (Wrapf ''grant %s on %s.%s to %s: %w'' [Join privs '', '', fst tk, snd tk, roleName])
                  (exec_as srv d owner (grant_table_sql srv roleName tk privs)))"

definition revoke_table ::
    "server \<Rightarrow> db \<Rightarrow> string \<Rightarrow> (string, (string, string) gomap) gomap \<Rightarrow> tableKey \<times> string list \<Rightarrow> unit act" where
  "revoke_table srv d roleName tblOwners entry =
     (case entry of (tk, privs) \<Rightarrow>
        let owner = table_owner tblOwners tk
        in if owner = [] then ok ()
           else skip_denied (Wrapf ''revoke %s on %s.%s from %s: %w'' [Join privs '', '', fst tk, snd tk, roleName])
                  (exec_as srv d owner (revoke_table_sql srv roleName tk privs)))"

record sync_orders =
  so_schemas :: "string list \<Rightarrow> string list"
  so_desired :: "grantKey list \<Rightarrow> grantKey list"
  so_toGrant :: "(tableKey, string list) gomap \<Rightarrow> (tableKey, string list) gomap"
  so_current :: "grantKey list \<Rightarrow> grantKey list"
  so_toRevoke :: "(tableKey, string list) gomap \<Rightarrow> (tableKey, string list) gomap"

text \<open>Privileges of one set that are missing in the other, batched per table: the keys are visited
  in the order \<open>order\<close> of the set.\<close>

definition batch :: "(grantKey list \<Rightarrow> grantKey list) \<Rightarrow> grantKey list \<Rightarrow> grantKey list \<Rightarrow> (tableKey, string list) gomap" where
  "batch order keys other =
     gm_group gk_tableKey gk_privilege (filter (\<lambda>k. k \<notin> set other) (order (remdups keys)))"

definition apply_grants ::
    "server \<Rightarrow> sync_orders \<Rightarrow> db \<Rightarrow> string \<Rightarrow> grantKey list \<Rightarrow> grantKey list \<Rightarrow> string list
     \<Rightarrow> (string, string) gomap \<Rightarrow> (string, (string, string) gomap) gomap \<Rightarrow> unit act" where
  "apply_grants srv so d roleName current desired currentSchemas schemaOwners tblOwners =
     (let desiredSchemas = remdups (map gk_schema desired)
      in onerr (for_each (\<lambda>schema. if schema \<notin> set currentSchemas then grant_usage srv d roleName schemaOwners schema else ok ())
                  (so_schemas so desiredSchemas)) id
         (\<lambda>_. onerr (for_each (grant_table srv d roleName tblOwners) (so_toGrant so (batch (so_desired so) desired current))) id
         (\<lambda>_. onerr (for_each (revoke_table srv d roleName tblOwners) (so_toRevoke so (batch (so_current so) current desired))) id
         (\<lambda>_. for_each (\<lambda>schema. if schema \<notin> set desiredSchemas then revoke_usage srv d roleName schemaOwners schema else ok ())
                currentSchemas))))"

definition SyncDatabaseGrants ::
    "server \<Rightarrow> (string \<Rightarrow> string) \<Rightarrow> sync_orders \<Rightarrow> db \<Rightarrow> string \<Rightarrow> CustomRoleGrant list \<Rightarrow> unit act" where
  "SyncDatabaseGrants srv uni so d roleName grants =
     (case validate_grants uni grants of
        Some err \<Rightarrow> fail err
      | None \<Rightarrow>
          onerr (currentTableGrants srv d roleName) id
          (\<lambda>currentGrants. onerr (expandGrants srv uni d grants) id
          (\<lambda>desiredGrants. onerr (currentGrantedSchemas srv d roleName) id
          (\<lambda>currentSchemas. onerr (schemaOwnerMap srv d) id
          (\<lambda>schemaOwners. onerr (tableOwnerMap srv d) id
          (\<lambda>tblOwners. apply_grants srv so d roleName currentGrants desiredGrants currentSchemas schemaOwners tblOwners))))))"

section \<open>RevokeAllDatabaseGrants\<close>

definition revoke_all_sql :: "server \<Rightarrow> string \<Rightarrow> string \<Rightarrow> string" where
  "revoke_all_sql srv roleName schema =
     ''REVOKE ALL PRIVILEGES ON ALL TABLES IN SCHEMA '' @ QuoteIdentifier srv schema @ '' FROM '' @ QuoteIdentifier srv roleName"

text \<open>The set of owners of the tables of a schema and of the schema itself.\<close>

definition schema_owner_set ::
    "(string, string) gomap \<Rightarrow> (string, (string, string) gomap) gomap \<Rightarrow> string \<Rightarrow> string list" where
  "schema_owner_set schemaOwners tblOwners schema =
     remdups (map snd (case gm_get tblOwners schema of None \<Rightarrow> [] | Some m \<Rightarrow> m)
              @ (case gm_get schemaOwners schema of None \<Rightarrow> [] | Some owner \<Rightarrow> [owner]))"

definition revoke_schema ::
    "server \<Rightarrow> (string \<Rightarrow> string list \<Rightarrow> string list) \<Rightarrow> db \<Rightarrow> string \<Rightarrow> (string, string) gomap
     \<Rightarrow> (string, (string, string) gomap) gomap \<Rightarrow> string \<Rightarrow> unit act" where
  "revoke_schema srv order d roleName schemaOwners tblOwners schema =
     (let owners = schema_owner_set schemaOwners tblOwners schema
      in if owners = [] then ok ()
         else onerr (for_each
                (\<lambda>owner. skip_denied (Wrapf ''revoke table privileges on schema %s from %s: %w'' [schema, roleName])
                           (exec_as srv d owner (revoke_all_sql srv roleName schema)))
                (order schema owners)) id
              (\<lambda>_. case gm_get schemaOwners schema of
                     None \<Rightarrow> ok ()
                   | Some schemaOwner \<Rightarrow>
                       skip_denied (Wrapf ''revoke usage on schema %s from %s: %w'' [schema, roleName])
                         (exec_as srv d schemaOwner (revoke_usage_sql srv roleName schema))))"

definition RevokeAllDatabaseGrants ::
    "server \<Rightarrow> (string \<Rightarrow> string list \<Rightarrow> string list) \<Rightarrow> db \<Rightarrow> string \<Rightarrow> unit act" where
  "RevokeAllDatabaseGrants srv order d roleName =
     onerr (currentGrantedSchemas srv d roleName) id
     (\<lambda>schemas. onerr (schemaOwnerMap srv d) id
     (\<lambda>schemaOwners. onerr (tableOwnerMap srv d) id
     (\<lambda>tblOwners. for_each (revoke_schema srv order d roleName schemaOwners tblOwners) schemas)))"

end
