(* ===== verification/Grant_Laws.thy ===== *)
theory Grant_Laws
  imports Custom_Grants
begin

text \<open>
  What \<open>SyncDatabaseGrants\<close> achieves on a server that follows the laws of \<open>GRANT\<close> and
  \<open>REVOKE\<close>. \<open>usage h\<close> and \<open>tables h\<close> are the schemas the role may use and the table privileges
  it holds after the history \<open>h\<close>. They change only when a transaction with one of the four
  statements commits. A statement has its full effect when it is run in the name of the owner of the
  object; in the name of any other role PostgreSQL may do all, some or nothing of it. The laws
  are stated for the schemas in \<open>S\<close> and the privileges in \<open>K\<close>, which are those that the owners give and
  take: a privilege that somebody else granted would survive the owner's \<open>REVOKE\<close>.
\<close>

section \<open>The laws\<close>

definition quiet :: "event \<Rightarrow> bool" where
  "quiet ev =
     (case ev of
        EvQuery d q as r \<Rightarrow> True
      | EvBegin d r \<Rightarrow> True
      | EvTxExec t q r \<Rightarrow> True
      | EvRollback t r \<Rightarrow> True
      | EvCommit t r \<Rightarrow> r \<noteq> None
      | _ \<Rightarrow> False)"

definition table_keys :: "tableKey \<times> string list \<Rightarrow> grantKey set" where
  "table_keys entry =
     (case entry of (tk, privs) \<Rightarrow> (\<lambda>p. \<lparr>gk_schema = fst tk, gk_table = snd tk, gk_privilege = p\<rparr>) ` set privs)"

record catalog =
  cat_schema :: "string \<Rightarrow> string option"
  cat_table :: "tableKey \<Rightarrow> string option"

text \<open>The effect \<open>g\<close> of a statement \<open>q\<close> on an observed set.\<close>

definition changes ::
    "server \<Rightarrow> db \<Rightarrow> (history \<Rightarrow> 'a set) \<Rightarrow> string option \<Rightarrow> string \<Rightarrow> ('a set \<Rightarrow> 'a set) \<Rightarrow> bool" where
  "changes srv d f owner q g \<longleftrightarrow>
     (\<forall>h t w. (owner = Some w \<longrightarrow> f (h @ tx_events srv d t w q) = g (f h)) \<and>
        f h \<inter> g (f h) \<subseteq> f (h @ tx_events srv d t w q) \<and> f (h @ tx_events srv d t w q) \<subseteq> f h \<union> g (f h))"

definition usage_laws ::
    "server \<Rightarrow> db \<Rightarrow> catalog \<Rightarrow> string \<Rightarrow> string set \<Rightarrow> grantKey set \<Rightarrow> (history \<Rightarrow> string set) \<Rightarrow> bool" where
  "usage_laws srv d cat roleName S K usage \<longleftrightarrow>
     (\<forall>h ev. quiet ev \<longrightarrow> usage (h @ [ev]) = usage h) \<and>
     (\<forall>s\<in>S. changes srv d usage (cat_schema cat s) (grant_usage_sql srv roleName s) (\<lambda>U. U \<union> {s})) \<and>
     (\<forall>s\<in>S. changes srv d usage (cat_schema cat s) (revoke_usage_sql srv roleName s) (\<lambda>U. U - {s})) \<and>
     (\<forall>tk privs. privs \<noteq> [] \<and> distinct privs \<and> table_keys (tk, privs) \<subseteq> K \<longrightarrow>
        changes srv d usage (cat_table cat tk) (grant_table_sql srv roleName tk privs) id \<and>
        changes srv d usage (cat_table cat tk) (revoke_table_sql srv roleName tk privs) id)"

definition table_laws ::
    "server \<Rightarrow> db \<Rightarrow> catalog \<Rightarrow> string \<Rightarrow> string set \<Rightarrow> grantKey set \<Rightarrow> (history \<Rightarrow> grantKey set) \<Rightarrow> bool" where
  "table_laws srv d cat roleName S K tables \<longleftrightarrow>
     (\<forall>h ev. quiet ev \<longrightarrow> tables (h @ [ev]) = tables h) \<and>
     (\<forall>s\<in>S. changes srv d tables (cat_schema cat s) (grant_usage_sql srv roleName s) id) \<and>
     (\<forall>s\<in>S. changes srv d tables (cat_schema cat s) (revoke_usage_sql srv roleName s) id) \<and>
     (\<forall>tk privs. privs \<noteq> [] \<and> distinct privs \<and> table_keys (tk, privs) \<subseteq> K \<longrightarrow>
        changes srv d tables (cat_table cat tk) (grant_table_sql srv roleName tk privs) (\<lambda>P. P \<union> table_keys (tk, privs)) \<and>
        changes srv d tables (cat_table cat tk) (revoke_table_sql srv roleName tk privs) (\<lambda>P. P - table_keys (tk, privs)))"

text \<open>The queries of \<open>SyncDatabaseGrants\<close> read what the role holds and who owns the objects, and the
  expansion of the grants is \<open>D\<close> while the objects of the database do not change.\<close>

definition reads_acl ::
    "server \<Rightarrow> db \<Rightarrow> string \<Rightarrow> (history \<Rightarrow> string set) \<Rightarrow> (history \<Rightarrow> grantKey set) \<Rightarrow> bool" where
  "reads_acl srv d roleName usage tables \<longleftrightarrow>
     (\<forall>h ks h'. currentTableGrants srv d roleName h = (Inr ks, h') \<longrightarrow> set ks = tables h) \<and>
     (\<forall>h ss h'. currentGrantedSchemas srv d roleName h = (Inr ss, h') \<longrightarrow> set ss = usage h)"

definition expands_to :: "server \<Rightarrow> (string \<Rightarrow> string) \<Rightarrow> db \<Rightarrow> CustomRoleGrant list \<Rightarrow> grantKey set \<Rightarrow> bool" where
  "expands_to srv uni d grants D \<longleftrightarrow> (\<forall>h ks h'. expandGrants srv uni d grants h = (Inr ks, h') \<longrightarrow> set ks = D)"

definition reads_owners :: "server \<Rightarrow> db \<Rightarrow> catalog \<Rightarrow> string set \<Rightarrow> grantKey set \<Rightarrow> bool" where
  "reads_owners srv d cat S K \<longleftrightarrow>
     (\<forall>h m h'. schemaOwnerMap srv d h = (Inr m, h') \<longrightarrow> (\<forall>s\<in>S. gm_get m s = cat_schema cat s)) \<and>
     (\<forall>h m h'. tableOwnerMap srv d h = (Inr m, h') \<longrightarrow>
        (\<forall>k\<in>K. cat_table cat (gk_tableKey k) =
           (if table_owner m (gk_tableKey k) = [] then None else Some (table_owner m (gk_tableKey k)))))"

text \<open>Statements that \<open>SyncDatabaseGrants\<close> passes over between two histories: those of objects without an
  owner, and those that were refused in the name of the owner with the error for insufficient
  privileges.\<close>

definition refused :: "server \<Rightarrow> db \<Rightarrow> string \<Rightarrow> string \<Rightarrow> history \<Rightarrow> history \<Rightarrow> bool" where
  "refused srv d owner q h h' \<longleftrightarrow>
     (\<exists>h1 h2 e. prefix h h1 \<and> exec_as srv d owner q h1 = (Inl e, h2) \<and> isPermissionDenied e \<and> prefix h2 h')"

definition passed_over :: "server \<Rightarrow> db \<Rightarrow> string option \<Rightarrow> string \<Rightarrow> history \<Rightarrow> history \<Rightarrow> bool" where
  "passed_over srv d owner q h h' \<longleftrightarrow> (case owner of None \<Rightarrow> True | Some w \<Rightarrow> refused srv d w q h h')"

text \<open>The privileges and schemas that may differ from what is desired for that reason. The statement is
  the one that grants, or the one that revokes, the privilege, perhaps with others of its table.\<close>

definition tables_passed_over ::
    "(string \<Rightarrow> tableKey \<Rightarrow> string list \<Rightarrow> string) \<Rightarrow> server \<Rightarrow> db \<Rightarrow> catalog \<Rightarrow> string \<Rightarrow> history \<Rightarrow> history \<Rightarrow> grantKey set" where
  "tables_passed_over sql srv d cat roleName h h' =
     {k. \<exists>privs. gk_privilege k \<in> set privs \<and> passed_over srv d (cat_table cat (gk_tableKey k)) (sql roleName (gk_tableKey k) privs) h h'}"

definition schemas_passed_over ::
    "(string \<Rightarrow> string \<Rightarrow> string) \<Rightarrow> server \<Rightarrow> db \<Rightarrow> catalog \<Rightarrow> string \<Rightarrow> history \<Rightarrow> history \<Rightarrow> string set" where
  "schemas_passed_over sql srv d cat roleName h h' = {s. passed_over srv d (cat_schema cat s) (sql roleName s) h h'}"

definition good_orders :: "sync_orders \<Rightarrow> bool" where
  "good_orders so \<longleftrightarrow> is_range (so_schemas so) \<and> is_range (so_desired so) \<and> is_range (so_toGrant so) \<and>
     is_range (so_current so) \<and> is_range (so_toRevoke so)"

section \<open>The effect of one statement\<close>

lemma exec_as_effect:
  assumes "exec_as srv d owner q h = (r, h')"
  obtains (committed) t where "r = Inr ()" and "h' = h @ tx_events srv d t owner q"
  | (failed) e evs where "r = Inl e" and "h' = h @ evs" and "\<forall>ev\<in>set evs. quiet ev"
proof (cases rule: exec_as_cases [of srv d owner q h])
  case (commits t r')
  then show thesis
    using assms committed [of t] failed by (cases r') (auto simp: tx_events_def quiet_def)
qed (use assms failed in \<open>auto simp: quiet_def\<close>)

lemma quiet_keeps:
  assumes "\<forall>h ev. quiet ev \<longrightarrow> f (h @ [ev]) = f h" and "\<forall>ev\<in>set evs. quiet ev"
  shows "f (h @ evs) = f h"
  using assms(2)
proof (induction evs rule: rev_induct)
  case (snoc ev evs)
  then show ?case using assms(1) by (simp flip: append_assoc)
qed simp

lemma quiet_tx_events: "n < 4 \<Longrightarrow> \<forall>ev\<in>set (take n (tx_events srv d t owner q)). quiet ev"
  by (auto simp: tx_events_def quiet_def take_Cons' split: if_splits)

text \<open>A statement keeps a predicate of the observed set at every moment if its effect does.\<close>

lemma along_exec_as:
  assumes quiet: "\<forall>h ev. quiet ev \<longrightarrow> f (h @ [ev]) = f h" and "changes srv d f own q g"
    and I: "\<And>X Y. I X \<Longrightarrow> X \<inter> g X \<subseteq> Y \<Longrightarrow> Y \<subseteq> X \<union> g X \<Longrightarrow> I Y"
  shows "along (\<lambda>h. I (f h)) (exec_as srv d owner q)"
proof (rule along_events)
  fix h
  obtain r h' where run: "exec_as srv d owner q h = (r, h')" by (cases "exec_as srv d owner q h")
  then show "\<exists>evs. snd (exec_as srv d owner q h) = h @ evs \<and>
      (I (f h) \<longrightarrow> (\<forall>n \<le> length evs. I (f (h @ take n evs))))"
  proof (cases rule: exec_as_effect)
    case (committed t)
    let ?evs = "tx_events srv d t owner q"
    have full: "I (f (h @ ?evs))" if "I (f h)"
      using I [OF that, of "f (h @ ?evs)"] assms(2) unfolding changes_def by simp
    have "I (f (h @ take n ?evs))" if "I (f h)" "n \<le> length ?evs" for n
    proof (cases "n < 4")
      case True
      then show ?thesis using quiet_keeps [OF quiet quiet_tx_events] that(1) by simp
    next
      case False
      moreover have "length ?evs = 4" by (simp add: tx_events_def)
      ultimately show ?thesis using full that by simp
    qed
    with committed run show ?thesis by auto
  next
    case (failed e evs)
    have "f (h @ take n evs) = f h" for n
      by (rule quiet_keeps [OF quiet]) (use failed(3) in \<open>auto dest: in_set_takeD\<close>)
    with failed run show ?thesis by auto
  qed
qed

lemma along_skip_denied [along_intros]:
  assumes "along J m"
  shows "along J (skip_denied w m)"
proof -
  have "snd (skip_denied w m h) = snd (m h)" for h
    by (auto simp: skip_denied_def split: prod.split sum.split)
  then show ?thesis using assms by (simp add: along_def appends_def)
qed

text \<open>A statement that is reported as done has been committed, or it was refused.\<close>

lemma skip_denied_exec_as:
  assumes "skip_denied w (exec_as srv d owner q) h = (Inr u, h')" and "\<forall>h ev. quiet ev \<longrightarrow> f (h @ [ev]) = f h"
    and "prefix h0 h" "prefix h' hE"
  obtains (ran) t where "h' = h @ tx_events srv d t owner q"
  | (skipped) "refused srv d owner q h0 hE" and "f h' = f h"
proof -
  obtain r h1 where run: "exec_as srv d owner q h = (r, h1)" by (cases "exec_as srv d owner q h")
  then show thesis
  proof (cases rule: exec_as_effect)
    case (committed t)
    then show ?thesis using run assms(1) by (intro ran [of t]) (simp add: skip_denied_def)
  next
    case (failed e evs)
    then have "isPermissionDenied e" and h': "h' = h1"
      using run assms(1) by (auto simp: skip_denied_def split: if_splits)
    then have "refused srv d owner q h0 hE" unfolding refused_def using run failed(1) assms(3,4) by blast
    moreover have "f h' = f h" using quiet_keeps [OF assms(2) failed(3)] failed(2) h' by simp
    ultimately show ?thesis by (rule skipped)
  qed
qed

lemma skip_denied_grows:
  assumes "skip_denied w (exec_as srv d owner q) h = (Inr u, h')" "\<forall>h ev. quiet ev \<longrightarrow> f (h @ [ev]) = f h"
    and "prefix h0 h" "prefix h' hE" "changes srv d f (Some owner) q (\<lambda>X. X \<union> G)"
    and "refused srv d owner q h0 hE \<Longrightarrow> G \<subseteq> X"
  shows "f h \<union> (G - X) \<subseteq> f h' \<and> f h' \<subseteq> f h \<union> G"
  using assms(1-4) by (rule skip_denied_exec_as) (use assms(5,6) in \<open>auto simp: changes_def\<close>)

lemma skip_denied_shrinks:
  assumes "skip_denied w (exec_as srv d owner q) h = (Inr u, h')" "\<forall>h ev. quiet ev \<longrightarrow> f (h @ [ev]) = f h"
    and "prefix h0 h" "prefix h' hE" "changes srv d f (Some owner) q (\<lambda>X. X - G)"
    and "refused srv d owner q h0 hE \<Longrightarrow> G \<subseteq> Y"
  shows "f h - G \<subseteq> f h' \<and> f h' \<subseteq> f h - (G - Y)"
  using assms(1-4) by (rule skip_denied_exec_as) (use assms(5,6) in \<open>auto simp: changes_def\<close>)

lemma changes_id: "changes srv d f own q id \<Longrightarrow> f (h @ tx_events srv d t w q) = f h"
  unfolding changes_def by (metis Int_absorb Un_absorb id_apply subset_antisym)

lemma skip_denied_keeps:
  assumes "skip_denied w (exec_as srv d owner q) h = (Inr u, h')" "\<forall>h ev. quiet ev \<longrightarrow> f (h @ [ev]) = f h"
    and "changes srv d f own q id"
  shows "f h' = f h"
  using assms(1,2) prefix_order.refl prefix_order.refl
  by (rule skip_denied_exec_as) (simp_all add: changes_id [OF assms(3)])

text \<open>Loops over statements, some of which may have been passed over.\<close>

lemma for_each_prefix: "for_each b xs h = (r, h') \<Longrightarrow> (\<And>x. appends (b x)) \<Longrightarrow> prefix h h'"
  using appendsD [OF appends_for_each] by (metis prefixI)

lemma for_each_grows:
  assumes "for_each b xs h = (Inr u, h')" and "\<And>x. appends (b x)" and "prefix h0 h" "prefix h' hE"
    and "\<And>x h1 h2 v. x \<in> set xs \<Longrightarrow> prefix h0 h1 \<Longrightarrow> prefix h2 hE \<Longrightarrow> b x h1 = (Inr v, h2) \<Longrightarrow>
      f h1 \<union> (G x - X) \<subseteq> f h2 \<and> f h2 \<subseteq> f h1 \<union> G x"
  shows "f h \<union> ((\<Union>x\<in>set xs. G x) - X) \<subseteq> f h' \<and> f h' \<subseteq> f h \<union> (\<Union>x\<in>set xs. G x)"
  using assms(1,3,5)
proof (induction xs arbitrary: h)
  case (Cons x xs)
  from Cons.prems(1) obtain h1 where x: "b x h = (Inr (), h1)" and xs: "for_each b xs h1 = (Inr u, h')"
    by (auto elim!: onerr_InrE)
  have "prefix h h1" "prefix h1 h'" using appendsD [OF assms(2) x] for_each_prefix [OF xs assms(2)] by auto
  then have p: "prefix h0 h1" "prefix h1 hE" using Cons.prems(2) assms(4) by (auto intro: prefix_order.trans)
  have "f h \<union> (G x - X) \<subseteq> f h1 \<and> f h1 \<subseteq> f h \<union> G x" using Cons.prems(3) [of x h h1] x p Cons.prems(2) by simp
  moreover have "f h1 \<union> ((\<Union>x\<in>set xs. G x) - X) \<subseteq> f h' \<and> f h' \<subseteq> f h1 \<union> (\<Union>x\<in>set xs. G x)"
    by (rule Cons.IH [OF xs p(1)], rule Cons.prems(3)) simp_all
  ultimately show ?case by auto
qed simp

lemma for_each_shrinks:
  assumes "for_each b xs h = (Inr u, h')" and "\<And>x. appends (b x)" and "prefix h0 h" "prefix h' hE"
    and "\<And>x h1 h2 v. x \<in> set xs \<Longrightarrow> prefix h0 h1 \<Longrightarrow> prefix h2 hE \<Longrightarrow> b x h1 = (Inr v, h2) \<Longrightarrow>
      f h1 - G x \<subseteq> f h2 \<and> f h2 \<subseteq> f h1 - (G x - Y)"
  shows "f h - (\<Union>x\<in>set xs. G x) \<subseteq> f h' \<and> f h' \<subseteq> f h - ((\<Union>x\<in>set xs. G x) - Y)"
proof -
  have "- f h \<union> ((\<Union>x\<in>set xs. G x) - Y) \<subseteq> - f h' \<and> - f h' \<subseteq> - f h \<union> (\<Union>x\<in>set xs. G x)"
    by (rule for_each_grows [OF assms(1-4), of "\<lambda>h. - f h" G Y]) (use assms(5) in fastforce)
  then show ?thesis by auto
qed

lemma for_each_keeps:
  assumes "for_each b xs h = (Inr u, h')" and "\<And>x h1 h2 v. x \<in> set xs \<Longrightarrow> b x h1 = (Inr v, h2) \<Longrightarrow> f h2 = f h1"
  shows "f h' = f h"
  using assms
proof (induction xs arbitrary: h)
  case (Cons x xs)
  from Cons.prems(1) obtain h1 where "b x h = (Inr (), h1)" "for_each b xs h1 = (Inr u, h')" by (auto elim!: onerr_InrE)
  moreover from this have "f h' = f h1" by (intro Cons.IH) (use Cons.prems(2) in auto)
  ultimately show ?case using Cons.prems(2) [of x h] by simp
qed simp

section \<open>Batches\<close>

text \<open>The keys of the two batches.\<close>

definition missing_keys :: "grantKey list \<Rightarrow> grantKey list \<Rightarrow> grantKey list" where
  "missing_keys other keys = filter (\<lambda>k. k \<notin> set other) (remdups keys)"

interpretation grants: diff_sync missing_keys "\<lambda>current desired. missing_keys desired current" "\<lambda>_. True"
  by unfold_locales (auto simp: missing_keys_def)

text \<open>The schemas, likewise.\<close>

interpretation schemas: diff_sync "\<lambda>current desired. filter (\<lambda>s. s \<notin> set current) desired"
    "\<lambda>current desired. filter (\<lambda>s. s \<notin> set desired) current" "\<lambda>_ :: string. True"
  by unfold_locales auto

lemma grantKey_eta:
  "\<lparr>gk_schema = gk_schema k, gk_table = gk_table k, gk_privilege = gk_privilege k\<rparr> = (k :: grantKey)"
  by simp

lemma batch_entry:
  assumes "is_range order" and "entry \<in> set (batch order keys other)"
  shows "snd entry \<noteq> [] \<and> distinct (snd entry) \<and>
    table_keys entry = {k \<in> set (missing_keys other keys). gk_tableKey k = fst entry} \<and>
    fst entry \<in> gk_tableKey ` set (missing_keys other keys)"
proof -
  obtain tk privs where e: "entry = (tk, privs)" by (cases entry)
  let ?ks = "filter (\<lambda>k. k \<notin> set other) (order (remdups keys))"
  have set: "set ?ks = set (missing_keys other keys)"
    using is_range_set [OF assms(1)] by (auto simp: missing_keys_def)
  have "mset (order (remdups keys)) = mset (remdups keys)" using assms(1) by (simp add: is_range_def)
  then have dist: "distinct ?ks" using mset_eq_imp_distinct_iff distinct_remdups distinct_filter by metis
  have tk: "tk \<in> gk_tableKey ` set ?ks" and privs: "privs = map gk_privilege (filter (\<lambda>k. gk_tableKey k = tk) ?ks)"
    using assms(2) e by (auto simp: batch_def set_gm_group)
  have inj: "inj_on gk_privilege (set (filter (\<lambda>k. gk_tableKey k = tk) ?ks))"
    by (rule inj_onI) (auto intro: grantKey.equality)
  have "distinct (filter (\<lambda>k. gk_tableKey k = tk) ?ks)" using dist by (rule distinct_filter)
  then have "distinct privs" using inj unfolding privs by (simp only: distinct_map simp_thms)
  moreover have "privs \<noteq> []" using tk by (auto simp: privs filter_empty_conv)
  moreover have "table_keys entry = {k \<in> set ?ks. gk_tableKey k = tk}"
    by (auto simp: e privs table_keys_def image_iff grantKey_eta intro!: grantKey.equality bexI)
  ultimately show ?thesis using tk unfolding set by (simp add: e)
qed

lemma batch_keys:
  assumes "is_range order" and "is_range order'"
  shows "(\<Union>entry\<in>set (order' (batch order keys other)). table_keys entry) = set (missing_keys other keys)"
proof -
  have "set (order' (batch order keys other)) = set (batch order keys other)"
    by (rule is_range_set [OF assms(2)])
  moreover have "fst ` set (batch order keys other) = gk_tableKey ` set (missing_keys other keys)"
    using is_range_set [OF assms(1)] by (force simp: batch_def set_gm_group missing_keys_def image_iff)
  moreover have keys: "table_keys e = {k \<in> set (missing_keys other keys). gk_tableKey k = fst e}"
    if "e \<in> set (batch order keys other)" for e
    using batch_entry [OF assms(1) that] by blast
  moreover have "(\<Union>e\<in>B. {k \<in> M. gk_tableKey k = fst e}) = M"
    if "fst ` B = gk_tableKey ` M" for M and B :: "(tableKey \<times> string list) set"
    using that by (fastforce simp: set_eq_iff image_iff)
  ultimately show ?thesis by (simp only: SUP_cong [OF refl keys])
qed

section \<open>The effect of the loops\<close>

abbreviation good_entry :: "grantKey set \<Rightarrow> tableKey \<times> string list \<Rightarrow> bool" where
  "good_entry K e \<equiv> snd e \<noteq> [] \<and> distinct (snd e) \<and> table_keys e \<subseteq> K"

lemma appends_skip_denied [appends_intros]: "appends m \<Longrightarrow> appends (skip_denied w m)"
proof -
  have "snd (skip_denied w m h) = snd (m h)" for h by (auto simp: skip_denied_def split: prod.split sum.split)
  then show "appends m \<Longrightarrow> appends (skip_denied w m)" by (simp add: appends_def)
qed

lemma appends_changes [appends_intros]:
  "appends (grant_usage srv d roleName owners s)" "appends (revoke_usage srv d roleName owners s)"
  "appends (grant_table srv d roleName tblOwners e)" "appends (revoke_table srv d roleName tblOwners e)"
  unfolding grant_usage_def revoke_usage_def grant_table_def revoke_table_def Let_def
  by (auto split: option.split prod.split intro!: appends_intros)

lemma usage_statement:
  assumes "usage_laws srv d cat roleName S K usage" "s \<in> S" "gm_get owners s = cat_schema cat s" "prefix h0 h" "prefix h' hE"
  shows "grant_usage srv d roleName owners s h = (Inr u, h') \<Longrightarrow>
      usage h \<union> ({s} - schemas_passed_over (grant_usage_sql srv) srv d cat roleName h0 hE) \<subseteq> usage h' \<and> usage h' \<subseteq> usage h \<union> {s}"
    and "revoke_usage srv d roleName owners s h = (Inr u, h') \<Longrightarrow>
      usage h - {s} \<subseteq> usage h' \<and> usage h' \<subseteq> usage h - ({s} - schemas_passed_over (revoke_usage_sql srv) srv d cat roleName h0 hE)"
proof -
  have q: "\<forall>h ev. quiet ev \<longrightarrow> usage (h @ [ev]) = usage h" using assms(1) by (simp add: usage_laws_def)
  have c: "changes srv d usage (cat_schema cat s) (grant_usage_sql srv roleName s) (\<lambda>U. U \<union> {s})"
    "changes srv d usage (cat_schema cat s) (revoke_usage_sql srv roleName s) (\<lambda>U. U - {s})"
    using assms(1,2) by (simp_all add: usage_laws_def)
  show "grant_usage srv d roleName owners s h = (Inr u, h') \<Longrightarrow>
      usage h \<union> ({s} - schemas_passed_over (grant_usage_sql srv) srv d cat roleName h0 hE) \<subseteq> usage h' \<and> usage h' \<subseteq> usage h \<union> {s}"
  proof (cases "cat_schema cat s")
    case (Some w)
    assume "grant_usage srv d roleName owners s h = (Inr u, h')"
    then show ?thesis using Some assms(3)
      by (intro skip_denied_grows [OF _ q assms(4,5) c(1) [unfolded Some]]) (auto simp: grant_usage_def schemas_passed_over_def passed_over_def)
  qed (use assms(3) in \<open>auto simp: grant_usage_def schemas_passed_over_def passed_over_def\<close>)
  show "revoke_usage srv d roleName owners s h = (Inr u, h') \<Longrightarrow>
      usage h - {s} \<subseteq> usage h' \<and> usage h' \<subseteq> usage h - ({s} - schemas_passed_over (revoke_usage_sql srv) srv d cat roleName h0 hE)"
  proof (cases "cat_schema cat s")
    case (Some w)
    assume "revoke_usage srv d roleName owners s h = (Inr u, h')"
    then show ?thesis using Some assms(3)
      by (intro skip_denied_shrinks [OF _ q assms(4,5) c(2) [unfolded Some]]) (auto simp: revoke_usage_def schemas_passed_over_def passed_over_def)
  qed (use assms(3) in \<open>auto simp: revoke_usage_def schemas_passed_over_def passed_over_def\<close>)
qed

lemma table_statement:
  assumes tl: "table_laws srv d cat roleName S K tables" and e: "good_entry K e"
    and own: "cat_table cat (fst e) = (if table_owner owners (fst e) = [] then None else Some (table_owner owners (fst e)))"
    and p: "prefix h0 h" "prefix h' hE"
  shows "grant_table srv d roleName owners e h = (Inr u, h') \<Longrightarrow>
      tables h \<union> (table_keys e - tables_passed_over (grant_table_sql srv) srv d cat roleName h0 hE) \<subseteq> tables h'
      \<and> tables h' \<subseteq> tables h \<union> table_keys e"
    and "revoke_table srv d roleName owners e h = (Inr u, h') \<Longrightarrow>
      tables h - table_keys e \<subseteq> tables h'
      \<and> tables h' \<subseteq> tables h - (table_keys e - tables_passed_over (revoke_table_sql srv) srv d cat roleName h0 hE)"
proof -
  obtain tk privs where e': "e = (tk, privs)" by (cases e)
  let ?w = "table_owner owners tk"
  have q: "\<forall>h ev. quiet ev \<longrightarrow> tables (h @ [ev]) = tables h" using tl by (simp add: table_laws_def)
  have c: "changes srv d tables (cat_table cat tk) (grant_table_sql srv roleName tk privs) (\<lambda>P. P \<union> table_keys e)"
    "changes srv d tables (cat_table cat tk) (revoke_table_sql srv roleName tk privs) (\<lambda>P. P - table_keys e)"
    using tl e by (simp_all add: table_laws_def e' del: split_paired_All)
  have over: "table_keys e \<subseteq> tables_passed_over sql srv d cat roleName h0 hE"
    if "passed_over srv d (cat_table cat tk) (sql roleName tk privs) h0 hE" for sql
    using that by (auto simp: tables_passed_over_def table_keys_def e')
  show "tables h \<union> (table_keys e - tables_passed_over (grant_table_sql srv) srv d cat roleName h0 hE) \<subseteq> tables h'
      \<and> tables h' \<subseteq> tables h \<union> table_keys e" if run: "grant_table srv d roleName owners e h = (Inr u, h')"
  proof (cases "?w = []")
    case True
    then show ?thesis using run own over by (auto simp: grant_table_def e' passed_over_def)
  next
    case False
    then have w: "cat_table cat tk = Some ?w" using own by (simp add: e')
    show ?thesis
      using run False over [unfolded w] by (intro skip_denied_grows [OF _ q p c(1) [unfolded w]]) (auto simp: grant_table_def e' passed_over_def)
  qed
  show "tables h - table_keys e \<subseteq> tables h'
      \<and> tables h' \<subseteq> tables h - (table_keys e - tables_passed_over (revoke_table_sql srv) srv d cat roleName h0 hE)"
    if run: "revoke_table srv d roleName owners e h = (Inr u, h')"
  proof (cases "?w = []")
    case True
    then show ?thesis using run own over by (auto simp: revoke_table_def e' passed_over_def)
  next
    case False
    then have w: "cat_table cat tk = Some ?w" using own by (simp add: e')
    show ?thesis
      using run False over [unfolded w] by (intro skip_denied_shrinks [OF _ q p c(2) [unfolded w]]) (auto simp: revoke_table_def e' passed_over_def)
  qed
qed

text \<open>Each of the four statements leaves the other set alone.\<close>

lemma statements_keep:
  assumes ul: "usage_laws srv d cat roleName S K usage" and tl: "table_laws srv d cat roleName S K tables"
  shows "s \<in> S \<Longrightarrow> grant_usage srv d roleName owners s h = (Inr u, h') \<Longrightarrow> tables h' = tables h"
    and "s \<in> S \<Longrightarrow> revoke_usage srv d roleName owners s h = (Inr u, h') \<Longrightarrow> tables h' = tables h"
    and "good_entry K e \<Longrightarrow> grant_table srv d roleName tblOwners e h = (Inr u, h') \<Longrightarrow> usage h' = usage h"
    and "good_entry K e \<Longrightarrow> revoke_table srv d roleName tblOwners e h = (Inr u, h') \<Longrightarrow> usage h' = usage h"
proof -
  have q: "\<forall>h ev. quiet ev \<longrightarrow> usage (h @ [ev]) = usage h" "\<forall>h ev. quiet ev \<longrightarrow> tables (h @ [ev]) = tables h"
    using ul tl by (simp_all add: usage_laws_def table_laws_def)
  obtain tk privs where e': "e = (tk, privs)" by (cases e)
  have "changes srv d tables (cat_schema cat s) (grant_usage_sql srv roleName s) id"
    "changes srv d tables (cat_schema cat s) (revoke_usage_sql srv roleName s) id" if "s \<in> S"
    using that tl by (simp_all add: table_laws_def)
  note keeps = skip_denied_keeps [OF _ q(2) this(1)] skip_denied_keeps [OF _ q(2) this(2)]
  show "s \<in> S \<Longrightarrow> grant_usage srv d roleName owners s h = (Inr u, h') \<Longrightarrow> tables h' = tables h"
    "s \<in> S \<Longrightarrow> revoke_usage srv d roleName owners s h = (Inr u, h') \<Longrightarrow> tables h' = tables h"
    using keeps by (auto simp: grant_usage_def revoke_usage_def split: option.splits)
  have "changes srv d usage (cat_table cat tk) (grant_table_sql srv roleName tk privs) id"
    "changes srv d usage (cat_table cat tk) (revoke_table_sql srv roleName tk privs) id" if "good_entry K e"
    using that ul by (simp_all add: usage_laws_def e' del: split_paired_All)
  note keeps = skip_denied_keeps [OF _ q(1) this(1)] skip_denied_keeps [OF _ q(1) this(2)]
  show "good_entry K e \<Longrightarrow> grant_table srv d roleName tblOwners e h = (Inr u, h') \<Longrightarrow> usage h' = usage h"
    "good_entry K e \<Longrightarrow> revoke_table srv d roleName tblOwners e h = (Inr u, h') \<Longrightarrow> usage h' = usage h"
    using keeps by (auto simp: grant_table_def revoke_table_def e' Let_def split: if_splits)
qed

lemma batch_good_entry:
  assumes "is_range order" "is_range order'" "set keys \<subseteq> K" "\<forall>k\<in>K. P (gk_tableKey k)"
    and "e \<in> set (order' (batch order keys other))"
  shows "good_entry K e \<and> P (fst e)"
proof -
  have "e \<in> set (batch order keys other)" using assms(2,5) by (simp add: is_range_set)
  note b = batch_entry [OF assms(1) this]
  have "set (missing_keys other keys) \<subseteq> K" using assms(3) by (auto simp: missing_keys_def)
  with b assms(4) show ?thesis by auto
qed

abbreviation agree_except :: "'a set \<Rightarrow> 'a set \<Rightarrow> 'a set \<Rightarrow> 'a set \<Rightarrow> bool" where
  "agree_except missing extra X D \<equiv> D - missing \<subseteq> X \<and> X \<subseteq> D \<union> extra"

lemma apply_grants_exact:
  assumes ul: "usage_laws srv d cat roleName S K usage"
    and tl: "table_laws srv d cat roleName S K tables" and so: "good_orders so"
    and K: "set current \<subseteq> K" "set desired \<subseteq> K" and S: "set currentSchemas \<subseteq> S" "gk_schema ` set desired \<subseteq> S"
    and owners: "\<forall>s\<in>S. gm_get schemaOwners s = cat_schema cat s"
      "\<forall>k\<in>K. cat_table cat (gk_tableKey k) =
        (if table_owner tblOwners (gk_tableKey k) = [] then None else Some (table_owner tblOwners (gk_tableKey k)))"
    and start: "tables h = set current" "usage h = set currentSchemas" and h0: "prefix h0 h"
    and run: "apply_grants srv so d roleName current desired currentSchemas schemaOwners tblOwners h = (Inr (), h')"
  shows "agree_except (tables_passed_over (grant_table_sql srv) srv d cat roleName h0 h')
      (tables_passed_over (revoke_table_sql srv) srv d cat roleName h0 h') (tables h') (set desired)
    \<and> agree_except (schemas_passed_over (grant_usage_sql srv) srv d cat roleName h0 h')
      (schemas_passed_over (revoke_usage_sql srv) srv d cat roleName h0 h') (usage h') (gk_schema ` set desired)"
proof -
  let ?DS = "remdups (map gk_schema desired)"
  let ?A = "filter (\<lambda>s. s \<notin> set currentSchemas) (so_schemas so ?DS)"
  let ?G = "so_toGrant so (batch (so_desired so) desired current)"
  let ?R = "so_toRevoke so (batch (so_current so) current desired)"
  let ?B = "filter (\<lambda>s. s \<notin> set ?DS) currentSchemas"
  have rng: "is_range (so_schemas so)" "is_range (so_desired so)" "is_range (so_toGrant so)"
    "is_range (so_current so)" "is_range (so_toRevoke so)" using so by (auto simp: good_orders_def)
  obtain h1 h2 h3 where
    1: "for_each (grant_usage srv d roleName schemaOwners) ?A h = (Inr (), h1)"
    and 2: "for_each (grant_table srv d roleName tblOwners) ?G h1 = (Inr (), h2)"
    and 3: "for_each (revoke_table srv d roleName tblOwners) ?R h2 = (Inr (), h3)"
    and 4: "for_each (revoke_usage srv d roleName schemaOwners) ?B h3 = (Inr (), h')"
    using run unfolding apply_grants_def Let_def for_each_filter by (auto elim!: onerr_InrE)
  have "prefix h h1" "prefix h1 h2" "prefix h2 h3" "prefix h3 h'"
    by (rule for_each_prefix [OF 1] for_each_prefix [OF 2] for_each_prefix [OF 3] for_each_prefix [OF 4], rule appends_changes)+
  then have p: "prefix h0 h" "prefix h0 h1" "prefix h0 h2" "prefix h0 h3" "prefix h1 h'" "prefix h2 h'" "prefix h3 h'"
    using h0 by (auto intro: prefix_order.trans)
  have DS: "set (so_schemas so ?DS) = gk_schema ` set desired" by (simp add: is_range_set [OF rng(1)])
  have A: "s \<in> S \<and> gm_get schemaOwners s = cat_schema cat s" if "s \<in> set ?A" for s using that S(2) owners(1) DS by auto
  have B: "s \<in> S \<and> gm_get schemaOwners s = cat_schema cat s" if "s \<in> set ?B" for s using that S(1) owners(1) by auto
  note G = batch_good_entry [OF rng(2,3) K(2) owners(2)] and R = batch_good_entry [OF rng(4,5) K(1) owners(2)]
  note keep = statements_keep [OF ul tl]
  have t1: "tables h1 = tables h" by (rule for_each_keeps [OF 1]) (use keep(1) A in blast)
  have t2: "tables h1 \<union> ((\<Union>e\<in>set ?G. table_keys e) - tables_passed_over (grant_table_sql srv) srv d cat roleName h0 h') \<subseteq> tables h2
      \<and> tables h2 \<subseteq> tables h1 \<union> (\<Union>e\<in>set ?G. table_keys e)"
    by (rule for_each_grows [OF 2 appends_changes(3) p(2,6)]) (use table_statement(1) [OF tl] G in blast)
  have t3: "tables h2 - (\<Union>e\<in>set ?R. table_keys e) \<subseteq> tables h3
      \<and> tables h3 \<subseteq> tables h2 - ((\<Union>e\<in>set ?R. table_keys e) - tables_passed_over (revoke_table_sql srv) srv d cat roleName h0 h')"
    by (rule for_each_shrinks [OF 3 appends_changes(4) p(3,7)]) (use table_statement(2) [OF tl] R in blast)
  have t4: "tables h' = tables h3" by (rule for_each_keeps [OF 4]) (use keep(2) B in blast)
  have u1: "usage h \<union> ((\<Union>s\<in>set ?A. {s}) - schemas_passed_over (grant_usage_sql srv) srv d cat roleName h0 h') \<subseteq> usage h1
      \<and> usage h1 \<subseteq> usage h \<union> (\<Union>s\<in>set ?A. {s})"
    by (rule for_each_grows [OF 1 appends_changes(1) p(1,5)]) (use usage_statement(1) [OF ul] A in blast)
  have u2: "usage h2 = usage h1" by (rule for_each_keeps [OF 2]) (use keep(3) G in blast)
  have u3: "usage h3 = usage h2" by (rule for_each_keeps [OF 3]) (use keep(4) R in blast)
  have u4: "usage h3 - (\<Union>s\<in>set ?B. {s}) \<subseteq> usage h'
      \<and> usage h' \<subseteq> usage h3 - ((\<Union>s\<in>set ?B. {s}) - schemas_passed_over (revoke_usage_sql srv) srv d cat roleName h0 h')"
    by (rule for_each_shrinks [OF 4 appends_changes(2) p(4) prefix_order.refl]) (use usage_statement(2) [OF ul] B in blast)
  note keys = batch_keys [OF rng(2,3)] batch_keys [OF rng(4,5)]
  have sets: "(\<Union>s\<in>set ?A. {s}) = set (filter (\<lambda>s. s \<notin> set currentSchemas) ?DS)"
    "(\<Union>s\<in>set ?B. {s}) = set (filter (\<lambda>s. s \<notin> set ?DS) currentSchemas)" using DS by auto
  show ?thesis
    using grants.add_then_remove_except [OF t2 [unfolded t1 keys start] t3 [unfolded keys]]
      schemas.add_then_remove_except [OF u1 [unfolded sets start] u4 [unfolded sets u3 u2]] unfolding t4 by auto
qed

section \<open>Reading\<close>

named_theorems quietly_intros "operations that change nothing"

definition quietly :: "'a act \<Rightarrow> bool" where
  "quietly m \<longleftrightarrow> (\<forall>h. \<exists>evs. snd (m h) = h @ evs \<and> (\<forall>ev\<in>set evs. quiet ev))"

lemma quietly_keeps:
  assumes "quietly m" and "\<forall>h ev. quiet ev \<longrightarrow> f (h @ [ev]) = f h" and "m h = (r, h')"
  shows "f h' = f h"
  using assms quiet_keeps [of f] unfolding quietly_def by (metis snd_conv)

lemma quietly_prefix: "quietly m \<Longrightarrow> m h = (r, h') \<Longrightarrow> prefix h h'"
  unfolding quietly_def prefix_def by (metis snd_conv)

lemma quietly_ok [quietly_intros]: "quietly (\<lambda>h. (r, h))"
  by (simp add: quietly_def)

lemma quietly_Query [quietly_intros]: "quietly (db_Query srv d q as)"
  by (simp add: quietly_def db_Query_def Let_def quiet_def)

lemma quietly_onerr [quietly_intros]:
  assumes "quietly m" and "\<And>x. quietly (k x)"
  shows "quietly (onerr m w k)"
  unfolding quietly_def
proof
  fix h
  obtain r h1 where m: "m h = (r, h1)" by (cases "m h")
  then obtain evs where evs: "h1 = h @ evs" "\<forall>ev\<in>set evs. quiet ev"
    using assms(1) unfolding quietly_def by (metis snd_conv)
  show "\<exists>evs. snd (onerr m w k h) = h @ evs \<and> (\<forall>ev\<in>set evs. quiet ev)"
  proof (cases r)
    case (Inl e)
    then show ?thesis using m evs by auto
  next
    case (Inr x)
    obtain evs2 where "snd (k x h1) = h1 @ evs2" "\<forall>ev\<in>set evs2. quiet ev"
      using assms(2) unfolding quietly_def by blast
    then show ?thesis using Inr m evs by (intro exI [of _ "evs @ evs2"]) auto
  qed
qed

lemma quietly_collect [quietly_intros]: "(\<And>x. quietly (b x)) \<Longrightarrow> quietly (collect b xs)"
  by (induction xs) (simp_all add: quietly_intros)

lemma quietly_QueryRow [quietly_intros]: "quietly (db_QueryRow srv d q as)"
proof -
  have "quietly (\<lambda>h. case rs of Rows (r # _) _ \<Rightarrow> (r, h) | Rows [] (Some e) \<Rightarrow> (Inl e, h)
      | Rows [] None \<Rightarrow> (Inl (ExtError ''sql: no rows in result set''), h))" for rs
    by (auto simp: quietly_def split: rows.split list.split option.split)
  then show ?thesis unfolding db_QueryRow_def by (intro quietly_intros)
qed

lemma quietly_reads [quietly_intros]:
  "quietly (currentTableGrants srv d roleName)" "quietly (currentGrantedSchemas srv d roleName)"
  "quietly (schemaOwnerMap srv d)" "quietly (tableOwnerMap srv d)"
  unfolding currentTableGrants_def currentGrantedSchemas_def schemaOwnerMap_def tableOwnerMap_def
  by (intro quietly_intros)+

lemma quietly_expandGrants [quietly_intros]: "quietly (expandGrants srv uni d grants)"
proof -
  have "quietly (resolveTables srv d schema table)" "quietly (resolveSchemas srv d schema)" for schema table
    unfolding resolveTables_def resolveSchemas_def query_bool_def by (simp_all add: quietly_intros)
  then show ?thesis
    unfolding expandGrants_def expand_grant_def expand_schema_def by (intro quietly_intros)
qed

section \<open>SyncDatabaseGrants\<close>

text \<open>What has been read when the changes begin.\<close>

lemma SyncDatabaseGrants_reads:
  assumes "reads_acl srv d roleName usage tables" "expands_to srv uni d grants D" "reads_owners srv d cat S K"
    and ul: "usage_laws srv d cat roleName S K usage" and tl: "table_laws srv d cat roleName S K tables"
    and "SyncDatabaseGrants srv uni so d roleName grants h = (Inr (), h')"
  obtains current desired currentSchemas schemaOwners tblOwners h5 where
    "set current = tables h" "set desired = D" "set currentSchemas = usage h" "tables h5 = tables h" "usage h5 = usage h"
    "\<forall>s\<in>S. gm_get schemaOwners s = cat_schema cat s"
    "\<forall>k\<in>K. cat_table cat (gk_tableKey k) =
       (if table_owner tblOwners (gk_tableKey k) = [] then None else Some (table_owner tblOwners (gk_tableKey k)))"
    "prefix h h5" "apply_grants srv so d roleName current desired currentSchemas schemaOwners tblOwners h5 = (Inr (), h')"
proof -
  have quiet: "\<forall>h ev. quiet ev \<longrightarrow> usage (h @ [ev]) = usage h" "\<forall>h ev. quiet ev \<longrightarrow> tables (h @ [ev]) = tables h"
    using ul tl by (simp_all add: usage_laws_def table_laws_def)
  obtain current desired currentSchemas schemaOwners tblOwners h1 h2 h3 h4 h5 where
    runs: "currentTableGrants srv d roleName h = (Inr current, h1)" "expandGrants srv uni d grants h1 = (Inr desired, h2)"
    "currentGrantedSchemas srv d roleName h2 = (Inr currentSchemas, h3)" "schemaOwnerMap srv d h3 = (Inr schemaOwners, h4)"
    "tableOwnerMap srv d h4 = (Inr tblOwners, h5)"
    and app: "apply_grants srv so d roleName current desired currentSchemas schemaOwners tblOwners h5 = (Inr (), h')"
    using assms(6) unfolding SyncDatabaseGrants_def by (auto split: option.splits elim!: onerr_InrE)
  note keeps = quietly_keeps [OF quietly_reads(1) _ runs(1)] quietly_keeps [OF quietly_expandGrants _ runs(2)]
    quietly_keeps [OF quietly_reads(2) _ runs(3)] quietly_keeps [OF quietly_reads(3) _ runs(4)]
    quietly_keeps [OF quietly_reads(4) _ runs(5)]
  have "tables h5 = tables h" "usage h5 = usage h" "usage h2 = usage h"
    using keeps [OF quiet(1)] keeps [OF quiet(2)] by simp_all
  moreover have "set current = tables h" "set desired = D" "set currentSchemas = usage h2"
    using assms(1,2) runs unfolding reads_acl_def expands_to_def by blast+
  moreover have "\<forall>s\<in>S. gm_get schemaOwners s = cat_schema cat s"
    "\<forall>k\<in>K. cat_table cat (gk_tableKey k) =
       (if table_owner tblOwners (gk_tableKey k) = [] then None else Some (table_owner tblOwners (gk_tableKey k)))"
    using assms(3) runs(4,5) unfolding reads_owners_def by blast+
  moreover have "prefix h h5"
    using runs quietly_prefix [OF quietly_reads(1)] quietly_prefix [OF quietly_expandGrants] quietly_prefix [OF quietly_reads(2)]
      quietly_prefix [OF quietly_reads(3)] quietly_prefix [OF quietly_reads(4)] by (metis prefix_order.trans)
  ultimately show thesis using app by (intro that [of current desired currentSchemas h5]) simp_all
qed

section \<open>Every moment of a run\<close>

lemma quietly_along:
  assumes "quietly m" and "\<forall>h ev. quiet ev \<longrightarrow> f (h @ [ev]) = f h"
  shows "along (\<lambda>h. I (f h)) m"
proof (rule along_events)
  fix h
  obtain evs where evs: "snd (m h) = h @ evs" "\<forall>ev\<in>set evs. quiet ev"
    using assms(1) unfolding quietly_def by blast
  have "f (h @ take n evs) = f h" for n
    by (rule quiet_keeps [OF assms(2)]) (use evs(2) in \<open>auto dest: in_set_takeD\<close>)
  with evs(1) show "\<exists>evs. snd (m h) = h @ evs \<and> (I (f h) \<longrightarrow> (\<forall>n \<le> length evs. I (f (h @ take n evs))))"
    by auto
qed

abbreviation within :: "'a set \<Rightarrow> 'a set \<Rightarrow> 'a set \<Rightarrow> bool" where
  "within lo hi X \<equiv> lo \<subseteq> X \<and> X \<subseteq> hi"

text \<open>The four statements, for both observed sets.\<close>

lemma along_exec_within:
  assumes "\<forall>h ev. quiet ev \<longrightarrow> f (h @ [ev]) = f h" "changes srv d f own q g" and g: "\<And>X. within lo hi X \<Longrightarrow> within lo hi (g X)"
  shows "along (\<lambda>h. within lo hi (f h)) (exec_as srv d owner q)"
proof (rule along_exec_as [OF assms(1,2)])
  fix X Y assume "within lo hi X" "X \<inter> g X \<subseteq> Y" "Y \<subseteq> X \<union> g X"
  with g [of X] show "within lo hi Y" by blast
qed

lemma along_grant_usage:
  assumes "usage_laws srv d cat roleName S K usage" "table_laws srv d cat roleName S K tables" "s \<in> S" "s \<in> hi"
  shows "along (\<lambda>h. within lo hi (usage h)) (grant_usage srv d roleName owners s)"
    and "along (\<lambda>h. within lo' hi' (tables h)) (grant_usage srv d roleName owners s)"
proof -
  have q: "\<forall>h ev. quiet ev \<longrightarrow> usage (h @ [ev]) = usage h" "\<forall>h ev. quiet ev \<longrightarrow> tables (h @ [ev]) = tables h"
    "changes srv d usage (cat_schema cat s) (grant_usage_sql srv roleName s) (\<lambda>U. U \<union> {s})" "changes srv d tables (cat_schema cat s) (grant_usage_sql srv roleName s) id"
    using assms by (simp_all add: usage_laws_def table_laws_def)
  show "along (\<lambda>h. within lo hi (usage h)) (grant_usage srv d roleName owners s)"
    unfolding grant_usage_def using assms(4)
    by (auto split: option.split intro!: along_skip_denied along_ok along_exec_within [OF q(1,3)])
  show "along (\<lambda>h. within lo' hi' (tables h)) (grant_usage srv d roleName owners s)"
    unfolding grant_usage_def
    by (auto split: option.split intro!: along_skip_denied along_ok along_exec_within [OF q(2,4)])
qed

lemma along_revoke_usage:
  assumes "usage_laws srv d cat roleName S K usage" "table_laws srv d cat roleName S K tables" "s \<in> S" "s \<notin> lo"
  shows "along (\<lambda>h. within lo hi (usage h)) (revoke_usage srv d roleName owners s)"
    and "along (\<lambda>h. within lo' hi' (tables h)) (revoke_usage srv d roleName owners s)"
proof -
  have q: "\<forall>h ev. quiet ev \<longrightarrow> usage (h @ [ev]) = usage h" "\<forall>h ev. quiet ev \<longrightarrow> tables (h @ [ev]) = tables h"
    "changes srv d usage (cat_schema cat s) (revoke_usage_sql srv roleName s) (\<lambda>U. U - {s})" "changes srv d tables (cat_schema cat s) (revoke_usage_sql srv roleName s) id"
    using assms by (simp_all add: usage_laws_def table_laws_def)
  have "within lo hi (X - {s})" if "within lo hi X" for X using that assms(4) by auto
  then show "along (\<lambda>h. within lo hi (usage h)) (revoke_usage srv d roleName owners s)"
    unfolding revoke_usage_def
    by (auto split: option.split intro!: along_skip_denied along_ok along_exec_within [OF q(1,3)])
  show "along (\<lambda>h. within lo' hi' (tables h)) (revoke_usage srv d roleName owners s)"
    unfolding revoke_usage_def
    by (auto split: option.split intro!: along_skip_denied along_ok along_exec_within [OF q(2,4)])
qed

lemma along_grant_table:
  assumes "usage_laws srv d cat roleName S K usage" "table_laws srv d cat roleName S K tables" "good_entry K e" "table_keys e \<subseteq> hi"
  shows "along (\<lambda>h. within lo hi (tables h)) (grant_table srv d roleName owners e)"
    and "along (\<lambda>h. within lo' hi' (usage h)) (grant_table srv d roleName owners e)"
proof -
  obtain s t privs where e: "e = ((s, t), privs)" by (metis prod.collapse)
  have q: "\<forall>h ev. quiet ev \<longrightarrow> usage (h @ [ev]) = usage h" "\<forall>h ev. quiet ev \<longrightarrow> tables (h @ [ev]) = tables h"
    "changes srv d usage (cat_table cat (s, t)) (grant_table_sql srv roleName (s, t) privs) id"
    "changes srv d tables (cat_table cat (s, t)) (grant_table_sql srv roleName (s, t) privs) (\<lambda>P. P \<union> table_keys ((s, t), privs))"
    using assms by (auto simp: e usage_laws_def table_laws_def)
  have "within lo hi (X \<union> table_keys ((s, t), privs))" if "within lo hi X" for X using that assms(4) by (auto simp: e)
  then show "along (\<lambda>h. within lo hi (tables h)) (grant_table srv d roleName owners e)"
    unfolding grant_table_def e Let_def prod.case
    by (intro along_if along_ok along_skip_denied along_exec_within [OF q(2,4)]) simp_all
  show "along (\<lambda>h. within lo' hi' (usage h)) (grant_table srv d roleName owners e)"
    unfolding grant_table_def e Let_def prod.case
    by (intro along_if along_ok along_skip_denied along_exec_within [OF q(1,3)]) simp_all
qed

lemma along_revoke_table:
  assumes "usage_laws srv d cat roleName S K usage" "table_laws srv d cat roleName S K tables" "good_entry K e" "table_keys e \<inter> lo = {}"
  shows "along (\<lambda>h. within lo hi (tables h)) (revoke_table srv d roleName owners e)"
    and "along (\<lambda>h. within lo' hi' (usage h)) (revoke_table srv d roleName owners e)"
proof -
  obtain s t privs where e: "e = ((s, t), privs)" by (metis prod.collapse)
  have q: "\<forall>h ev. quiet ev \<longrightarrow> usage (h @ [ev]) = usage h" "\<forall>h ev. quiet ev \<longrightarrow> tables (h @ [ev]) = tables h"
    "changes srv d usage (cat_table cat (s, t)) (revoke_table_sql srv roleName (s, t) privs) id"
    "changes srv d tables (cat_table cat (s, t)) (revoke_table_sql srv roleName (s, t) privs) (\<lambda>P. P - table_keys ((s, t), privs))"
    using assms by (auto simp: e usage_laws_def table_laws_def)
  have "within lo hi (X - table_keys ((s, t), privs))" if "within lo hi X" for X using that assms(4) by (auto simp: e)
  then show "along (\<lambda>h. within lo hi (tables h)) (revoke_table srv d roleName owners e)"
    unfolding revoke_table_def e Let_def prod.case
    by (intro along_if along_ok along_skip_denied along_exec_within [OF q(2,4)]) simp_all
  show "along (\<lambda>h. within lo' hi' (usage h)) (revoke_table srv d roleName owners e)"
    unfolding revoke_table_def e Let_def prod.case
    by (intro along_if along_ok along_skip_denied along_exec_within [OF q(1,3)]) simp_all
qed

lemma along_apply_grants:
  assumes ul: "usage_laws srv d cat roleName S K usage" and tl: "table_laws srv d cat roleName S K tables" and so: "good_orders so"
    and K: "set current \<subseteq> K" "set desired \<subseteq> K" and S: "set currentSchemas \<subseteq> S" "gk_schema ` set desired \<subseteq> S"
  shows "along (\<lambda>h. within (set current \<inter> set desired) (set current \<union> set desired) (tables h))
      (apply_grants srv so d roleName current desired currentSchemas schemaOwners tblOwners)"
    and "along (\<lambda>h. within (set currentSchemas \<inter> gk_schema ` set desired) (set currentSchemas \<union> gk_schema ` set desired) (usage h))
      (apply_grants srv so d roleName current desired currentSchemas schemaOwners tblOwners)"
proof -
  have rng: "is_range (so_schemas so)" "is_range (so_desired so)" "is_range (so_toGrant so)"
    "is_range (so_current so)" "is_range (so_toRevoke so)" using so by (auto simp: good_orders_def)
  have DS: "set (so_schemas so (remdups (map gk_schema desired))) = gk_schema ` set desired"
    by (simp add: is_range_set [OF rng(1)])
  have entry: "good_entry K e \<and> table_keys e \<subseteq> set (missing_keys other keys)"
    if "is_range order" "is_range order'" "set keys \<subseteq> K" "e \<in> set (order' (batch order keys other))" for order order' keys other e
    using batch_entry [OF that(1), of e keys other] that is_range_set [OF that(2)] by (auto simp: missing_keys_def)
  have g: "good_entry K e \<and> table_keys e \<subseteq> set current \<union> set desired"
    if "e \<in> set (so_toGrant so (batch (so_desired so) desired current))" for e
    using entry [OF rng(2,3) K(2) that] by (auto simp: missing_keys_def)
  have r: "good_entry K e \<and> table_keys e \<inter> (set current \<inter> set desired) = {}"
    if "e \<in> set (so_toRevoke so (batch (so_current so) current desired))" for e
    using entry [OF rng(4,5) K(1) that] by (auto simp: missing_keys_def)
  note rules = along_grant_usage [OF ul tl] along_revoke_usage [OF ul tl] along_grant_table [OF ul tl] along_revoke_table [OF ul tl]
  show "along (\<lambda>h. within (set current \<inter> set desired) (set current \<union> set desired) (tables h))
      (apply_grants srv so d roleName current desired currentSchemas schemaOwners tblOwners)"
    unfolding apply_grants_def Let_def for_each_filter
    by (intro along_onerr along_for_each rules(2) [where hi = UNIV] rules(4) [where lo = "{}"] rules(5,7))
      (use DS S g r in auto)
  show "along (\<lambda>h. within (set currentSchemas \<inter> gk_schema ` set desired) (set currentSchemas \<union> gk_schema ` set desired) (usage h))
      (apply_grants srv so d roleName current desired currentSchemas schemaOwners tblOwners)"
    unfolding apply_grants_def Let_def for_each_filter
    by (intro along_onerr along_for_each rules(1,3) rules(6) [where hi = UNIV] rules(8) [where lo = "{}"])
      (use DS S g r in auto)
qed

lemma SyncDatabaseGrants_during:
  assumes f: "\<forall>h ev. quiet ev \<longrightarrow> f (h @ [ev]) = f h" and u: "\<forall>h ev. quiet ev \<longrightarrow> usage (h @ [ev]) = usage h"
    and ra: "reads_acl srv d roleName usage tables" and ex: "expands_to srv uni d grants D" and I: "I (f h)"
    and app: "\<And>current desired currentSchemas schemaOwners tblOwners.
      set current = tables h \<Longrightarrow> set desired = D \<Longrightarrow> set currentSchemas = usage h \<Longrightarrow>
      along (\<lambda>h. I (f h)) (apply_grants srv so d roleName current desired currentSchemas schemaOwners tblOwners)"
  shows "during (\<lambda>h. I (f h)) (SyncDatabaseGrants srv uni so d roleName grants) h"
proof (cases "validate_grants uni grants")
  case (Some e)
  then show ?thesis using I by (auto simp: SyncDatabaseGrants_def during_def dest: prefix_order.antisym)
next
  case None
  note keep = quietly_keeps [OF quietly_reads(1)] quietly_keeps [OF quietly_expandGrants]
    quietly_keeps [OF quietly_reads(2)] quietly_keeps [OF quietly_reads(3)] quietly_keeps [OF quietly_reads(4)]
  show ?thesis
    unfolding SyncDatabaseGrants_def None option.case
  proof (intro during_onerr quietly_along [OF _ f] quietly_intros)
    fix current h1 desired h2 currentSchemas h3 schemaOwners h4 tblOwners h5
    assume runs: "currentTableGrants srv d roleName h = (Inr current, h1)" "expandGrants srv uni d grants h1 = (Inr desired, h2)"
      "currentGrantedSchemas srv d roleName h2 = (Inr currentSchemas, h3)" "schemaOwnerMap srv d h3 = (Inr schemaOwners, h4)"
      "tableOwnerMap srv d h4 = (Inr tblOwners, h5)"
    have "f h5 = f h" using keep(1,2,3,4,5) [OF f] runs by metis
    moreover have "usage h2 = usage h" using keep(1,2) [OF u] runs by metis
    moreover have "set current = tables h" "set desired = D" "set currentSchemas = usage h2"
      using ra ex runs unfolding reads_acl_def expands_to_def by blast+
    ultimately show "during (\<lambda>h. I (f h)) (apply_grants srv so d roleName current desired currentSchemas schemaOwners tblOwners) h5"
      using I by (intro along_during app) simp_all
  qed (use I keep [OF f] in metis)+
qed

section \<open>Properties\<close>

text \<open>C3. After a successful \<open>SyncDatabaseGrants\<close> the role holds exactly the desired table privileges,
  the expansion \<open>D\<close> of its grants, and may use exactly the schemas these are in, except for what was
  passed over: a desired privilege can be missing only if its table has no owner or the server refused,
  in this run and in the name of the owner, a statement that grants it; another privilege can be left
  only if the same happened to its revocation. If nothing was refused and every object has an owner,
  this is equality. The server follows the laws of granting and revoking, under which only
  statements in the name of the owner are sure to have an effect.\<close>

theorem SyncDatabaseGrants_exact:
  assumes "SyncDatabaseGrants srv uni so d roleName grants h = (Inr (), h')"
    and "usage_laws srv d cat roleName S K usage" "table_laws srv d cat roleName S K tables"
    and "reads_acl srv d roleName usage tables" "expands_to srv uni d grants D" "reads_owners srv d cat S K" "good_orders so"
    and "tables h \<union> D \<subseteq> K" "usage h \<union> gk_schema ` D \<subseteq> S"
  shows "D - tables_passed_over (grant_table_sql srv) srv d cat roleName h h' \<subseteq> tables h'
    \<and> tables h' \<subseteq> D \<union> tables_passed_over (revoke_table_sql srv) srv d cat roleName h h'
    \<and> gk_schema ` D - schemas_passed_over (grant_usage_sql srv) srv d cat roleName h h' \<subseteq> usage h'
    \<and> usage h' \<subseteq> gk_schema ` D \<union> schemas_passed_over (revoke_usage_sql srv) srv d cat roleName h h'"
proof -
  obtain current desired currentSchemas schemaOwners tblOwners h5 where
    r: "set current = tables h" "set desired = D" "set currentSchemas = usage h" "tables h5 = tables h" "usage h5 = usage h"
    "\<forall>s\<in>S. gm_get schemaOwners s = cat_schema cat s"
    "\<forall>k\<in>K. cat_table cat (gk_tableKey k) =
       (if table_owner tblOwners (gk_tableKey k) = [] then None else Some (table_owner tblOwners (gk_tableKey k)))"
    "prefix h h5" "apply_grants srv so d roleName current desired currentSchemas schemaOwners tblOwners h5 = (Inr (), h')"
    using assms(4,5,6,2,3,1) by (rule SyncDatabaseGrants_reads)
  then show ?thesis
    using apply_grants_exact [OF assms(2,3,7) _ _ _ _ r(6,7) _ _ r(8,9)] assms(8,9) by simp
qed

text \<open>C4. No access outage: at every moment of a run of \<open>SyncDatabaseGrants\<close>, whether it succeeds,
  fails or skips refused statements, the role holds every table privilege and may use
  every schema that it had before and that is still desired, and holds nothing that it
  neither had before nor is to have.\<close>

theorem SyncDatabaseGrants_no_outage:
  assumes ul: "usage_laws srv d cat roleName S K usage" and tl: "table_laws srv d cat roleName S K tables"
    and ra: "reads_acl srv d roleName usage tables" and ex: "expands_to srv uni d grants D" and so: "good_orders so"
    and K: "tables h \<union> D \<subseteq> K" and S: "usage h \<union> gk_schema ` D \<subseteq> S"
    and moment: "prefix h h1" "prefix h1 (snd (SyncDatabaseGrants srv uni so d roleName grants h))"
  shows "tables h \<inter> D \<subseteq> tables h1 \<and> tables h1 \<subseteq> tables h \<union> D \<and>
    usage h \<inter> gk_schema ` D \<subseteq> usage h1 \<and> usage h1 \<subseteq> usage h \<union> gk_schema ` D"
proof -
  have quiet: "\<forall>h ev. quiet ev \<longrightarrow> usage (h @ [ev]) = usage h" "\<forall>h ev. quiet ev \<longrightarrow> tables (h @ [ev]) = tables h"
    using ul tl by (simp_all add: usage_laws_def table_laws_def)
  have app: "along (\<lambda>h1. within (tables h \<inter> D) (tables h \<union> D) (tables h1))
        (apply_grants srv so d roleName current desired currentSchemas schemaOwners tblOwners)"
      "along (\<lambda>h1. within (usage h \<inter> gk_schema ` D) (usage h \<union> gk_schema ` D) (usage h1))
        (apply_grants srv so d roleName current desired currentSchemas schemaOwners tblOwners)"
    if "set current = tables h" "set desired = D" "set currentSchemas = usage h"
    for current desired currentSchemas schemaOwners tblOwners
    using along_apply_grants [OF ul tl so, of current desired currentSchemas] that K S by simp_all
  have "during (\<lambda>h1. within (tables h \<inter> D) (tables h \<union> D) (tables h1)) (SyncDatabaseGrants srv uni so d roleName grants) h"
    by (rule SyncDatabaseGrants_during [OF quiet(2,1) ra ex]) (use app(1) in auto)
  moreover have "during (\<lambda>h1. within (usage h \<inter> gk_schema ` D) (usage h \<union> gk_schema ` D) (usage h1))
      (SyncDatabaseGrants srv uni so d roleName grants) h"
    by (rule SyncDatabaseGrants_during [OF quiet(1,1) ra ex]) (use app(2) in auto)
  ultimately show ?thesis using moment by (simp add: during_def)
qed

end
