(* ===== verification/Grant_Server.thy ===== *)
theory Grant_Server
  imports Grant_Laws
begin

text \<open>
  An executable server that follows the laws of \<open>Grant_Laws\<close>, and the theorems of that theory
  applied to a run of \<open>SyncDatabaseGrants\<close> on it.
\<close>

section \<open>A server that follows the laws\<close>

text \<open>A database with the schema \<open>app\<close> and its tables \<open>t\<close>, owned by \<open>svc\<close>, and \<open>u\<close>, owned by
  \<open>other\<close>, whose name the controller may not take: \<open>SET LOCAL ROLE\<close> to it is refused with the
  error for insufficient privileges. The role \<open>auditor\<close> starts with the privilege \<open>INSERT\<close> on \<open>t\<close>. A
  statement has an effect only in a transaction whose role is the owner of the object.\<close>

datatype acl_change = AddUsage string | DelUsage string | AddKeys "grantKey list" | DelKeys "grantKey list"

fun change_acl :: "acl_change \<Rightarrow> string list \<times> grantKey list \<Rightarrow> string list \<times> grantKey list" where
  "change_acl (AddUsage s) (us, ks) = (us @ [s], ks)"
| "change_acl (DelUsage s) (us, ks) = (filter (\<lambda>u. u \<noteq> s) us, ks)"
| "change_acl (AddKeys ms) (us, ks) = (us, ks @ ms)"
| "change_acl (DelKeys ms) (us, ks) = (us, filter (\<lambda>k. k \<notin> set ms) ks)"

definition demo_key :: "string \<Rightarrow> string \<Rightarrow> grantKey" where
  "demo_key t p = \<lparr>gk_schema = ''app'', gk_table = t, gk_privilege = p\<rparr>"

definition demo_catalog :: catalog where
  "demo_catalog = \<lparr>cat_schema = map_of [(''app'', ''svc'')],
     cat_table = map_of [((''app'', ''t''), ''svc''), ((''app'', ''u''), ''other'')]\<rparr>"

definition demo_batches :: "(string \<times> string \<times> string list) list" where
  "demo_batches =
     [(''t'', ''svc'', [''SELECT'']), (''t'', ''svc'', [''INSERT'']), (''t'', ''svc'', [''SELECT'', ''INSERT'']),
      (''t'', ''svc'', [''INSERT'', ''SELECT'']), (''u'', ''other'', [''SELECT''])]"

definition plain_server :: server where
  "plain_server = ref_server quoted (\<lambda>_. [])"

text \<open>The statements that change something, with the text that sets the owner's role.\<close>

definition demo_changes :: "(string \<times> string \<times> acl_change) list" where
  "demo_changes =
     [(grant_usage_sql plain_server ''auditor'' ''app'', set_role plain_server ''svc'', AddUsage ''app''),
      (revoke_usage_sql plain_server ''auditor'' ''app'', set_role plain_server ''svc'', DelUsage ''app'')]
     @ map (\<lambda>(t, w, ps). (grant_table_sql plain_server ''auditor'' (''app'', t) ps, set_role plain_server w, AddKeys (map (demo_key t) ps))) demo_batches
     @ map (\<lambda>(t, w, ps). (revoke_table_sql plain_server ''auditor'' (''app'', t) ps, set_role plain_server w, DelKeys (map (demo_key t) ps))) demo_batches"

type_synonym acl_state = "string \<times> string \<times> string list \<times> grantKey list"

fun acl_step :: "acl_state \<Rightarrow> event \<Rightarrow> acl_state" where
  "acl_step (before, pending, acl) (EvTxExec t q None) = (pending, q, acl)"
| "acl_step (before, pending, acl) (EvCommit t None) =
     (before, pending, case map_of demo_changes pending of
        None \<Rightarrow> acl | Some (role, c) \<Rightarrow> if before = role then change_acl c acl else acl)"
| "acl_step st ev = st"

definition demo_acl :: "history \<Rightarrow> string list \<times> grantKey list" where
  "demo_acl h = snd (snd (foldl acl_step ([], [], [], [demo_key ''t'' ''INSERT'']) h))"

definition demo_answer :: "history \<Rightarrow> string \<Rightarrow> string list list" where
  "demo_answer h q =
     (if q = table_grants_sql then map (\<lambda>k. [gk_schema k, gk_table k, gk_privilege k]) (snd (demo_acl h))
      else if q = granted_schemas_sql then singletons (fst (demo_acl h))
      else if q = schema_owners_sql then [[''app'', ''svc'']]
      else if q = table_owners_sql then [[''app'', ''t'', ''svc''], [''app'', ''u'', ''other'']]
      else [[''true'']])"

definition demo_grant_server :: server where
  "demo_grant_server = plain_server
     \<lparr>srv_Query := (\<lambda>h d q as. Inr (good_rows (demo_answer h q))),
      srv_TxExec := (\<lambda>h t q. if q = set_role plain_server ''other''
        then Some (PqError ''42501'' ''insufficient_privilege'' ''permission denied to set role'') else None)\<rparr>"

definition demo_orders :: sync_orders where
  "demo_orders = \<lparr>so_schemas = id, so_desired = id, so_toGrant = id, so_current = id, so_toRevoke = id\<rparr>"

definition demo_grants :: "CustomRoleGrant list" where
  "demo_grants = map (\<lambda>t. \<lparr>gr_Schema = ''app'', gr_Table = t, gr_Privileges = [''select'']\<rparr>) [''t'', ''u'']"

abbreviation demo_usage :: "history \<Rightarrow> string set" where
  "demo_usage h \<equiv> set (fst (demo_acl h))"

abbreviation demo_tables :: "history \<Rightarrow> grantKey set" where
  "demo_tables h \<equiv> set (snd (demo_acl h))"

abbreviation demo_K :: "grantKey set" where
  "demo_K \<equiv> {demo_key ''t'' ''SELECT'', demo_key ''t'' ''INSERT'', demo_key ''u'' ''SELECT''}"

lemma acl_step_quiet: "quiet ev \<Longrightarrow> snd (snd (acl_step st ev)) = snd (snd st)"
  by (cases "(st, ev)" rule: acl_step.cases) (auto simp: quiet_def)

lemma demo_acl_quiet: "quiet ev \<Longrightarrow> demo_acl (h @ [ev]) = demo_acl h"
  by (simp add: demo_acl_def acl_step_quiet)

lemma demo_acl_tx:
  "demo_acl (h @ tx_events srv d t w q) =
     (case map_of demo_changes q of None \<Rightarrow> demo_acl h
      | Some (role, c) \<Rightarrow> if set_role srv w = role then change_acl c (demo_acl h) else demo_acl h)"
  by (cases "foldl acl_step ([], [], [], [demo_key ''t'' ''INSERT'']) h") (simp add: demo_acl_def tx_events_def split: option.split)

lemma demo_quote: "QuoteIdentifier demo_grant_server = QuoteIdentifier plain_server"
  by (simp add: demo_grant_server_def)

lemma demo_sql:
  "grant_usage_sql demo_grant_server = grant_usage_sql plain_server"
  "revoke_usage_sql demo_grant_server = revoke_usage_sql plain_server"
  "grant_table_sql demo_grant_server = grant_table_sql plain_server"
  "revoke_table_sql demo_grant_server = revoke_table_sql plain_server"
  "set_role demo_grant_server = set_role plain_server"
  by (simp_all add: fun_eq_iff grant_usage_sql_def revoke_usage_sql_def grant_table_sql_def revoke_table_sql_def set_role_def demo_quote)

lemma demo_distinct: "distinct (map fst demo_changes)"
  by code_simp

lemma demo_lookup_usage:
  "map_of demo_changes (grant_usage_sql plain_server ''auditor'' ''app'') = Some (set_role plain_server ''svc'', AddUsage ''app'')"
  "map_of demo_changes (revoke_usage_sql plain_server ''auditor'' ''app'') = Some (set_role plain_server ''svc'', DelUsage ''app'')"
  by (simp_all add: map_of_eq_Some_iff [OF demo_distinct]) (simp_all add: demo_changes_def)

lemma demo_lookup_table:
  assumes "(t, w, ps) \<in> set demo_batches"
  shows "map_of demo_changes (grant_table_sql plain_server ''auditor'' (''app'', t) ps) =
      Some (set_role plain_server w, AddKeys (map (demo_key t) ps))"
    and "map_of demo_changes (revoke_table_sql plain_server ''auditor'' (''app'', t) ps) =
      Some (set_role plain_server w, DelKeys (map (demo_key t) ps))"
  using imageI [OF assms, of "\<lambda>(t, w, ps). (grant_table_sql plain_server ''auditor'' (''app'', t) ps, set_role plain_server w, AddKeys (map (demo_key t) ps))"]
    imageI [OF assms, of "\<lambda>(t, w, ps). (revoke_table_sql plain_server ''auditor'' (''app'', t) ps, set_role plain_server w, DelKeys (map (demo_key t) ps))"]
  by (simp_all add: map_of_eq_Some_iff [OF demo_distinct]) (simp_all add: demo_changes_def)

lemma demo_entry:
  assumes "privs \<noteq> []" "distinct privs" "table_keys (tk, privs) \<subseteq> demo_K"
  obtains t w where "tk = (''app'', t)" "(t, w, privs) \<in> set demo_batches" "cat_table demo_catalog tk = Some w"
proof -
  obtain t where tk: "tk = (''app'', t)" "t = ''t'' \<or> t = ''u''"
    using assms(1,3) by (cases tk; cases privs; auto simp: table_keys_def demo_key_def)
  have s: "set privs \<subseteq> {''SELECT'', ''INSERT''}" and u: "t = ''u'' \<longrightarrow> set privs \<subseteq> {''SELECT''}"
    using assms(3) tk by (auto simp: table_keys_def demo_key_def)
  have "length privs \<le> card {''SELECT'', ''INSERT''}"
    using s assms(2) by (metis card_mono distinct_card finite.emptyI finite_insert)
  then have "length privs \<le> 2" by simp
  then consider "privs = []" | a where "privs = [a]" | a b where "privs = [a, b]"
    by (metis One_nat_def Suc_1 le_SucE le_zero_eq length_0_conv length_Suc_conv)
  then have "(t, if t = ''t'' then ''svc'' else ''other'', privs) \<in> set demo_batches"
    using assms(1,2) s u tk(2) by cases (auto simp: demo_batches_def)
  then show thesis using tk by (intro that) (auto simp: demo_catalog_def)
qed

lemma change_acl_parts [simp]:
  "fst (change_acl (AddUsage s) acl) = fst acl @ [s]" "snd (change_acl (AddUsage s) acl) = snd acl"
  "fst (change_acl (DelUsage s) acl) = filter (\<lambda>u. u \<noteq> s) (fst acl)" "snd (change_acl (DelUsage s) acl) = snd acl"
  "fst (change_acl (AddKeys ms) acl) = fst acl" "snd (change_acl (AddKeys ms) acl) = snd acl @ ms"
  "fst (change_acl (DelKeys ms) acl) = fst acl" "snd (change_acl (DelKeys ms) acl) = filter (\<lambda>k. k \<notin> set ms) (snd acl)"
  by (cases acl, simp)+

lemma table_keys_demo: "table_keys ((''app'', t), privs) = set (map (demo_key t) privs)"
  by (simp add: table_keys_def demo_key_def)

text \<open>A change that is looked up under the text of a statement follows the law of its owner.\<close>

lemma demo_changes_law:
  assumes "map_of demo_changes q = Some (set_role plain_server w, c)" and "\<And>h. f h = obs (demo_acl h)"
    and "\<And>acl. obs (change_acl c acl) = g (obs acl)"
  shows "changes demo_grant_server d f (Some w) q g"
  unfolding changes_def assms(2) demo_acl_tx demo_sql by (simp add: assms(1,3))

lemma demo_changes_table:
  assumes "privs \<noteq> [] \<and> distinct privs \<and> table_keys (tk, privs) \<subseteq> demo_K"
  shows "changes demo_grant_server d demo_usage (cat_table demo_catalog tk) (grant_table_sql demo_grant_server ''auditor'' tk privs) id
      \<and> changes demo_grant_server d demo_usage (cat_table demo_catalog tk) (revoke_table_sql demo_grant_server ''auditor'' tk privs) id"
    "changes demo_grant_server d demo_tables (cat_table demo_catalog tk) (grant_table_sql demo_grant_server ''auditor'' tk privs) (\<lambda>P. P \<union> table_keys (tk, privs))
      \<and> changes demo_grant_server d demo_tables (cat_table demo_catalog tk) (revoke_table_sql demo_grant_server ''auditor'' tk privs) (\<lambda>P. P - table_keys (tk, privs))"
proof -
  obtain t w where tk: "tk = (''app'', t)" and b: "(t, w, privs) \<in> set demo_batches" and w: "cat_table demo_catalog tk = Some w"
    using demo_entry assms by blast
  note rules = demo_changes_law [OF demo_lookup_table(1) [OF b], of _ "\<lambda>acl. set (fst acl)"]
    demo_changes_law [OF demo_lookup_table(2) [OF b], of _ "\<lambda>acl. set (fst acl)"]
    demo_changes_law [OF demo_lookup_table(1) [OF b], of _ "\<lambda>acl. set (snd acl)"]
    demo_changes_law [OF demo_lookup_table(2) [OF b], of _ "\<lambda>acl. set (snd acl)"]
  show "changes demo_grant_server d demo_usage (cat_table demo_catalog tk) (grant_table_sql demo_grant_server ''auditor'' tk privs) id
      \<and> changes demo_grant_server d demo_usage (cat_table demo_catalog tk) (revoke_table_sql demo_grant_server ''auditor'' tk privs) id"
    unfolding w unfolding tk demo_sql by (intro conjI rules(1,2)) simp_all
  show "changes demo_grant_server d demo_tables (cat_table demo_catalog tk) (grant_table_sql demo_grant_server ''auditor'' tk privs) (\<lambda>P. P \<union> table_keys (tk, privs))
      \<and> changes demo_grant_server d demo_tables (cat_table demo_catalog tk) (revoke_table_sql demo_grant_server ''auditor'' tk privs) (\<lambda>P. P - table_keys (tk, privs))"
    unfolding w unfolding tk demo_sql by (intro conjI rules(3,4)) (auto simp: table_keys_demo)
qed

lemma demo_changes_usage:
  "changes demo_grant_server d demo_usage (cat_schema demo_catalog ''app'') (grant_usage_sql demo_grant_server ''auditor'' ''app'') (\<lambda>U. U \<union> {''app''})"
  "changes demo_grant_server d demo_usage (cat_schema demo_catalog ''app'') (revoke_usage_sql demo_grant_server ''auditor'' ''app'') (\<lambda>U. U - {''app''})"
  "changes demo_grant_server d demo_tables (cat_schema demo_catalog ''app'') (grant_usage_sql demo_grant_server ''auditor'' ''app'') id"
  "changes demo_grant_server d demo_tables (cat_schema demo_catalog ''app'') (revoke_usage_sql demo_grant_server ''auditor'' ''app'') id"
proof -
  have w: "cat_schema demo_catalog ''app'' = Some ''svc''" by (simp add: demo_catalog_def)
  note rules = demo_changes_law [OF demo_lookup_usage(1)] demo_changes_law [OF demo_lookup_usage(2)]
  show "changes demo_grant_server d demo_usage (cat_schema demo_catalog ''app'') (grant_usage_sql demo_grant_server ''auditor'' ''app'') (\<lambda>U. U \<union> {''app''})"
    "changes demo_grant_server d demo_usage (cat_schema demo_catalog ''app'') (revoke_usage_sql demo_grant_server ''auditor'' ''app'') (\<lambda>U. U - {''app''})"
    unfolding w demo_sql by (rule rules [of _ "\<lambda>acl. set (fst acl)"]; auto)+
  show "changes demo_grant_server d demo_tables (cat_schema demo_catalog ''app'') (grant_usage_sql demo_grant_server ''auditor'' ''app'') id"
    "changes demo_grant_server d demo_tables (cat_schema demo_catalog ''app'') (revoke_usage_sql demo_grant_server ''auditor'' ''app'') id"
    unfolding w demo_sql by (rule rules [of _ "\<lambda>acl. set (snd acl)"]; auto)+
qed

lemma demo_laws:
  "usage_laws demo_grant_server d demo_catalog ''auditor'' {''app''} demo_K demo_usage"
  "table_laws demo_grant_server d demo_catalog ''auditor'' {''app''} demo_K demo_tables"
  unfolding usage_laws_def table_laws_def
  using demo_changes_table demo_changes_usage by (simp_all add: demo_acl_quiet)

lemma demo_texts:
  "granted_schemas_sql \<noteq> table_grants_sql" "schema_owners_sql \<noteq> table_grants_sql" "schema_owners_sql \<noteq> granted_schemas_sql"
  "table_owners_sql \<noteq> table_grants_sql" "table_owners_sql \<noteq> granted_schemas_sql" "table_owners_sql \<noteq> schema_owners_sql"
  "schema_exists_sql \<noteq> table_grants_sql" "schema_exists_sql \<noteq> granted_schemas_sql" "schema_exists_sql \<noteq> schema_owners_sql"
  "schema_exists_sql \<noteq> table_owners_sql"
  "table_exists_sql \<noteq> table_grants_sql" "table_exists_sql \<noteq> granted_schemas_sql" "table_exists_sql \<noteq> schema_owners_sql"
  "table_exists_sql \<noteq> table_owners_sql"
  by code_simp+

lemma demo_query:
  "db_Query demo_grant_server d q as h = (Inr (good_rows (demo_answer h q)), h @ [EvQuery d q as (Inr (good_rows (demo_answer h q)))])"
  by (simp add: db_Query_def Let_def demo_grant_server_def)

lemma scan_good_rows3:
  "scan_rows sw ew scan3 (good_rows (map (\<lambda>k. [f k, g k, i k]) ks)) = Inr (map (\<lambda>k. (f k, g k, i k)) ks)"
proof -
  have "scan_each sw scan3 (map (\<lambda>k. Inr [f k, g k, i k]) ks) = Inr (map (\<lambda>k. (f k, g k, i k)) ks)"
    by (induction ks) (simp_all add: scan3_def)
  then show ?thesis by (simp add: scan_rows_def good_rows_def comp_def)
qed

lemma demo_reads: "reads_acl demo_grant_server d ''auditor'' demo_usage demo_tables"
  unfolding reads_acl_def currentTableGrants_def currentGrantedSchemas_def
  by (auto simp: onerr_def demo_query demo_answer_def demo_texts scan_good_rows3 row_grant_def comp_def grantKey_eta)

lemma demo_owners: "reads_owners demo_grant_server d demo_catalog {''app''} demo_K"
  unfolding reads_owners_def schemaOwnerMap_def tableOwnerMap_def
  by (auto simp: onerr_def demo_query demo_answer_def demo_texts scan_rows_def good_rows_def scan2_def scan3_def
      put_table_owner_def table_owner_def demo_key_def demo_catalog_def)

lemma demo_expands: "expands_to demo_grant_server id d demo_grants {demo_key ''t'' ''SELECT'', demo_key ''u'' ''SELECT''}"
proof -
  have upper: "ToUpper id ''select'' = ''SELECT''" by code_simp
  show ?thesis
    unfolding expands_to_def expandGrants_def expand_grant_def expand_schema_def resolveSchemas_def resolveTables_def
      demo_grants_def query_bool_def db_QueryRow_def
    by (auto simp: onerr_def demo_query demo_answer_def demo_texts good_rows_def scan_bool_def upper demo_key_def)
qed

lemma demo_svc_not_refused:
  assumes "q \<noteq> set_role plain_server ''other''"
  shows "\<not> refused demo_grant_server d ''svc'' q h h'"
proof -
  have "set_role plain_server ''svc'' \<noteq> set_role plain_server ''other''" by code_simp
  moreover have "srv_Begin demo_grant_server h d = Inr (length h)" "srv_Commit demo_grant_server h t = None"
    "q \<noteq> set_role plain_server ''other'' \<Longrightarrow> srv_TxExec demo_grant_server h t q = None" for h d t q
    by (simp_all add: demo_grant_server_def) (simp_all add: plain_server_def ref_server_def)
  ultimately have "fst (exec_as demo_grant_server d ''svc'' q h1) = Inr ()" for h1
    using assms by (simp add: exec_as_def execWithRole_def tx_Exec_def sql_calls Let_def demo_sql onerr_def of_error_def)
  then show ?thesis unfolding refused_def by (metis fst_conv sum.distinct(1))
qed

lemma demo_good_orders: "good_orders demo_orders"
  by (simp add: good_orders_def demo_orders_def is_range_def)

text \<open>The run reports success. On \<open>t\<close> and \<open>app\<close> the role has what is desired and no more; on \<open>u\<close> it has
  not, and by the theorem the reason is that the statement for it was refused.\<close>

theorem SyncDatabaseGrants_exact_witness:
  "let (r, h') = SyncDatabaseGrants demo_grant_server id demo_orders 0 ''auditor'' demo_grants []
   in r = Inr () \<and> demo_key ''t'' ''SELECT'' \<in> demo_tables h' \<and> demo_key ''t'' ''INSERT'' \<notin> demo_tables h' \<and> ''app'' \<in> demo_usage h'
     \<and> demo_key ''u'' ''SELECT'' \<in> tables_passed_over (grant_table_sql demo_grant_server) demo_grant_server 0 demo_catalog ''auditor'' [] h' - demo_tables h'"
proof -
  let ?run = "SyncDatabaseGrants demo_grant_server id demo_orders 0 ''auditor'' demo_grants []"
  let ?D = "{demo_key ''t'' ''SELECT'', demo_key ''u'' ''SELECT''}"
  have ok: "fst ?run = Inr ()" by code_simp
  have u: "demo_key ''u'' ''SELECT'' \<notin> demo_tables (snd ?run)" by code_simp
  from ok have run: "?run = (Inr (), snd ?run)" by (simp add: prod_eq_iff)
  have start: "demo_acl [] = ([], [demo_key ''t'' ''INSERT''])" by (simp add: demo_acl_def)
  have exact: "?D - tables_passed_over (grant_table_sql demo_grant_server) demo_grant_server 0 demo_catalog ''auditor'' [] (snd ?run) \<subseteq> demo_tables (snd ?run)
    \<and> demo_tables (snd ?run) \<subseteq> ?D \<union> tables_passed_over (revoke_table_sql demo_grant_server) demo_grant_server 0 demo_catalog ''auditor'' [] (snd ?run)
    \<and> gk_schema ` ?D - schemas_passed_over (grant_usage_sql demo_grant_server) demo_grant_server 0 demo_catalog ''auditor'' [] (snd ?run) \<subseteq> demo_usage (snd ?run)
    \<and> demo_usage (snd ?run) \<subseteq> gk_schema ` ?D \<union> schemas_passed_over (revoke_usage_sql demo_grant_server) demo_grant_server 0 demo_catalog ''auditor'' [] (snd ?run)"
    by (rule SyncDatabaseGrants_exact [OF run demo_laws demo_reads demo_expands demo_owners demo_good_orders])
      (simp_all add: start demo_key_def)
  have t: "\<not> passed_over demo_grant_server 0 (cat_table demo_catalog (''app'', ''t'')) (sql ''auditor'' (''app'', ''t'') privs) [] (snd ?run)"
    if "sql = grant_table_sql demo_grant_server \<or> sql = revoke_table_sql demo_grant_server" for sql privs
    using that demo_svc_not_refused by (auto simp: passed_over_def demo_catalog_def grant_table_sql_def revoke_table_sql_def set_role_def)
  have app: "''app'' \<notin> schemas_passed_over (grant_usage_sql demo_grant_server) demo_grant_server 0 demo_catalog ''auditor'' [] (snd ?run)"
    using demo_svc_not_refused by (auto simp: schemas_passed_over_def passed_over_def demo_catalog_def grant_usage_sql_def set_role_def)
  have over: "demo_key ''t'' p \<notin> tables_passed_over (grant_table_sql demo_grant_server) demo_grant_server 0 demo_catalog ''auditor'' [] (snd ?run)"
    "demo_key ''t'' p \<notin> tables_passed_over (revoke_table_sql demo_grant_server) demo_grant_server 0 demo_catalog ''auditor'' [] (snd ?run)" for p
    using t by (simp_all add: tables_passed_over_def demo_key_def)
  have "demo_key ''t'' ''SELECT'' \<in> demo_tables (snd ?run)" using exact over(1) by blast
  moreover have "demo_key ''t'' ''INSERT'' \<notin> ?D" by (simp add: demo_key_def)
  then have "demo_key ''t'' ''INSERT'' \<notin> demo_tables (snd ?run)" using exact over(2) by blast
  moreover have "''app'' \<in> gk_schema ` ?D" by (simp add: demo_key_def)
  then have "''app'' \<in> demo_usage (snd ?run)" using exact app by blast
  moreover have "demo_key ''u'' ''SELECT'' \<in> tables_passed_over (grant_table_sql demo_grant_server) demo_grant_server 0 demo_catalog ''auditor'' [] (snd ?run)
      - demo_tables (snd ?run)" using exact u by blast
  ultimately show ?thesis using ok unfolding case_prod_beta Let_def by (intro conjI)
qed

theorem SyncDatabaseGrants_no_outage_witness:
  "demo_tables (snd (SyncDatabaseGrants demo_grant_server id demo_orders 0 ''auditor'' demo_grants [])) \<subseteq> demo_K"
proof -
  have start: "demo_acl [] = ([], [demo_key ''t'' ''INSERT''])" by (simp add: demo_acl_def)
  let ?h = "snd (SyncDatabaseGrants demo_grant_server id demo_orders 0 ''auditor'' demo_grants [])"
  let ?D = "{demo_key ''t'' ''SELECT'', demo_key ''u'' ''SELECT''}"
  have "demo_tables [] \<inter> ?D \<subseteq> demo_tables ?h \<and> demo_tables ?h \<subseteq> demo_tables [] \<union> ?D \<and>
      demo_usage [] \<inter> gk_schema ` ?D \<subseteq> demo_usage ?h \<and> demo_usage ?h \<subseteq> demo_usage [] \<union> gk_schema ` ?D"
    by (rule SyncDatabaseGrants_no_outage [OF demo_laws(1) [of 0] demo_laws(2) demo_reads demo_expands demo_good_orders])
      (simp_all add: start demo_key_def)
  then show ?thesis by (auto simp: start)
qed

end
