(* ===== verification/Iam_Policy.thy ===== *)
theory Iam_Policy
  imports Go_Errors
begin

text \<open>
  \<open>pkg/iam/policy.go\<close>: the IAM policy documents that let a user log in to a database role, one
  statement per user. A document is changed in place in the source; here every operation
  returns the changed document.
\<close>

section \<open>Documents\<close>

record UserID =
  AWSUserID :: string

record StringLike =
  sl_StringLike :: UserID

record StatementEntry =
  se_Effect :: string
  se_Action :: "string list"
  se_Resource :: "string list"
  se_Condition :: StringLike

record PolicyDocument =
  pd_Version :: string
  pd_Statement :: "StatementEntry list"

record Policy =
  pol_Name :: string
  pol_CurrentVersionId :: string
  pol_Document :: PolicyDocument

definition NewPolicyDocument :: "string \<Rightarrow> PolicyDocument" where
  "NewPolicyDocument version = \<lparr>pd_Version = version, pd_Statement = []\<rparr>"

abbreviation statement_user :: "StatementEntry \<Rightarrow> string" where
  "statement_user s \<equiv> AWSUserID (sl_StringLike (se_Condition s))"

section \<open>Users and their identifiers\<close>

definition usernameToUserId :: "string \<Rightarrow> string" where
  "usernameToUserId username = ''*:'' @ username @ ''@lunar.app''"

definition userIdToUsername :: "string \<Rightarrow> string" where
  "userIdToUsername userID = TrimSuffix (TrimPrefix userID ''*:'') ''@lunar.app''"

definition ListUsers :: "PolicyDocument \<Rightarrow> string list" where
  "ListUsers p = map (\<lambda>statement. userIdToUsername (statement_user statement)) (pd_Statement p)"

fun any_statement :: "StatementEntry list \<Rightarrow> (StatementEntry \<Rightarrow> bool) \<Rightarrow> bool" where
  "any_statement [] f = False"
| "any_statement (v # vs) f = (if f v then True else any_statement vs f)"

definition Exists :: "PolicyDocument \<Rightarrow> string \<Rightarrow> bool" where
  "Exists p username =
     (let awsUserID = usernameToUserId username
      in any_statement (pd_Statement p) (\<lambda>s. statement_user s = awsUserID))"

definition Count :: "PolicyDocument \<Rightarrow> int" where
  "Count p = int (length (pd_Statement p))"

section \<open>Changing a document\<close>

definition formatStatementResource :: "string \<Rightarrow> string \<Rightarrow> string \<Rightarrow> string \<Rightarrow> string \<Rightarrow> string" where
  "formatStatementResource region accountID rolePrefix rolename awsUserID =
     ''arn:aws:rds-db:'' @ region @ '':'' @ accountID @ '':dbuser:*/'' @ rolePrefix @ rolename"

definition newStatementEntry :: "string \<Rightarrow> string \<Rightarrow> string \<Rightarrow> string \<Rightarrow> string \<Rightarrow> StatementEntry" where
  "newStatementEntry region accountID rolePrefix rolename awsUserID =
     \<lparr>se_Effect = ''Allow'',
      se_Action = [''rds-db:connect''],
      se_Resource = [formatStatementResource region accountID rolePrefix rolename awsUserID],
      se_Condition = \<lparr>sl_StringLike = \<lparr>AWSUserID = awsUserID\<rparr>\<rparr>\<rparr>"

definition Add :: "string \<Rightarrow> string \<Rightarrow> string \<Rightarrow> string \<Rightarrow> string \<Rightarrow> PolicyDocument \<Rightarrow> PolicyDocument" where
  "Add region accountID rolePrefix username rolename p =
     (let awsUserID = usernameToUserId username
      in p\<lparr>pd_Statement := pd_Statement p @ [newStatementEntry region accountID rolePrefix rolename awsUserID]\<rparr>)"

text \<open>The loop of \<open>Update\<close>: the statements kept or replaced so far, and whether one was
  replaced.\<close>

fun statement_loop :: "string \<Rightarrow> StatementEntry \<Rightarrow> string \<Rightarrow> StatementEntry list \<Rightarrow> StatementEntry list \<Rightarrow> bool \<Rightarrow> StatementEntry list \<times> bool" where
  "statement_loop resource fresh awsUserID [] statements updated = (statements, updated)"
| "statement_loop resource fresh awsUserID (s # ss) statements updated =
     (if statement_user s = awsUserID then
        if resource \<in> set (se_Resource s)
        then statement_loop resource fresh awsUserID ss (statements @ [s]) updated
        else statement_loop resource fresh awsUserID ss (statements @ [fresh]) True
      else statement_loop resource fresh awsUserID ss (statements @ [s]) updated)"

definition Update ::
    "string \<Rightarrow> string \<Rightarrow> string \<Rightarrow> string \<Rightarrow> string \<Rightarrow> PolicyDocument \<Rightarrow> PolicyDocument \<times> bool" where
  "Update region accountID rolePrefix username rolename p =
     (let awsUserID = usernameToUserId username;
          (statements, updated) =
            statement_loop (formatStatementResource region accountID rolePrefix rolename awsUserID)
              (newStatementEntry region accountID rolePrefix rolename awsUserID) awsUserID
              (pd_Statement p) [] False
      in (p\<lparr>pd_Statement := statements\<rparr>, updated))"

fun remove_loop :: "string \<Rightarrow> StatementEntry list \<Rightarrow> StatementEntry list \<Rightarrow> StatementEntry list" where
  "remove_loop awsUserID [] newStatements = newStatements"
| "remove_loop awsUserID (entry # es) newStatements =
     remove_loop awsUserID es
       (if statement_user entry \<noteq> awsUserID then newStatements @ [entry] else newStatements)"

definition Remove :: "string \<Rightarrow> PolicyDocument \<Rightarrow> PolicyDocument" where
  "Remove username p = p\<lparr>pd_Statement := remove_loop (usernameToUserId username) (pd_Statement p) []\<rparr>"

section \<open>Lemmas\<close>

text \<open>The identifier of a user in the conditions of the statements, as the specifications write it,
  and the identifiers that name a user when the two affixes are stripped.\<close>

definition user_id :: "string \<Rightarrow> string" where
  "user_id u = ''*:'' @ u @ ''@lunar.app''"

definition named_by :: "string \<Rightarrow> string \<Rightarrow> bool" where
  "named_by i u \<longleftrightarrow> i = ''*:'' @ u @ ''@lunar.app'' \<or> i = ''*:'' @ u \<and> \<not> suffix ''@lunar.app'' u
     \<or> \<not> prefix ''*:'' i \<and> (i = u @ ''@lunar.app'' \<or> i = u \<and> \<not> suffix ''@lunar.app'' u)"

lemma user_id_code [simp]: "user_id u = usernameToUserId u"
  by (simp add: user_id_def usernameToUserId_def)

lemma TrimPrefix_eq_iff: "TrimPrefix i p = j \<longleftrightarrow> i = p @ j \<or> i = j \<and> \<not> prefix p i"
  by (auto simp: TrimPrefix_def HasPrefix_def prefix_def)

lemma TrimSuffix_eq_iff: "TrimSuffix i p = j \<longleftrightarrow> i = j @ p \<or> i = j \<and> \<not> suffix p i"
  by (auto simp: TrimSuffix_def HasSuffix_def suffix_def)

lemma userIdToUsername_iff: "userIdToUsername i = u \<longleftrightarrow> named_by i u"
proof -
  obtain j where j: "TrimPrefix i ''*:'' = j" by blast
  then show ?thesis
    unfolding userIdToUsername_def j TrimSuffix_eq_iff named_by_def using j [unfolded TrimPrefix_eq_iff] by (auto simp: prefix_def)
qed

lemma any_statement_iff [simp]: "any_statement ss f \<longleftrightarrow> (\<exists>s\<in>set ss. f s)"
  by (induction ss) auto

lemma Exists_iff: "Exists p u \<longleftrightarrow> (\<exists>s\<in>set (pd_Statement p). statement_user s = usernameToUserId u)"
  by (simp add: Exists_def Let_def)

lemma user_id_roundtrip: "userIdToUsername (usernameToUserId u) = u"
proof -
  have "TrimPrefix (usernameToUserId u) ''*:'' = u @ ''@lunar.app''"
    unfolding usernameToUserId_def by (rule TrimPrefix_append)
  then show ?thesis unfolding userIdToUsername_def by (simp only: TrimSuffix_append)
qed

lemma usernameToUserId_inj [simp]: "usernameToUserId u = usernameToUserId v \<longleftrightarrow> u = v"
  by (metis user_id_roundtrip)

lemma remove_loop_filter: "remove_loop i es acc = acc @ filter (\<lambda>s. statement_user s \<noteq> i) es"
  by (induction es arbitrary: acc) auto

lemma pd_Statement_Remove:
  "pd_Statement (Remove u p) = filter (\<lambda>s. statement_user s \<noteq> usernameToUserId u) (pd_Statement p)"
  by (simp add: Remove_def remove_loop_filter)

definition refresh :: "string \<Rightarrow> StatementEntry \<Rightarrow> string \<Rightarrow> StatementEntry \<Rightarrow> StatementEntry" where
  "refresh resource fresh i s = (if statement_user s = i \<and> resource \<notin> set (se_Resource s) then fresh else s)"

lemma statement_loop_map:
  "statement_loop resource fresh i ss acc upd =
     (acc @ map (refresh resource fresh i) ss,
      upd \<or> (\<exists>s\<in>set ss. statement_user s = i \<and> resource \<notin> set (se_Resource s)))"
  by (induction ss arbitrary: acc upd) (auto simp: refresh_def)

lemma Update_eq:
  fixes p :: PolicyDocument and region acc pre :: string
  defines "res u r \<equiv> formatStatementResource region acc pre r (usernameToUserId u)"
    and "new u r \<equiv> newStatementEntry region acc pre r (usernameToUserId u)"
  shows "Update region acc pre u r p =
     (p\<lparr>pd_Statement := map (refresh (res u r) (new u r) (usernameToUserId u)) (pd_Statement p)\<rparr>,
      \<exists>s\<in>set (pd_Statement p). statement_user s = usernameToUserId u \<and> res u r \<notin> set (se_Resource s))"
  by (simp add: Update_def Let_def statement_loop_map res_def new_def)

lemma Update_unchanged: "Update region acc pre u r p = (q, False) \<Longrightarrow> q = p"
  unfolding Update_eq by (cases p) (auto simp: refresh_def intro!: map_idI)

lemma Count_Update: "Count (fst (Update region acc pre u r p)) = Count p"
  by (simp add: Update_eq Count_def)

lemma Count_Add: "Count (Add region acc pre u r p) = Count p + 1"
  by (simp add: Add_def Count_def Let_def)

text \<open>The role resources a document lets a user connect to.\<close>

definition resources_of :: "PolicyDocument \<Rightarrow> string \<Rightarrow> string set" where
  "resources_of p u = {x. \<exists>s\<in>set (pd_Statement p). statement_user s = user_id u \<and> x \<in> set (se_Resource s)}"

lemma resources_of_Remove:
  "resources_of (Remove u p) v = (if v = u then {} else resources_of p v)"
  by (auto simp: resources_of_def pd_Statement_Remove)

lemma statement_user_new [simp]: "statement_user (newStatementEntry region acc pre r i) = i"
  by (simp add: newStatementEntry_def)

lemma se_Resource_new [simp]:
  "se_Resource (newStatementEntry region acc pre r i) = [formatStatementResource region acc pre r i]"
  by (simp add: newStatementEntry_def)

lemma resources_of_Add:
  "resources_of (Add region acc pre u r p) v =
     (if v = u then insert (formatStatementResource region acc pre r (usernameToUserId u)) (resources_of p v)
      else resources_of p v)"
  by (auto simp: resources_of_def Add_def Let_def)

lemma refresh_user:
  "statement_user (refresh x (newStatementEntry region acc pre r i) i s) = statement_user s"
  by (simp add: refresh_def)

lemma refresh_resource:
  "statement_user s = i \<Longrightarrow>
     formatStatementResource region acc pre r i
       \<in> set (se_Resource (refresh (formatStatementResource region acc pre r i) (newStatementEntry region acc pre r i) i s))"
  by (simp add: refresh_def)

lemma resources_of_Update_self:
  assumes "Exists p u"
  shows "formatStatementResource region acc pre r (usernameToUserId u)
    \<in> resources_of (fst (Update region acc pre u r p)) u"
proof -
  obtain s where "s \<in> set (pd_Statement p)" and "statement_user s = usernameToUserId u"
    using assms by (auto simp: Exists_iff)
  then show ?thesis
    using refresh_resource [of s "usernameToUserId u" region acc pre r]
    by (force simp: resources_of_def Update_eq refresh_user)
qed

lemma refresh_other: "statement_user s \<noteq> i \<Longrightarrow> refresh x y i s = s"
  by (simp add: refresh_def)

lemma resources_of_Update_other:
  assumes "v \<noteq> u"
  shows "resources_of (fst (Update region acc pre u r p)) v = resources_of p v"
  using assms by (force simp: resources_of_def Update_eq refresh_user refresh_other)

lemma Exists_Update: "Exists (fst (Update region acc pre u r p)) v = Exists p v"
  by (simp add: Exists_iff Update_eq refresh_user)

end
