(* ===== verification/Json.thy ===== *)
theory Json
  imports Go_Errors
begin

text \<open>
  Package \<open>encoding/json\<close> of Go 1.22 for values built from strings, slices and structs, which is
  what the policy documents of \<open>pkg/iam\<close> are made of.

  \<open>gotype\<close> is the shape of a Go type: for every field of a struct its name in the tag and whether
  the tag says \<open>omitempty\<close>. \<open>goval\<close> is a value of it; a slice is its backing array, as far as it
  was ever written, and its length. \<open>Marshal\<close> prints the tree of a value. \<open>Unmarshal\<close> first checks
  the whole text, as \<open>checkValid\<close> does, with a stack of open arrays and objects of at most 10000
  levels, and then stores the tree into the value that is there: a field named twice is stored
  twice, and elements of a slice are decoded into the elements the array already holds. A tree
  that does not fit the type gives an error; the texts of the errors are not modelled.
\<close>

section \<open>UTF-8\<close>

definition byte :: "char \<Rightarrow> int" where
  "byte c = of_char c"

definition continuation :: "char \<Rightarrow> bool" where
  "continuation c = (128 \<le> byte c \<and> byte c < 192)"

text \<open>The number of bytes of the rune a string begins with, 0 when they are not valid UTF-8.\<close>

fun rune_len :: "string \<Rightarrow> nat" where
  "rune_len [] = 0"
| "rune_len (a # s) =
     (let n = byte a in
      if n < 128 then 1
      else if 194 \<le> n \<and> n < 224 then
        (case s of b # _ \<Rightarrow> if continuation b then 2 else 0 | _ \<Rightarrow> 0)
      else if 224 \<le> n \<and> n < 240 then
        (case s of b # c # _ \<Rightarrow>
           if continuation b \<and> continuation c \<and> (n = 224 \<longrightarrow> 160 \<le> byte b) \<and> (n = 237 \<longrightarrow> byte b < 160) then 3 else 0
         | _ \<Rightarrow> 0)
      else if 240 \<le> n \<and> n < 245 then
        (case s of b # c # d # _ \<Rightarrow>
           if continuation b \<and> continuation c \<and> continuation d
              \<and> (n = 240 \<longrightarrow> 144 \<le> byte b) \<and> (n = 244 \<longrightarrow> byte b < 144) then 4 else 0
         | _ \<Rightarrow> 0)
      else 0)"

declare rune_len.simps(2) [simp del]

function utf8 :: "string \<Rightarrow> bool" where
  "utf8 [] = True"
| "utf8 (a # s) = (if rune_len (a # s) = 0 then False else utf8 (drop (rune_len (a # s)) (a # s)))"
  by pat_completeness auto
termination by (relation "measure length") auto

declare utf8.simps(2) [simp del]

definition replacement :: string where
  "replacement = [CHR 0xEF, CHR 0xBF, CHR 0xBD]"

text \<open>\<open>utf8.EncodeRune\<close>.\<close>

definition EncodeRune :: "int \<Rightarrow> string" where
  "EncodeRune r =
     (if r < 128 then [char_of r]
      else if r < 2048 then [char_of (192 + r div 64), char_of (128 + r mod 64)]
      else if 55296 \<le> r \<and> r < 57344 \<or> 1114112 \<le> r then replacement
      else if r < 65536 then [char_of (224 + r div 4096), char_of (128 + r div 64 mod 64), char_of (128 + r mod 64)]
      else [char_of (240 + r div 262144), char_of (128 + r div 4096 mod 64), char_of (128 + r div 64 mod 64),
            char_of (128 + r mod 64)])"

section \<open>Strings\<close>

abbreviation backslash :: char where "backslash \<equiv> CHR 0x5C"
abbreviation dquote :: char where "dquote \<equiv> CHR 0x22"

definition lower_hex :: "int \<Rightarrow> char" where
  "lower_hex n = ''0123456789abcdef'' ! nat (n mod 16)"

definition unhex :: "char \<Rightarrow> int option" where
  "unhex c =
     (let n = byte c
      in if 48 \<le> n \<and> n \<le> 57 then Some (n - 48)
         else if 97 \<le> n \<and> n \<le> 102 then Some (n - 87)
         else if 65 \<le> n \<and> n \<le> 70 then Some (n - 55)
         else None)"

text \<open>\<open>appendString\<close> with \<open>escapeHTML\<close>, between the quotes.\<close>

definition escape_ascii :: "char \<Rightarrow> string" where
  "escape_ascii c =
     (if c = dquote \<or> c = backslash then [backslash, c]
      else if c = CHR 0x08 then [backslash, CHR ''b'']
      else if c = CHR 0x0C then [backslash, CHR ''f'']
      else if c = CHR 0x0A then [backslash, CHR ''n'']
      else if c = CHR 0x0D then [backslash, CHR ''r'']
      else if c = CHR 0x09 then [backslash, CHR ''t'']
      else if byte c < 32 \<or> c = CHR ''<'' \<or> c = CHR ''>'' \<or> c = CHR ''&''
        then [backslash, CHR ''u'', CHR ''0'', CHR ''0'', lower_hex (byte c div 16), lower_hex (byte c mod 16)]
      else [c])"

definition escape_rune :: "string \<Rightarrow> string" where
  "escape_rune r =
     (if r = [CHR 0xE2, CHR 0x80, CHR 0xA8] then backslash # ''u2028''
      else if r = [CHR 0xE2, CHR 0x80, CHR 0xA9] then backslash # ''u2029''
      else r)"

function quote :: "string \<Rightarrow> string" where
  "quote [] = []"
| "quote (c # s) =
     (if byte c < 128 then escape_ascii c @ quote s
      else let k = rune_len (c # s)
           in if k = 0 then (backslash # ''ufffd'') @ quote s
              else escape_rune (take k (c # s)) @ quote (drop k (c # s)))"
  by pat_completeness auto
termination by (relation "measure length") auto

declare quote.simps(2) [simp del]

text \<open>\<open>getu4\<close>: four hexadecimal digits; \<open>getu4_escape\<close>: the same after a further \<open>\u\<close>.\<close>

fun getu4 :: "string \<Rightarrow> int option" where
  "getu4 (a # b # c # d # _) =
     (case (unhex a, unhex b, unhex c, unhex d) of
        (Some w, Some x, Some y, Some z) \<Rightarrow> Some (4096 * w + 256 * x + 16 * y + z)
      | _ \<Rightarrow> None)"
| "getu4 _ = None"

fun getu4_escape :: "string \<Rightarrow> int option" where
  "getu4_escape (a # b # s) = (if a = backslash \<and> b = CHR ''u'' then getu4 s else None)"
| "getu4_escape _ = None"

definition unescape :: "char \<Rightarrow> char" where
  "unescape e =
     (if e = CHR ''b'' then CHR 0x08 else if e = CHR ''f'' then CHR 0x0C else if e = CHR ''n'' then CHR 0x0A
      else if e = CHR ''r'' then CHR 0x0D else if e = CHR ''t'' then CHR 0x09 else e)"

text \<open>\<open>unquoteBytes\<close> on the text between the quotes, whose escapes the scanner has checked.\<close>

function unquote :: "string \<Rightarrow> string" where
  "unquote [] = []"
| "unquote (c # s) =
     (if c = backslash then
        (case s of
           [] \<Rightarrow> []
         | e # t \<Rightarrow>
             if e = CHR ''u'' then
               (case getu4 t of
                  None \<Rightarrow> []
                | Some rr \<Rightarrow>
                    if 55296 \<le> rr \<and> rr < 57344 then
                      (case getu4_escape (drop 4 t) of
                         Some rr1 \<Rightarrow>
                           if rr < 56320 \<and> 56320 \<le> rr1 \<and> rr1 < 57344
                           then EncodeRune ((rr - 55296) * 1024 + (rr1 - 56320) + 65536) @ unquote (drop 10 t)
                           else replacement @ unquote (drop 4 t)
                       | None \<Rightarrow> replacement @ unquote (drop 4 t))
                    else EncodeRune rr @ unquote (drop 4 t))
             else if e \<in> set (dquote # backslash # CHR 0x27 # ''/bfnrt'') then unescape e # unquote t
             else [])
      else if byte c < 128 then c # unquote s
      else let k = rune_len (c # s)
           in if k = 0 then replacement @ unquote s else take k (c # s) @ unquote (drop k (c # s)))"
  by pat_completeness auto
termination by (relation "measure length") auto

declare unquote.simps(2) [simp del]

section \<open>Scanning\<close>

datatype token =
    LBrace | RBrace | LBracket | RBracket | Colon | Comma
  | TString string | TNumber string | TTrue | TFalse | TNull

definition is_space :: "char \<Rightarrow> bool" where
  "is_space c = (c = CHR '' '' \<or> c = CHR 0x09 \<or> c = CHR 0x0D \<or> c = CHR 0x0A)"

definition is_digit :: "char \<Rightarrow> bool" where
  "is_digit c = (48 \<le> byte c \<and> byte c \<le> 57)"

text \<open>The text of a string up to its closing quote, and the rest.\<close>

fun lex_string :: "string \<Rightarrow> (string \<times> string) option" where
  "lex_string [] = None"
| "lex_string (c # s) =
     (if c = dquote then Some ([], s)
      else if c = backslash then
        (case s of
           [] \<Rightarrow> None
         | e # t \<Rightarrow>
             if e = CHR ''u'' then
               (case getu4 t of
                  None \<Rightarrow> None
                | Some _ \<Rightarrow> map_option (\<lambda>(r, rest). (c # e # r, rest)) (lex_string t))
             else if e \<in> set (dquote # backslash # ''/bfnrt'')
               then map_option (\<lambda>(r, rest). (c # e # r, rest)) (lex_string t)
             else None)
      else if byte c < 32 then None
      else map_option (\<lambda>(r, rest). (c # r, rest)) (lex_string s))"

text \<open>A number: sign, integer part without leading zeros, fraction, exponent.\<close>

definition lex_digits :: "string \<Rightarrow> (string \<times> string) option" where
  "lex_digits s = (let d = takeWhile is_digit s in if d = [] then None else Some (d, dropWhile is_digit s))"

definition lex_int :: "string \<Rightarrow> (string \<times> string) option" where
  "lex_int s = (case s of [] \<Rightarrow> None | c # t \<Rightarrow> if c = CHR ''0'' then Some ([c], t) else lex_digits s)"

definition lex_frac :: "string \<Rightarrow> (string \<times> string) option" where
  "lex_frac s =
     (case s of
        [] \<Rightarrow> Some ([], s)
      | c # t \<Rightarrow> if c = CHR ''.'' then map_option (\<lambda>(d, r). (c # d, r)) (lex_digits t) else Some ([], s))"

definition lex_exp :: "string \<Rightarrow> (string \<times> string) option" where
  "lex_exp s =
     (case s of
        [] \<Rightarrow> Some ([], s)
      | c # t \<Rightarrow>
          if c = CHR ''e'' \<or> c = CHR ''E'' then
            (case t of
               [] \<Rightarrow> None
             | g # u \<Rightarrow>
                 if g = CHR ''+'' \<or> g = CHR ''-'' then map_option (\<lambda>(d, r). (c # g # d, r)) (lex_digits u)
                 else map_option (\<lambda>(d, r). (c # d, r)) (lex_digits t))
          else Some ([], s))"

definition lex_number :: "string \<Rightarrow> (string \<times> string) option" where
  "lex_number s =
     (let (sign, s0) = (case s of c # t \<Rightarrow> if c = CHR ''-'' then ([c], t) else ([], s) | [] \<Rightarrow> ([], s)) in
      case lex_int s0 of
        None \<Rightarrow> None
      | Some (a, s1) \<Rightarrow>
         (case lex_frac s1 of
            None \<Rightarrow> None
          | Some (b, s2) \<Rightarrow> map_option (\<lambda>(e, s3). (sign @ a @ b @ e, s3)) (lex_exp s2)))"

definition punctuation :: "char \<Rightarrow> token option" where
  "punctuation c =
     (if c = CHR ''{'' then Some LBrace else if c = CHR ''}'' then Some RBrace
      else if c = CHR ''['' then Some LBracket else if c = CHR '']'' then Some RBracket
      else if c = CHR '':'' then Some Colon else if c = CHR '','' then Some Comma else None)"

text \<open>The token a text begins with, and the rest. The text begins with no space.\<close>

definition lex_one :: "string \<Rightarrow> (token \<times> string) option" where
  "lex_one s =
     (case s of
        [] \<Rightarrow> None
      | c # t \<Rightarrow>
         (case punctuation c of
            Some p \<Rightarrow> Some (p, t)
          | None \<Rightarrow>
              if c = dquote then map_option (\<lambda>(r, u). (TString r, u)) (lex_string t)
              else if prefix ''true'' s then Some (TTrue, drop 4 s)
              else if prefix ''false'' s then Some (TFalse, drop 5 s)
              else if prefix ''null'' s then Some (TNull, drop 4 s)
              else map_option (\<lambda>(r, u). (TNumber r, u)) (lex_number s)))"
lemma lex_string_shorter: "lex_string s = Some (r, u) \<Longrightarrow> length u < length s"
  by (induction s arbitrary: r u rule: lex_string.induct)
    (fastforce split: if_splits list.splits option.splits)+

lemma lex_digits_shorter: "lex_digits s = Some (r, u) \<Longrightarrow> length u < length s"
proof -
  assume a: "lex_digits s = Some (r, u)"
  then have "takeWhile is_digit s \<noteq> []" and u: "u = dropWhile is_digit s"
    by (auto simp: lex_digits_def Let_def split: if_splits)
  moreover have "length s = length (takeWhile is_digit s) + length (dropWhile is_digit s)"
    by (simp flip: length_append)
  ultimately show ?thesis by simp
qed

lemma lex_number_shorter: "lex_number s = Some (r, u) \<Longrightarrow> length u < length s"
proof -
  have i: "lex_int s = Some (r, u) \<Longrightarrow> length u < length s" for s r u
    by (auto simp: lex_int_def split: list.splits if_splits dest: lex_digits_shorter)
  have f: "lex_frac s = Some (r, u) \<Longrightarrow> length u \<le> length s" for s r u
    by (auto simp: lex_frac_def split: list.splits if_splits dest: lex_digits_shorter)
  have e: "lex_exp s = Some (r, u) \<Longrightarrow> length u \<le> length s" for s r u
    by (auto simp: lex_exp_def split: list.splits if_splits dest: lex_digits_shorter)
  have s: "length (snd (case s of c # t \<Rightarrow> if c = CHR ''-'' then ([c], t) else ([], s) | [] \<Rightarrow> ([], s))) \<le> length s" for s :: string
    by (simp split: list.split)
  assume "lex_number s = Some (r, u)"
  then show ?thesis
    using s [of s] by (auto simp: lex_number_def Let_def split: prod.splits option.splits dest!: i f e)
qed

lemma lex_one_shorter: "lex_one s = Some (t, u) \<Longrightarrow> length u < length s"
  by (auto simp: lex_one_def split: list.splits option.splits if_splits dest!: lex_string_shorter lex_number_shorter)

function lex :: "string \<Rightarrow> token list option" where
  "lex [] = Some []"
| "lex (c # s) =
     (if is_space c then lex s
      else case lex_one (c # s) of
          None \<Rightarrow> None
        | Some (t, u) \<Rightarrow> map_option ((#) t) (lex u))"
  by pat_completeness auto
termination by (relation "measure length") (auto dest: lex_one_shorter)

declare lex.simps(2) [simp del]

section \<open>Parsing\<close>

datatype json =
    JNull
  | JBool bool
  | JNum string
  | JStr string
  | JArr "json list"
  | JObj "(string \<times> json) list"

text \<open>What is expected next, and the arrays and objects that are open: their elements so far, and
  for an object the key whose value is being read.\<close>

datatype expected = Begin | BeginOrEnd | Key | KeyOrEnd | AfterKey string | Got json

datatype frame = InArray "json list" | InObject "(string \<times> json) list" string

type_synonym parse_state = "expected \<times> frame list"

definition maxNestingDepth :: int where
  "maxNestingDepth = 10000"

definition push :: "expected \<Rightarrow> frame \<Rightarrow> frame list \<Rightarrow> parse_state option" where
  "push e f stk = (if int (length stk) < maxNestingDepth then Some (e, f # stk) else None)"

definition begins :: "expected \<Rightarrow> bool" where
  "begins e = (e = Begin \<or> e = BeginOrEnd)"

fun parse_step :: "token \<Rightarrow> parse_state \<Rightarrow> parse_state option" where
  "parse_step LBracket (e, stk) = (if begins e then push BeginOrEnd (InArray []) stk else None)"
| "parse_step LBrace (e, stk) = (if begins e then push KeyOrEnd (InObject [] []) stk else None)"
| "parse_step (TString r) (e, stk) =
     (if begins e then Some (Got (JStr (unquote r)), stk)
      else if e = Key \<or> e = KeyOrEnd then Some (AfterKey (unquote r), stk)
      else None)"
| "parse_step (TNumber n) (e, stk) = (if begins e then Some (Got (JNum n), stk) else None)"
| "parse_step TTrue (e, stk) = (if begins e then Some (Got (JBool True), stk) else None)"
| "parse_step TFalse (e, stk) = (if begins e then Some (Got (JBool False), stk) else None)"
| "parse_step TNull (e, stk) = (if begins e then Some (Got JNull, stk) else None)"
| "parse_step Colon (e, stk) =
     (case (e, stk) of (AfterKey k, InObject ms _ # fs) \<Rightarrow> Some (Begin, InObject ms k # fs) | _ \<Rightarrow> None)"
| "parse_step Comma (e, stk) =
     (case (e, stk) of
        (Got v, InArray vs # fs) \<Rightarrow> Some (Begin, InArray (vs @ [v]) # fs)
      | (Got v, InObject ms k # fs) \<Rightarrow> Some (Key, InObject (ms @ [(k, v)]) [] # fs)
      | _ \<Rightarrow> None)"
| "parse_step RBracket (e, stk) =
     (case (e, stk) of
        (Got v, InArray vs # fs) \<Rightarrow> Some (Got (JArr (vs @ [v])), fs)
      | (BeginOrEnd, InArray vs # fs) \<Rightarrow> Some (Got (JArr vs), fs)
      | _ \<Rightarrow> None)"
| "parse_step RBrace (e, stk) =
     (case (e, stk) of
        (Got v, InObject ms k # fs) \<Rightarrow> Some (Got (JObj (ms @ [(k, v)])), fs)
      | (KeyOrEnd, InObject ms k # fs) \<Rightarrow> Some (Got (JObj ms), fs)
      | _ \<Rightarrow> None)"

primrec parse_run :: "token list \<Rightarrow> parse_state \<Rightarrow> parse_state option" where
  "parse_run [] st = Some st"
| "parse_run (t # ts) st = (case parse_step t st of None \<Rightarrow> None | Some st' \<Rightarrow> parse_run ts st')"

definition parse_json :: "string \<Rightarrow> json option" where
  "parse_json s =
     (case lex s of
        None \<Rightarrow> None
      | Some ts \<Rightarrow> (case parse_run ts (Begin, []) of Some (Got v, []) \<Rightarrow> Some v | _ \<Rightarrow> None))"

section \<open>Types and values\<close>

datatype gotype = GString | GSlice gotype | GStruct "(string \<times> bool \<times> gotype) list"

datatype goval = VString string | VSlice "goval list" nat | VStruct "goval list"

fun zero :: "gotype \<Rightarrow> goval" where
  "zero GString = VString []"
| "zero (GSlice t) = VSlice [] 0"
| "zero (GStruct fs) = VStruct (map (\<lambda>(name, omit, t). zero t) fs)"

text \<open>\<open>isEmptyValue\<close>.\<close>

fun isEmptyValue :: "goval \<Rightarrow> bool" where
  "isEmptyValue (VString s) = (s = [])"
| "isEmptyValue (VSlice vs n) = (n = 0)"
| "isEmptyValue (VStruct vs) = False"

text \<open>The tree that is printed for a value: fields in order, empty ones left out where the tag
  says so.\<close>

fun json_of :: "gotype \<Rightarrow> goval \<Rightarrow> json"
  and json_fields :: "(string \<times> bool \<times> gotype) list \<Rightarrow> goval list \<Rightarrow> (string \<times> json) list" where
  "json_of GString (VString s) = JStr s"
| "json_of (GSlice t) (VSlice vs n) = JArr (map (json_of t) (take n vs))"
| "json_of (GStruct fs) (VStruct vs) = JObj (json_fields fs vs)"
| "json_of _ _ = JNull"
| "json_fields ((name, omit, t) # fs) (v # vs) =
     (if omit \<and> isEmptyValue v then json_fields fs vs else (name, json_of t v) # json_fields fs vs)"
| "json_fields _ _ = []"

definition print_string :: "string \<Rightarrow> string" where
  "print_string s = dquote # quote s @ [dquote]"

fun print_json :: "json \<Rightarrow> string" where
  "print_json JNull = ''null''"
| "print_json (JBool b) = (if b then ''true'' else ''false'')"
| "print_json (JNum n) = n"
| "print_json (JStr s) = print_string s"
| "print_json (JArr js) = ''['' @ Join (map print_json js) '','' @ '']''"
| "print_json (JObj ms) = ''{'' @ Join (map (\<lambda>(k, j). print_string k @ '':'' @ print_json j) ms) '','' @ ''}''"

definition Marshal :: "gotype \<Rightarrow> goval \<Rightarrow> goerr + string" where
  "Marshal t v = Inr (print_json (json_of t v))"

section \<open>Decoding\<close>

text \<open>\<open>foldName\<close>: field names are compared up to case. The two runes outside ASCII that fold to an
  ASCII letter are the long s and the Kelvin sign.\<close>

fun foldName :: "string \<Rightarrow> string" where
  "foldName (a # b # c # s) =
     (if [a, b, c] = [CHR 0xE2, CHR 0x84, CHR 0xAA] then CHR ''K'' # foldName s
      else if [a, b] = [CHR 0xC5, CHR 0xBF] then CHR ''S'' # foldName (c # s)
      else (if 97 \<le> byte a \<and> byte a \<le> 122 then char_of (byte a - 32) else a) # foldName (b # c # s))"
| "foldName [a, b] =
     (if [a, b] = [CHR 0xC5, CHR 0xBF] then ''S''
      else (if 97 \<le> byte a \<and> byte a \<le> 122 then char_of (byte a - 32) else a) # foldName [b])"
| "foldName [a] = [if 97 \<le> byte a \<and> byte a \<le> 122 then char_of (byte a - 32) else a]"
| "foldName [] = []"

fun index_of :: "('a \<Rightarrow> bool) \<Rightarrow> 'a list \<Rightarrow> nat option" where
  "index_of P [] = None"
| "index_of P (x # xs) = (if P x then Some 0 else map_option Suc (index_of P xs))"

definition field_index :: "(string \<times> bool \<times> gotype) list \<Rightarrow> string \<Rightarrow> nat option" where
  "field_index fs key =
     (case index_of (\<lambda>f. fst f = key) fs of
        Some i \<Rightarrow> Some i
      | None \<Rightarrow> index_of (\<lambda>f. foldName (fst f) = foldName key) fs)"

text \<open>Storing a tree into a value: the new value, and whether an error was saved.\<close>

fun decode :: "gotype \<Rightarrow> json \<Rightarrow> goval \<Rightarrow> goval \<times> bool"
  and decode_elems :: "gotype \<Rightarrow> json list \<Rightarrow> goval list \<Rightarrow> goval list \<times> bool"
  and decode_members :: "(string \<times> bool \<times> gotype) list \<Rightarrow> (string \<times> json) list \<Rightarrow> goval list \<Rightarrow> goval list \<times> bool" where
  "decode t JNull v = (case t of GSlice _ \<Rightarrow> (zero t, False) | _ \<Rightarrow> (v, False))"
| "decode t (JBool b) v = (v, True)"
| "decode t (JNum n) v = (v, True)"
| "decode t (JStr s) v = (case t of GString \<Rightarrow> (VString s, False) | _ \<Rightarrow> (v, True))"
| "decode t (JArr js) v =
     (case (t, v) of
        (GSlice u, VSlice arr n) \<Rightarrow>
          if js = [] then (VSlice [] 0, False)
          else (case decode_elems u js arr of (arr', err) \<Rightarrow> (VSlice arr' (length js), err))
      | _ \<Rightarrow> (v, True))"
| "decode t (JObj ms) v =
     (case (t, v) of
        (GStruct fs, VStruct vs) \<Rightarrow> (case decode_members fs ms vs of (vs', err) \<Rightarrow> (VStruct vs', err))
      | _ \<Rightarrow> (v, True))"
| "decode_elems u [] arr = (arr, False)"
| "decode_elems u (j # js) arr =
     (case decode u j (case arr of [] \<Rightarrow> zero u | a # _ \<Rightarrow> a) of
        (x, e1) \<Rightarrow> (case decode_elems u js (tl arr) of (xs, e2) \<Rightarrow> (x # xs, e1 \<or> e2)))"
| "decode_members fs [] vs = (vs, False)"
| "decode_members fs ((k, j) # ms) vs =
     (case field_index fs k of
        None \<Rightarrow> decode_members fs ms vs
      | Some i \<Rightarrow>
         (case decode (snd (snd (fs ! i))) j (vs ! i) of
            (x, e1) \<Rightarrow> (case decode_members fs ms (vs[i := x]) of (ws, e2) \<Rightarrow> (ws, e1 \<or> e2))))"

definition Unmarshal :: "gotype \<Rightarrow> string \<Rightarrow> goerr + goval" where
  "Unmarshal t s =
     (case parse_json s of
        None \<Rightarrow> Inl (ExtError ''json: syntax error'')
      | Some j \<Rightarrow>
         (case decode t j (zero t) of
            (v, err) \<Rightarrow> if err then Inl (ExtError ''json: cannot unmarshal'') else Inr v))"

end
