(* ===== verification/Json_Laws.thy ===== *)
theory Json_Laws
  imports Json
begin

text \<open>
  What the rest of the development needs of \<open>encoding/json\<close>: strings that come out of \<open>Unmarshal\<close>
  are valid UTF-8, and a value whose strings are valid UTF-8 is read back as it was written.
\<close>

section \<open>UTF-8\<close>

lemma byte_bounds [simp]: "0 \<le> byte c" "byte c < 256"
  unfolding byte_def by (metis of_char_mod_256 pos_mod_sign pos_mod_bound zero_less_numeral)+

lemma byte_char_of: "byte (char_of n) = n mod 256"
  by (simp add: byte_def)

lemma byte_eq_iff: "byte c = byte d \<longleftrightarrow> c = d"
  by (simp add: byte_def)

lemma rune_len_ascii: "byte c < 128 \<Longrightarrow> rune_len (c # s) = 1"
  by (simp add: rune_len.simps)

lemma rune_len_le: "rune_len s \<le> length s"
  by (cases s) (auto simp: rune_len.simps Let_def split: list.splits)

lemma rune_len_append: "rune_len s \<noteq> 0 \<Longrightarrow> rune_len (s @ t) = rune_len s"
proof -
  assume s: "rune_len s \<noteq> 0"
  consider a where "s = [a]" | a b where "s = [a, b]" | a b c where "s = [a, b, c]" | a b c d u where "s = a # b # c # d # u"
    using s by (metis neq_Nil_conv rune_len.simps(1))
  then show ?thesis using s by cases (auto simp: rune_len.simps Let_def split: if_splits)
qed

lemma rune_len_take: "rune_len (take (rune_len s) s) = rune_len s"
  by (cases s) (auto simp: rune_len.simps Let_def split: list.splits if_splits)

lemma utf8_Cons: "utf8 (c # s) \<longleftrightarrow> rune_len (c # s) \<noteq> 0 \<and> utf8 (drop (rune_len (c # s)) (c # s))"
  by (simp add: utf8.simps)

lemma utf8_ascii_Cons [simp]: "byte c < 128 \<Longrightarrow> utf8 (c # s) = utf8 s"
  by (simp add: utf8_Cons rune_len_ascii)

lemma utf8_append: "utf8 s \<Longrightarrow> utf8 t \<Longrightarrow> utf8 (s @ t)"
proof (induction s rule: utf8.induct)
  case 1
  then show ?case by simp
next
  case (2 c s)
  let ?k = "rune_len (c # s)"
  have k: "?k \<noteq> 0" "utf8 (drop ?k (c # s))" using 2(2) by (simp_all add: utf8_Cons)
  have "rune_len ((c # s) @ t) = ?k" using k(1) by (rule rune_len_append)
  moreover have "drop ?k ((c # s) @ t) = drop ?k (c # s) @ t"
    using rune_len_le [of "c # s"] by (simp only: drop_append) simp
  ultimately show ?case using 2(1) [OF k(1) k(2) 2(3)] k(1) by (simp add: utf8_Cons del: drop_append)
qed

lemma utf8_rune: "rune_len s = length s \<Longrightarrow> utf8 s"
  by (cases s) (simp_all add: utf8_Cons)

lemma utf8_EncodeRune: "0 \<le> r \<Longrightarrow> utf8 (EncodeRune r)"
proof -
  assume r: "0 \<le> r"
  consider "r < 128" | "128 \<le> r" "r < 2048" | "55296 \<le> r \<and> r < 57344 \<or> 1114112 \<le> r"
    | "2048 \<le> r" "r < 65536" "\<not> (55296 \<le> r \<and> r < 57344)" | "65536 \<le> r" "r < 1114112" by linarith
  then show ?thesis
  proof cases
    case 1
    then show ?thesis using r by (simp add: EncodeRune_def byte_char_of)
  next
    case 2
    then have "2 \<le> r div 64" "r div 64 < 32" by linarith+
    with 2 show ?thesis
      by (intro utf8_rune) (simp add: EncodeRune_def rune_len.simps continuation_def byte_char_of)
  next
    case 3
    then have "EncodeRune r = replacement" by (auto simp: EncodeRune_def)
    moreover have "rune_len replacement = length replacement" by code_simp
    ultimately show ?thesis by (metis utf8_rune)
  next
    case 4
    define q where "q = r div 64"
    have q: "r div 4096 = q div 64" unfolding q_def by (simp flip: zdiv_zmult2_eq)
    have "32 \<le> q" "q < 1024" "\<not> (864 \<le> q \<and> q < 896)" using 4 unfolding q_def by linarith+
    moreover have "q = 64 * (q div 64) + q mod 64" "0 \<le> q mod 64" "q mod 64 < 64" by simp_all
    ultimately have b: "0 \<le> q div 64" "q div 64 < 16" "q div 64 = 0 \<Longrightarrow> 32 \<le> q mod 64"
      "q div 64 = 13 \<Longrightarrow> q mod 64 < 32" "0 \<le> q mod 64" "q mod 64 < 64" by linarith+
    from 4 have "EncodeRune r = [char_of (224 + q div 64), char_of (128 + q mod 64), char_of (128 + r mod 64)]"
      by (auto simp: EncodeRune_def q simp flip: q_def)
    with b show ?thesis
      by (intro utf8_rune) (simp add: rune_len.simps continuation_def byte_char_of)
  next
    case 5
    define q where "q = r div 4096"
    have q: "r div 262144 = q div 64" unfolding q_def by (simp flip: zdiv_zmult2_eq)
    have "16 \<le> q" "q < 272" using 5 unfolding q_def by linarith+
    moreover have "q = 64 * (q div 64) + q mod 64" "0 \<le> q mod 64" "q mod 64 < 64" by simp_all
    ultimately have b: "0 \<le> q div 64" "q div 64 < 5" "q div 64 = 0 \<Longrightarrow> 16 \<le> q mod 64"
      "q div 64 = 4 \<Longrightarrow> q mod 64 < 16" "0 \<le> q mod 64" "q mod 64 < 64" by linarith+
    from 5 have "EncodeRune r = [char_of (240 + q div 64), char_of (128 + q mod 64),
        char_of (128 + r div 64 mod 64), char_of (128 + r mod 64)]"
      by (auto simp: EncodeRune_def q simp flip: q_def)
    with b show ?thesis
      by (intro utf8_rune) (simp add: rune_len.simps continuation_def byte_char_of)
  qed
qed
lemma utf8_take_rune: "utf8 (take (rune_len s) s)"
proof (rule utf8_rune)
  show "rune_len (take (rune_len s) s) = length (take (rune_len s) s)"
    using rune_len_le [of s] by (simp add: rune_len_take)
qed

text \<open>Replacing ASCII characters by ASCII characters.\<close>

lemma rune_len_map:
  assumes "\<And>c. f c = c \<or> byte c < 128 \<and> byte (f c) < 128"
  shows "rune_len (map f s) = rune_len s"
proof -
  have ge: "byte c < 128 \<or> f c = c" for c using assms [of c] by auto
  have lt: "byte (f c) < 128 \<longleftrightarrow> byte c < 128" for c using assms [of c] by auto
  have cont: "continuation (f c) = continuation c" for c using assms [of c] by (auto simp: continuation_def)
  show ?thesis
  proof (cases s)
    case (Cons a t)
    show ?thesis
    proof (cases "byte a < 128")
      case True
      with lt show ?thesis by (simp add: Cons rune_len_ascii)
    next
      case False
      have eq: "continuation b \<Longrightarrow> f b = b" for b using ge [of b] by (auto simp: continuation_def)
      have a: "f a = a" using False ge [of a] by simp
      show ?thesis
        by (cases t rule: list.exhaust; cases "tl t"; cases "tl (tl t)")
          (auto simp: Cons a rune_len.simps Let_def cont eq cong: conj_cong split: list.splits)
    qed
  qed simp
qed

lemma utf8_map:
  assumes "\<And>c. f c = c \<or> byte c < 128 \<and> byte (f c) < 128"
  shows "utf8 (map f s) = utf8 s"
proof (induction s rule: utf8.induct)
  case (2 a s)
  have r: "rune_len (f a # map f s) = rune_len (a # s)" using rune_len_map [OF assms, of "a # s"] by simp
  show ?case
  proof (cases "rune_len (a # s) = 0")
    case True
    then show ?thesis by (simp only: list.map utf8_Cons r simp_thms)
  next
    case False
    let ?n = "rune_len (a # s)"
    have "utf8 (map f (a # s)) = utf8 (drop ?n (map f (a # s)))" using False by (simp only: list.map utf8_Cons [of "f a"] r simp_thms)
    also have "drop ?n (map f (a # s)) = map f (drop ?n (a # s))" by (rule drop_map)
    also have "utf8 \<dots> = utf8 (drop ?n (a # s))" using 2 False by blast
    also have "\<dots> = utf8 (a # s)" using False by (simp only: utf8_Cons [of a s] simp_thms)
    finally show ?thesis .
  qed
qed simp
lemma utf8_replacement: "utf8 replacement"
  by (rule utf8_rune) code_simp

section \<open>Strings\<close>

lemma unhex_bounds: "unhex c = Some n \<Longrightarrow> 0 \<le> n \<and> n < 16"
  by (auto simp: unhex_def Let_def split: if_splits)

lemma getu4_nonneg: "getu4 s = Some n \<Longrightarrow> 0 \<le> n"
  by (cases s rule: getu4.cases) (auto split: option.splits dest!: unhex_bounds)

lemma getu4_escape_nonneg: "getu4_escape s = Some n \<Longrightarrow> 0 \<le> n"
  by (cases s rule: getu4_escape.cases) (auto split: if_splits dest: getu4_nonneg)

lemma utf8_unquote: "utf8 (unquote s)"
proof (induction s rule: unquote.induct)
  case 1
  show ?case by simp
next
  case (2 c s)
  have u: "utf8 (x @ y)" if "utf8 x" "utf8 y" for x y using that by (rule utf8_append)
  consider (esc) "c = backslash" | (plain) "c \<noteq> backslash" "byte c < 128" | (rune) "c \<noteq> backslash" "\<not> byte c < 128" by blast
  then show ?case
  proof cases
    case esc
    show ?thesis
    proof (cases s)
      case Nil
      with esc show ?thesis by (simp add: unquote.simps)
    next
      case (Cons e t)
      note IH = 2(1-5) [OF esc Cons]
      show ?thesis
      proof (cases "e = CHR ''u''")
        case True
        show ?thesis
          using esc Cons True IH
          by (auto simp: unquote.simps intro!: u utf8_EncodeRune utf8_replacement dest: getu4_nonneg split: option.split)
      next
        case False
        then show ?thesis using esc Cons IH by (auto simp: unquote.simps unescape_def byte_def)
      qed
    qed
  next
    case plain
    with 2 show ?thesis by (simp add: unquote.simps)
  next
    case rune
    with 2 show ?thesis
      by (auto simp: unquote.simps Let_def intro!: u utf8_replacement utf8_take_rune [of "c # s", simplified])
  qed
qed
lemma unhex_lower_hex: "0 \<le> n \<Longrightarrow> n < 16 \<Longrightarrow> unhex (lower_hex n) = Some n"
proof -
  have "\<forall>n\<in>set (map int [0..<16]). unhex (lower_hex n) = Some n" by code_simp
  moreover assume "0 \<le> n" "n < 16"
  then have "n \<in> set (map int [0..<16])" by (auto simp: image_iff intro!: bexI [of _ "nat n"])
  ultimately show ?thesis by blast
qed

lemma EncodeRune_byte: "byte c < 128 \<Longrightarrow> EncodeRune (byte c) = [c]"
  by (simp add: EncodeRune_def byte_def)

lemma unhex_byte_digits:
  "unhex (lower_hex (byte c div 16)) = Some (byte c div 16)" "unhex (lower_hex (byte c mod 16)) = Some (byte c mod 16)"
  "unhex (CHR ''0'') = Some 0"
proof -
  have "0 \<le> byte c div 16" "byte c div 16 < 16" using byte_bounds [of c] by linarith+
  then show "unhex (lower_hex (byte c div 16)) = Some (byte c div 16)" by (rule unhex_lower_hex)
  show "unhex (lower_hex (byte c mod 16)) = Some (byte c mod 16)" by (rule unhex_lower_hex) simp_all
  show "unhex (CHR ''0'') = Some 0" by code_simp
qed

lemma unquote_u00:
  assumes "byte c < 128"
  shows "unquote (backslash # CHR ''u'' # CHR ''0'' # CHR ''0'' # lower_hex (byte c div 16) # lower_hex (byte c mod 16) # t) = c # unquote t"
  using assms by (simp add: unquote.simps EncodeRune_byte unhex_byte_digits)

lemma unquote_escape_ascii: "byte c < 128 \<Longrightarrow> unquote (escape_ascii c @ t) = c # unquote t"
proof -
  assume c: "byte c < 128"
  show ?thesis
  proof (cases "escape_ascii c = [backslash, CHR ''u'', CHR ''0'', CHR ''0'', lower_hex (byte c div 16), lower_hex (byte c mod 16)]")
    case True
    with c show ?thesis by (simp add: unquote_u00)
  next
    case False
    then show ?thesis using c by (auto simp: escape_ascii_def unquote.simps unescape_def split: if_splits)
  qed
qed

lemma unquote_rune:
  assumes "rune_len r = length r" and "r \<noteq> []" and "\<not> byte (hd r) < 128"
  shows "unquote (r @ t) = r @ unquote t"
proof -
  obtain c s where r: "r = c # s" using assms(2) by (cases r) auto
  have "c \<noteq> backslash" using assms(3) r by (auto simp: byte_def)
  moreover have "rune_len (r @ t) = length r" using assms rune_len_append [of r t] by simp
  ultimately show ?thesis using assms(3) by (simp add: r unquote.simps Let_def)
qed

lemma unquote_escape_rune:
  assumes "rune_len r = length r" and "r \<noteq> []" and "\<not> byte (hd r) < 128"
  shows "unquote (escape_rune r @ t) = r @ unquote t"
proof -
  have "getu4 (''2028'' @ t) = Some 8232" "getu4 (''2029'' @ t) = Some 8233" by (simp_all add: unhex_def byte_def)
  moreover have "EncodeRune 8232 = [CHR 0xE2, CHR 0x80, CHR 0xA8]" "EncodeRune 8233 = [CHR 0xE2, CHR 0x80, CHR 0xA9]" by code_simp+
  ultimately show ?thesis using unquote_rune [OF assms] by (simp add: escape_rune_def unquote.simps)
qed

lemma unquote_quote: "utf8 s \<Longrightarrow> unquote (quote s) = s"
proof (induction s rule: quote.induct)
  case 1
  show ?case by simp
next
  case (2 c s)
  show ?case
  proof (cases "byte c < 128")
    case True
    with 2 show ?thesis by (simp add: quote.simps unquote_escape_ascii)
  next
    case False
    let ?k = "rune_len (c # s)"
    have k: "?k \<noteq> 0" and rest: "utf8 (drop ?k (c # s))" using 2(4) by (simp_all add: utf8_Cons)
    have IH: "unquote (quote (drop ?k (c # s))) = drop ?k (c # s)" using 2(3) [OF False refl k rest] .
    have "rune_len (take ?k (c # s)) = length (take ?k (c # s))"
      using rune_len_le [of "c # s"] by (simp add: rune_len_take)
    moreover have "take ?k (c # s) \<noteq> []" "\<not> byte (hd (take ?k (c # s))) < 128" using k False by (simp_all add: hd_take)
    ultimately have "unquote (escape_rune (take ?k (c # s)) @ quote (drop ?k (c # s))) = take ?k (c # s) @ unquote (quote (drop ?k (c # s)))"
      by (rule unquote_escape_rune)
    then have "unquote (escape_rune (take ?k (c # s)) @ quote (drop ?k (c # s))) = take ?k (c # s) @ drop ?k (c # s)"
      by (simp only: IH)
    then show ?thesis using False k by (simp add: quote.simps Let_def)
  qed
qed

text \<open>The scanner finds the end of a quoted string.\<close>

definition passes :: "string \<Rightarrow> bool" where
  "passes r \<longleftrightarrow> (\<forall>t x u. lex_string t = Some (x, u) \<longrightarrow> lex_string (r @ t) = Some (r @ x, u))"

lemma passes_append: "passes r \<Longrightarrow> passes r' \<Longrightarrow> passes (r @ r')"
  by (simp add: passes_def)

lemma passes_Nil [simp]: "passes []"
  by (simp add: passes_def)

lemma passes_plain: "\<forall>c\<in>set r. 32 \<le> byte c \<and> c \<noteq> dquote \<and> c \<noteq> backslash \<Longrightarrow> passes r"
proof (induction r)
  case (Cons c r)
  then have "passes [c]" by (simp add: passes_def)
  with Cons show ?case using passes_append [of "[c]" r] by simp
qed simp

lemma passes_escape: "e \<in> set (dquote # backslash # ''/bfnrt'') \<Longrightarrow> passes [backslash, e]"
  unfolding passes_def by auto

lemma passes_u4: "getu4 [a, b, c, d] \<noteq> None \<Longrightarrow> passes [a, b, c, d] \<Longrightarrow> passes [backslash, CHR ''u'', a, b, c, d]"
  unfolding passes_def by (auto split: option.splits)

lemma lower_hex_plain: "0 \<le> n \<Longrightarrow> n < 16 \<Longrightarrow> 32 \<le> byte (lower_hex n) \<and> lower_hex n \<noteq> dquote \<and> lower_hex n \<noteq> backslash"
proof -
  have "\<forall>n\<in>set (map int [0..<16]). 32 \<le> byte (lower_hex n) \<and> lower_hex n \<noteq> dquote \<and> lower_hex n \<noteq> backslash" by code_simp
  moreover assume "0 \<le> n" "n < 16"
  then have "n \<in> set (map int [0..<16])" by (auto simp: image_iff intro!: bexI [of _ "nat n"])
  ultimately show ?thesis by blast
qed

lemma passes_escape_ascii: "byte c < 128 \<Longrightarrow> passes (escape_ascii c)"
proof -
  have "0 \<le> byte c div 16" "byte c div 16 < 16" using byte_bounds [of c] by linarith+
  moreover have "0 \<le> byte c mod 16" "byte c mod 16 < 16" by simp_all
  ultimately have "passes [CHR ''0'', CHR ''0'', lower_hex (byte c div 16), lower_hex (byte c mod 16)]"
    using lower_hex_plain [of "byte c div 16"] lower_hex_plain [of "byte c mod 16"]
    by (intro passes_plain) (auto simp: byte_def)
  then have "passes [backslash, CHR ''u'', CHR ''0'', CHR ''0'', lower_hex (byte c div 16), lower_hex (byte c mod 16)]"
    by (intro passes_u4) (simp_all add: unhex_byte_digits)
  moreover have "passes [backslash, e]" if "e \<in> {dquote, backslash, CHR ''b'', CHR ''f'', CHR ''n'', CHR ''r'', CHR ''t''}" for e
    using that by (intro passes_escape) auto
  moreover have "passes [c]" if "\<not> byte c < 32" "c \<noteq> dquote" "c \<noteq> backslash"
    using that by (simp add: passes_plain)
  ultimately show ?thesis unfolding escape_ascii_def by simp
qed

lemma rune_bytes: "\<not> byte (hd s) < 128 \<Longrightarrow> b \<in> set (take (rune_len s) s) \<Longrightarrow> 128 \<le> byte b"
proof -
  assume a: "\<not> byte (hd s) < 128" "b \<in> set (take (rune_len s) s)"
  then have s: "rune_len s \<noteq> 0" by (metis empty_iff empty_set take0)
  consider a where "s = [a]" | a b where "s = [a, b]" | a b c where "s = [a, b, c]" | a b c d u where "s = a # b # c # d # u"
    using s by (metis neq_Nil_conv rune_len.simps(1))
  then show ?thesis using a by cases (auto simp: rune_len.simps Let_def continuation_def split: if_splits)
qed

lemma passes_escape_rune:
  assumes "\<not> byte (hd s) < 128"
  shows "passes (escape_rune (take (rune_len s) s))"
proof -
  have "passes (take (rune_len s) s)"
    using rune_bytes [OF assms] by (intro passes_plain) (fastforce simp: byte_def)
  moreover have "passes (backslash # ''u2028'')" "passes (backslash # ''u2029'')"
    by (intro passes_u4 passes_plain; simp add: unhex_def byte_def)+
  ultimately show ?thesis by (simp add: escape_rune_def)
qed

lemma passes_quote: "passes (quote s)"
proof (induction s rule: quote.induct)
  case 1
  show ?case by simp
next
  case (2 c s)
  have fffd: "passes (backslash # ''ufffd'')" by (intro passes_u4 passes_plain; simp add: unhex_def byte_def)
  show ?case
    using 2 fffd passes_escape_rune [of "c # s"]
    by (auto simp: quote.simps Let_def passes_escape_ascii intro!: passes_append [of "backslash # ''ufffd''", simplified] passes_append)
qed

lemma lex_print_string: "lex_one (print_string s @ t) = Some (TString (quote s), t)"
proof -
  have "lex_string (dquote # t) = Some ([], t)" by simp
  then have "lex_string (quote s @ dquote # t) = Some (quote s, t)"
    using passes_quote [of s] unfolding passes_def by fastforce
  then show ?thesis by (simp add: print_string_def lex_one_def punctuation_def)
qed
section \<open>Scanning and parsing what was printed\<close>

text \<open>Trees made of strings, arrays and objects only, with valid UTF-8.\<close>

fun written :: "json \<Rightarrow> bool" where
  "written (JStr s) = utf8 s"
| "written (JArr js) = (\<forall>j\<in>set js. written j)"
| "written (JObj ms) = (\<forall>(k, j)\<in>set ms. utf8 k \<and> written j)"
| "written _ = False"

fun commas :: "token list list \<Rightarrow> token list" where
  "commas [] = []"
| "commas [x] = x"
| "commas (x # y # xs) = x @ Comma # commas (y # xs)"

fun tokens :: "json \<Rightarrow> token list" where
  "tokens (JStr s) = [TString (quote s)]"
| "tokens (JArr js) = LBracket # commas (map tokens js) @ [RBracket]"
| "tokens (JObj ms) = LBrace # commas (map (\<lambda>(k, j). TString (quote k) # Colon # tokens j) ms) @ [RBrace]"
| "tokens _ = []"

fun depth :: "json \<Rightarrow> nat" where
  "depth (JArr js) = Suc (foldr max (map depth js) 0)"
| "depth (JObj ms) = Suc (foldr max (map (\<lambda>(k, j). depth j) ms) 0)"
| "depth _ = 0"

lemma foldr_max_le: "foldr max ns 0 \<le> (n :: nat) \<longleftrightarrow> (\<forall>m\<in>set ns. m \<le> n)"
  by (induction ns) auto

lemma lex_punctuation: "punctuation c = Some p \<Longrightarrow> lex (c # s) = map_option ((#) p) (lex s)"
  by (auto simp: lex.simps lex_one_def is_space_def punctuation_def split: if_splits)

lemmas lex_marks [simp] =
  lex_punctuation [of "CHR ''{''" LBrace, simplified punctuation_def, simplified]
  lex_punctuation [of "CHR ''}''" RBrace, simplified punctuation_def, simplified]
  lex_punctuation [of "CHR ''[''" LBracket, simplified punctuation_def, simplified]
  lex_punctuation [of "CHR '']''" RBracket, simplified punctuation_def, simplified]
  lex_punctuation [of "CHR '':''" Colon, simplified punctuation_def, simplified]
  lex_punctuation [of "CHR '',''" Comma, simplified punctuation_def, simplified]

lemma lex_string_token [simp]: "lex (print_string s @ t) = map_option ((#) (TString (quote s))) (lex t)"
proof -
  obtain r where r: "print_string s @ t = dquote # r" by (simp add: print_string_def)
  then have "lex_one (dquote # r) = Some (TString (quote s), t)" using lex_print_string [of s t] by simp
  then show ?thesis unfolding r by (simp add: lex.simps is_space_def)
qed

lemma lex_Join:
  assumes "\<And>x t. x \<in> set xs \<Longrightarrow> lex (f x @ t) = map_option ((@) (g x)) (lex t)"
  shows "lex (Join (map f xs) '','' @ t) = map_option ((@) (commas (map g xs))) (lex t)"
  using assms
proof (induction xs rule: induct_list012)
  case 1
  show ?case by (simp add: option.map_id0 [unfolded id_def])
next
  case (2 x)
  then show ?case by simp
next
  case (3 x y zs)
  then show ?case by (simp add: option.map_comp comp_def)
qed

lemma lex_print: "written j \<Longrightarrow> lex (print_json j @ t) = map_option ((@) (tokens j)) (lex t)"
proof (induction j arbitrary: t)
  case (JArr js)
  then have "lex (Join (map print_json js) '','' @ t) = map_option ((@) (commas (map tokens js))) (lex t)" for t
    by (intro lex_Join) auto
  from this [of "CHR '']'' # t"] show ?case by (simp add: option.map_comp comp_def)
next
  case (JObj ms)
  have "lex (print_json j @ t) = map_option ((@) (tokens j)) (lex t)" if "(k, j) \<in> set ms" for k j t
    using that JObj.prems by (intro JObj.IH [OF that]) auto
  then have "lex (Join (map (\<lambda>(k, j). print_string k @ '':'' @ print_json j) ms) '','' @ t)
      = map_option ((@) (commas (map (\<lambda>(k, j). TString (quote k) # Colon # tokens j) ms))) (lex t)" for t
    by (intro lex_Join) (auto simp: option.map_comp comp_def intro!: option.map_cong)
  from this [of "CHR ''}'' # t"] show ?case by (simp add: option.map_comp comp_def)
qed (auto simp: option.map_comp comp_def intro!: option.map_cong)

lemma parse_elements:
  assumes "\<And>j e ts fs. j \<in> set (j0 # js) \<Longrightarrow> begins e \<Longrightarrow> int (length fs) = d \<Longrightarrow>
      parse_run (tokens j @ ts) (e, fs) = parse_run ts (Got j, fs)"
    and "begins e" and "int (length stk) + 1 = d"
  shows "parse_run (commas (map tokens (j0 # js)) @ RBracket # ts) (e, InArray vs # stk)
    = parse_run ts (Got (JArr (vs @ j0 # js)), stk)"
  using assms
proof (induction js arbitrary: j0 e vs)
  case Nil
  then show ?case by simp
next
  case (Cons j1 js)
  have "parse_run (commas (map tokens (j0 # j1 # js)) @ RBracket # ts) (e, InArray vs # stk)
      = parse_run (commas (map tokens (j1 # js)) @ RBracket # ts) (Begin, InArray (vs @ [j0]) # stk)"
    using Cons.prems by simp
  also have "\<dots> = parse_run ts (Got (JArr ((vs @ [j0]) @ j1 # js)), stk)"
    using Cons.prems(1,3) by (intro Cons.IH) (auto simp: begins_def)
  finally show ?case by simp
qed

lemma parse_members:
  assumes "\<And>k j e ts fs. (k, j) \<in> set (m0 # ms) \<Longrightarrow> utf8 k \<and> (begins e \<longrightarrow> int (length fs) = d \<longrightarrow>
      parse_run (tokens j @ ts) (e, fs) = parse_run ts (Got j, fs))"
    and "e = Key \<or> e = KeyOrEnd" and "int (length stk) + 1 = d"
  shows "parse_run (commas (map (\<lambda>(k, j). TString (quote k) # Colon # tokens j) (m0 # ms)) @ RBrace # ts) (e, InObject os k0 # stk)
    = parse_run ts (Got (JObj (os @ m0 # ms)), stk)"
  using assms
proof (induction ms arbitrary: m0 e os k0)
  case Nil
  obtain k j where m0: "m0 = (k, j)" by (cases m0)
  have "utf8 k" "parse_run (tokens j @ ts) (Begin, InObject os k # stk) = parse_run ts (Got j, InObject os k # stk)" for ts
    using Nil(1) [of k j Begin] Nil(3) by (auto simp: m0 begins_def)
  with Nil(2) show ?case by (auto simp: m0 unquote_quote begins_def)
next
  case (Cons m1 ms)
  obtain k j where m0: "m0 = (k, j)" by (cases m0)
  have "utf8 k" "parse_run (tokens j @ ts) (Begin, InObject os k # stk) = parse_run ts (Got j, InObject os k # stk)" for ts
    using Cons(2) [of k j Begin] Cons(4) by (auto simp: m0 begins_def)
  then have "parse_run (commas (map (\<lambda>(k, j). TString (quote k) # Colon # tokens j) (m0 # m1 # ms)) @ RBrace # ts) (e, InObject os k0 # stk)
      = parse_run (commas (map (\<lambda>(k, j). TString (quote k) # Colon # tokens j) (m1 # ms)) @ RBrace # ts) (Key, InObject (os @ [m0]) [] # stk)"
    using Cons(3) by (auto simp: m0 unquote_quote begins_def)
  also have "\<dots> = parse_run ts (Got (JObj ((os @ [m0]) @ m1 # ms)), stk)"
  proof (rule Cons.IH)
    show "utf8 k \<and> (begins e \<longrightarrow> int (length fs) = d \<longrightarrow> parse_run (tokens j @ ts) (e, fs) = parse_run ts (Got j, fs))"
      if "(k, j) \<in> set (m1 # ms)" for k j e ts and fs :: "frame list"
      using Cons(2) [of k j e fs ts] that by simp
  qed (use Cons(4) in simp_all)
  finally show ?case by simp
qed

lemma parse_tokens:
  "written j \<Longrightarrow> int (depth j) + int (length stk) \<le> maxNestingDepth \<Longrightarrow> begins e \<Longrightarrow>
    parse_run (tokens j @ ts) (e, stk) = parse_run ts (Got j, stk)"
proof (induction j arbitrary: e stk ts)
  case (JStr s)
  then show ?case by (simp add: unquote_quote)
next
  case (JArr js)
  have d: "depth j \<le> foldr max (map depth js) 0" if "j \<in> set js" for j
    using that foldr_max_le [of "map depth js"] by auto
  have p: "parse_run (tokens (JArr js) @ ts) (e, stk) = parse_run (commas (map tokens js) @ RBracket # ts) (BeginOrEnd, InArray [] # stk)"
    using JArr.prems by (simp add: push_def)
  show ?case
  proof (cases js)
    case Nil
    then show ?thesis unfolding p by simp
  next
    case (Cons j0 js')
    have "parse_run (commas (map tokens (j0 # js')) @ RBracket # ts) (BeginOrEnd, InArray [] # stk)
        = parse_run ts (Got (JArr ([] @ j0 # js')), stk)"
    proof (rule parse_elements [of _ _ "int (length stk) + 1"])
      fix j e ts and fs :: "frame list"
      assume j: "j \<in> set (j0 # js')" and e: "begins e" and fs: "int (length fs) = int (length stk) + 1"
      show "parse_run (tokens j @ ts) (e, fs) = parse_run ts (Got j, fs)"
        using j e fs d [of j] JArr.prems Cons by (intro JArr.IH) auto
    qed (simp_all add: begins_def)
    then show ?thesis unfolding p by (simp add: Cons)
  qed
next
  case (JObj ms)
  have d: "depth j \<le> foldr max (map (\<lambda>(k, j). depth j) ms) 0" if "(k, j) \<in> set ms" for k j
    using that foldr_max_le [of "map (\<lambda>(k, j). depth j) ms"] by force
  let ?f = "\<lambda>(k, j). TString (quote k) # Colon # tokens j"
  have p: "parse_run (tokens (JObj ms) @ ts) (e, stk) = parse_run (commas (map ?f ms) @ RBrace # ts) (KeyOrEnd, InObject [] [] # stk)"
    using JObj.prems by (simp add: push_def)
  show ?case
  proof (cases ms)
    case Nil
    then show ?thesis unfolding p by simp
  next
    case (Cons m0 ms')
    have "parse_run (commas (map ?f (m0 # ms')) @ RBrace # ts) (KeyOrEnd, InObject [] [] # stk)
        = parse_run ts (Got (JObj ([] @ m0 # ms')), stk)"
    proof (rule parse_members [of _ _ "int (length stk) + 1"])
      fix k j e ts and fs :: "frame list"
      assume j: "(k, j) \<in> set (m0 # ms')"
      show "utf8 k \<and> (begins e \<longrightarrow> int (length fs) = int (length stk) + 1 \<longrightarrow> parse_run (tokens j @ ts) (e, fs) = parse_run ts (Got j, fs))"
      proof -
        have m: "(k, j) \<in> set ms" using j Cons by simp
        then have "utf8 k" "written j" using JObj.prems(1) by auto
        moreover have "parse_run (tokens j @ ts) (e, fs) = parse_run ts (Got j, fs)"
          if "begins e" "int (length fs) = int (length stk) + 1"
          using that m d [OF m] JObj.prems \<open>written j\<close> by (intro JObj.IH [OF m]) auto
        ultimately show ?thesis by blast
      qed
    qed simp_all
    then show ?thesis unfolding p by (simp add: Cons)
  qed
qed simp_all

lemma parse_print: "written j \<Longrightarrow> int (depth j) \<le> maxNestingDepth \<Longrightarrow> parse_json (print_json j) = Some j"
  using lex_print [of j "[]"] parse_tokens [of j "[]" Begin "[]"] by (simp add: parse_json_def begins_def)
section \<open>Values are read back\<close>

fun wf_type :: "gotype \<Rightarrow> bool" where
  "wf_type GString = True"
| "wf_type (GSlice t) = wf_type t"
| "wf_type (GStruct fs) = (distinct (map fst fs) \<and> (\<forall>(name, omit, t)\<in>set fs. utf8 name \<and> wf_type t))"

fun typed :: "gotype \<Rightarrow> goval \<Rightarrow> bool"
  and typed_fields :: "(string \<times> bool \<times> gotype) list \<Rightarrow> goval list \<Rightarrow> bool" where
  "typed GString (VString s) = utf8 s"
| "typed (GSlice t) (VSlice vs n) = (n = length vs \<and> (\<forall>v\<in>set vs. typed t v))"
| "typed (GStruct fs) (VStruct vs) = typed_fields fs vs"
| "typed _ _ = False"
| "typed_fields [] [] = True"
| "typed_fields ((name, omit, t) # fs) (v # vs) = (typed t v \<and> typed_fields fs vs)"
| "typed_fields _ _ = False"

fun type_depth :: "gotype \<Rightarrow> nat" where
  "type_depth GString = 0"
| "type_depth (GSlice t) = Suc (type_depth t)"
| "type_depth (GStruct fs) = Suc (foldr max (map (\<lambda>(name, omit, t). type_depth t) fs) 0)"

lemma empty_is_zero: "typed t v \<Longrightarrow> isEmptyValue v \<Longrightarrow> v = zero t"
  by (cases "(t, v)" rule: typed.cases) auto

lemma written_json_of:
  "wf_type t \<Longrightarrow> typed t v \<Longrightarrow> written (json_of t v) \<and> depth (json_of t v) \<le> type_depth t"
  "(\<forall>(name, omit, t)\<in>set fs. utf8 name \<and> wf_type t) \<Longrightarrow> typed_fields fs vs \<Longrightarrow>
    (\<forall>(k, j)\<in>set (json_fields fs vs). utf8 k \<and> written j)
    \<and> foldr max (map (\<lambda>(k, j). depth j) (json_fields fs vs)) 0 \<le> foldr max (map (\<lambda>(name, omit, t). type_depth t) fs) 0"
  by (induction t v and fs vs rule: typed_typed_fields.induct) (auto simp: foldr_max_le le_max_iff_disj)

lemma index_of_append: "\<forall>x\<in>set xs. \<not> P x \<Longrightarrow> P y \<Longrightarrow> index_of P (xs @ y # ys) = Some (length xs)"
  by (induction xs) auto

lemma decode_json_of:
  "wf_type t \<Longrightarrow> typed t v \<Longrightarrow> decode t (json_of t v) (zero t) = (v, False)"
proof (induction t arbitrary: v)
  case GString
  then show ?case by (cases v) auto
next
  case (GSlice t)
  then obtain vs where v: "v = VSlice vs (length vs)" and vs: "\<forall>v\<in>set vs. typed t v" by (cases v) auto
  have "decode_elems t (map (json_of t) vs) [] = (vs, False)"
    using vs GSlice.prems(1) by (induction vs) (auto simp: GSlice.IH)
  then show ?case by (simp add: v)
next
  case (GStruct fs)
  then obtain vs where v: "v = VStruct vs" and vs: "typed_fields fs vs" by (cases v) auto
  have field: "decode t (json_of t v) (zero t) = (v, False)" if "(name, omit, t) \<in> set fs" "typed t v" for name omit t v
    using that GStruct.prems(1) by (intro GStruct.IH [OF that(1), of "(omit, t)" t]) auto
  have "decode_members fs (json_fields fs2 vs2) (vs1 @ map (\<lambda>(name, omit, t). zero t) fs2) = (vs1 @ vs2, False)"
    if "fs = fs1 @ fs2" "length vs1 = length fs1" "typed_fields fs2 vs2" for fs1 fs2 vs1 vs2
    using that
  proof (induction fs2 arbitrary: fs1 vs1 vs2)
    case Nil
    then show ?case by (cases vs2) auto
  next
    case (Cons f fs2)
    obtain name omit t where f: "f = (name, omit, t)" by (cases f) auto
    obtain x ws where w: "vs2 = x # ws" "typed t x" "typed_fields fs2 ws" using Cons.prems(3) f by (cases vs2) auto
    have idx: "field_index fs name = Some (length fs1)"
      using GStruct.prems(1) Cons.prems(1) unfolding field_index_def
      by (subst index_of_append [of fs1 _ f fs2, folded Cons.prems(1)]) (auto simp: f)
    have rest: "decode_members fs (json_fields fs2 ws) ((vs1 @ [x]) @ map (\<lambda>(name, omit, t). zero t) fs2) = ((vs1 @ [x]) @ ws, False)"
      using Cons.prems w by (intro Cons.IH [of "fs1 @ [f]"]) (simp_all add: f)
    have "x = zero t" if "isEmptyValue x" using empty_is_zero w(2) that by blast
    moreover have "decode t (json_of t x) (zero t) = (x, False)" using Cons.prems(1) w(2) f by (intro field) auto
    ultimately show ?case
      using rest idx Cons.prems(1,2) by (auto simp: f w nth_append list_update_append)
  qed
  from this [of "[]" fs "[]" vs] vs show ?case by (simp add: v)
qed

theorem Unmarshal_Marshal:
  assumes "wf_type t" and "typed t v" and "int (type_depth t) \<le> maxNestingDepth" and "Marshal t v = Inr s"
  shows "Unmarshal t s = Inr v"
proof -
  have "parse_json (print_json (json_of t v)) = Some (json_of t v)"
    using written_json_of(1) [OF assms(1,2)] assms(3) by (intro parse_print) auto
  then show ?thesis using decode_json_of [OF assms(1,2)] assms(4) by (auto simp: Unmarshal_def Marshal_def)
qed

section \<open>What is read is valid UTF-8\<close>

fun tree_utf8 :: "json \<Rightarrow> bool" where
  "tree_utf8 (JStr s) = utf8 s"
| "tree_utf8 (JArr js) = (\<forall>j\<in>set js. tree_utf8 j)"
| "tree_utf8 (JObj ms) = (\<forall>(k, j)\<in>set ms. tree_utf8 j)"
| "tree_utf8 _ = True"

fun frame_utf8 :: "frame \<Rightarrow> bool" where
  "frame_utf8 (InArray js) = (\<forall>j\<in>set js. tree_utf8 j)"
| "frame_utf8 (InObject ms k) = (\<forall>(k, j)\<in>set ms. tree_utf8 j)"

definition state_utf8 :: "parse_state \<Rightarrow> bool" where
  "state_utf8 st = ((\<forall>v. fst st = Got v \<longrightarrow> tree_utf8 v) \<and> (\<forall>f\<in>set (snd st). frame_utf8 f))"

lemma parse_step_utf8: "parse_step t st = Some st' \<Longrightarrow> state_utf8 st \<Longrightarrow> state_utf8 st'"
  by (cases "(t, st)" rule: parse_step.cases)
    (auto simp: state_utf8_def push_def utf8_unquote split: if_splits expected.splits list.splits frame.splits)

lemma parse_run_utf8: "parse_run ts st = Some st' \<Longrightarrow> state_utf8 st \<Longrightarrow> state_utf8 st'"
  by (induction ts arbitrary: st) (auto split: option.splits dest: parse_step_utf8)

lemma parse_json_utf8: "parse_json s = Some j \<Longrightarrow> tree_utf8 j"
  by (auto simp: parse_json_def state_utf8_def split: option.splits expected.splits list.splits dest!: parse_run_utf8)

fun fits :: "gotype \<Rightarrow> goval \<Rightarrow> bool"
  and fits_fields :: "(string \<times> bool \<times> gotype) list \<Rightarrow> goval list \<Rightarrow> bool" where
  "fits GString (VString s) = utf8 s"
| "fits (GSlice t) (VSlice vs n) = (n \<le> length vs \<and> (\<forall>v\<in>set vs. fits t v))"
| "fits (GStruct fs) (VStruct vs) = fits_fields fs vs"
| "fits _ _ = False"
| "fits_fields [] [] = True"
| "fits_fields ((name, omit, t) # fs) (v # vs) = (fits t v \<and> fits_fields fs vs)"
| "fits_fields _ _ = False"

lemma fits_fields_iff:
  "fits_fields fs vs \<longleftrightarrow> length vs = length fs \<and> (\<forall>i<length fs. fits (snd (snd (fs ! i))) (vs ! i))"
proof (induction fs arbitrary: vs)
  case Nil
  show ?case by (cases vs) auto
next
  case (Cons f fs)
  then show ?case by (cases vs; cases f) (auto simp: All_less_Suc2)
qed

lemma fits_zero: "fits t (zero t)"
proof (induction t)
  case (GStruct fs)
  have "fits (snd (snd (fs ! i))) (zero (snd (snd (fs ! i))))" if "i < length fs" for i
    using that GStruct [of "fs ! i" "snd (fs ! i)" "snd (snd (fs ! i))"] by (metis nth_mem snds.intros)
  then show ?case by (simp add: fits_fields_iff case_prod_beta)
qed auto

lemma field_index_less: "field_index fs k = Some i \<Longrightarrow> i < length fs"
proof -
  have "index_of P xs = Some i \<Longrightarrow> i < length xs" for P and xs :: "'a list" and i
    by (induction xs arbitrary: i) (auto split: if_splits)
  moreover assume "field_index fs k = Some i"
  ultimately show ?thesis by (auto simp: field_index_def split: option.splits)
qed

lemma decode_fits:
  "tree_utf8 j \<Longrightarrow> fits t v \<Longrightarrow> fits t (fst (decode t j v))"
  "\<forall>j\<in>set js. tree_utf8 j \<Longrightarrow> \<forall>v\<in>set vs. fits u v \<Longrightarrow>
    (\<forall>v\<in>set (fst (decode_elems u js vs)). fits u v) \<and> length js \<le> length (fst (decode_elems u js vs))"
  "\<forall>(k, j)\<in>set ms. tree_utf8 j \<Longrightarrow> length vs = length fs \<Longrightarrow> \<forall>i<length fs. fits (snd (snd (fs ! i))) (vs ! i) \<Longrightarrow>
    length (fst (decode_members fs ms vs)) = length fs \<and> (\<forall>i<length fs. fits (snd (snd (fs ! i))) (fst (decode_members fs ms vs) ! i))"
proof (induction t j v and u js vs and fs ms vs rule: decode_decode_elems_decode_members.induct)
  case (6 t ms v)
  show ?case
  proof (cases t)
    case (GStruct fs)
    then obtain vs where v: "v = VStruct vs" "fits_fields fs vs" using 6(3) by (cases v) auto
    then show ?thesis
      using 6(1) [OF refl GStruct v(1)] 6(2) GStruct
      by (auto simp: fits_fields_iff split: prod.split)
  qed (use 6(3) in auto)
next
  case (8 u j js arr)
  let ?a = "case arr of [] \<Rightarrow> zero u | a # _ \<Rightarrow> a"
  obtain x e where d: "decode u j ?a = (x, e)" by fastforce
  have "fits u ?a" using 8(4) by (simp add: fits_zero split: list.split)
  moreover have "\<forall>v\<in>set (tl arr). fits u v" using 8(4) by (cases arr) auto
  ultimately show ?case using 8(1) 8(2) [OF d [symmetric]] 8(3) d by (simp add: case_prod_beta)
next
  case (10 fs k j ms vs)
  show ?case
  proof (cases "field_index fs k")
    case None
    with 10 show ?thesis by simp
  next
    case (Some i)
    obtain x e where d: "decode (snd (snd (fs ! i))) j (vs ! i) = (x, e)" by fastforce
    note i = field_index_less [OF Some]
    have "fits (snd (snd (fs ! i))) x" using 10(2) [OF Some] 10(4-6) i d by simp
    then have "\<forall>n<length fs. fits (snd (snd (fs ! n))) (vs[i := x] ! n)"
      using 10(5,6) i by (auto simp: nth_list_update)
    then show ?thesis using 10(3) [OF Some d [symmetric]] 10(4,5) Some d by (simp add: case_prod_beta)
  qed
qed (auto simp: fits_zero case_prod_beta split: gotype.splits goval.splits list.splits)

theorem Unmarshal_fits: "Unmarshal t s = Inr v \<Longrightarrow> fits t v"
  using decode_fits(1) [OF parse_json_utf8 fits_zero, of s _ t]
  by (auto simp: Unmarshal_def split: option.splits prod.splits if_splits)

end
