(* ===== verification/Policy_Json.thy ===== *)
theory Policy_Json
  imports Iam_Policy Json_Laws
begin

text \<open>
  Policy documents as JSON: the tags of the structs of \<open>pkg/iam/policy.go\<close>, and \<open>json.Marshal\<close> and
  \<open>json.Unmarshal\<close> on documents as \<open>pkg/iam/client.go\<close> calls them.
\<close>

section \<open>The tags\<close>

definition UserID_tags :: gotype where
  "UserID_tags = GStruct [(''aws:userid'', True, GString)]"

definition StringLike_tags :: gotype where
  "StringLike_tags = GStruct [(''StringLike'', True, UserID_tags)]"

definition StatementEntry_tags :: gotype where
  "StatementEntry_tags = GStruct [(''Effect'', True, GString), (''Action'', True, GSlice GString),
     (''Resource'', True, GSlice GString), (''Condition'', True, StringLike_tags)]"

definition PolicyDocument_tags :: gotype where
  "PolicyDocument_tags = GStruct [(''Version'', True, GString), (''Statement'', True, GSlice StatementEntry_tags)]"

lemmas tags_defs = UserID_tags_def StringLike_tags_def StatementEntry_tags_def PolicyDocument_tags_def

section \<open>Documents as values\<close>

definition slice_value :: "('a \<Rightarrow> goval) \<Rightarrow> 'a list \<Rightarrow> goval" where
  "slice_value f xs = VSlice (map f xs) (length xs)"

definition statement_value :: "StatementEntry \<Rightarrow> goval" where
  "statement_value s =
     VStruct [VString (se_Effect s), slice_value VString (se_Action s), slice_value VString (se_Resource s),
       VStruct [VStruct [VString (statement_user s)]]]"

definition document_value :: "PolicyDocument \<Rightarrow> goval" where
  "document_value d = VStruct [VString (pd_Version d), slice_value statement_value (pd_Statement d)]"

fun value_string :: "goval \<Rightarrow> string" where
  "value_string (VString s) = s"
| "value_string _ = []"

fun value_slice :: "(goval \<Rightarrow> 'a) \<Rightarrow> goval \<Rightarrow> 'a list" where
  "value_slice f (VSlice vs n) = map f (take n vs)"
| "value_slice f _ = []"

fun value_field :: "goval \<Rightarrow> nat \<Rightarrow> goval" where
  "value_field (VStruct vs) i = vs ! i"
| "value_field v i = v"

definition value_statement :: "goval \<Rightarrow> StatementEntry" where
  "value_statement v =
     \<lparr>se_Effect = value_string (value_field v 0),
      se_Action = value_slice value_string (value_field v 1),
      se_Resource = value_slice value_string (value_field v 2),
      se_Condition = \<lparr>sl_StringLike = \<lparr>AWSUserID = value_string (value_field (value_field (value_field v 3) 0) 0)\<rparr>\<rparr>\<rparr>"

definition value_document :: "goval \<Rightarrow> PolicyDocument" where
  "value_document v =
     \<lparr>pd_Version = value_string (value_field v 0), pd_Statement = value_slice value_statement (value_field v 1)\<rparr>"

section \<open>Marshal and Unmarshal\<close>

definition json_Marshal :: "PolicyDocument \<Rightarrow> goerr + string" where
  "json_Marshal d = Marshal PolicyDocument_tags (document_value d)"

definition json_Unmarshal :: "string \<Rightarrow> goerr + PolicyDocument" where
  "json_Unmarshal s = (case Unmarshal PolicyDocument_tags s of Inl e \<Rightarrow> Inl e | Inr v \<Rightarrow> Inr (value_document v))"

section \<open>Round trip\<close>

text \<open>Documents whose strings are valid UTF-8.\<close>

definition statement_utf8 :: "StatementEntry \<Rightarrow> bool" where
  "statement_utf8 s =
     (utf8 (se_Effect s) \<and> list_all utf8 (se_Action s) \<and> list_all utf8 (se_Resource s) \<and> utf8 (statement_user s))"

definition doc_utf8 :: "PolicyDocument \<Rightarrow> bool" where
  "doc_utf8 d = (utf8 (pd_Version d) \<and> list_all statement_utf8 (pd_Statement d))"

lemma ascii_utf8: "list_all (\<lambda>c. byte c < 128) s \<Longrightarrow> utf8 s"
  by (induction s) auto

lemma wf_tags: "wf_type PolicyDocument_tags" "type_depth PolicyDocument_tags = 5"
  unfolding tags_defs by code_simp+

lemma typed_document: "doc_utf8 d \<Longrightarrow> typed PolicyDocument_tags (document_value d)"
  by (auto simp: tags_defs document_value_def statement_value_def slice_value_def doc_utf8_def statement_utf8_def list_all_iff)

lemma value_document_value: "value_document (document_value d) = d"
proof -
  have strings: "value_slice value_string (slice_value VString xs) = xs" for xs
    by (simp add: slice_value_def comp_def)
  have "value_statement (statement_value s) = s" for s
    by (simp add: value_statement_def statement_value_def strings numeral_2_eq_2 numeral_3_eq_3)
  then show ?thesis by (simp add: value_document_def document_value_def slice_value_def comp_def)
qed

lemma json_roundtrip: "doc_utf8 d \<Longrightarrow> json_Marshal d = Inr j \<Longrightarrow> json_Unmarshal j = Inr d"
  using Unmarshal_Marshal [OF wf_tags(1) typed_document, of d j]
  by (simp add: json_Marshal_def json_Unmarshal_def wf_tags maxNestingDepth_def value_document_value)

lemma json_Marshal_total: "\<exists>j. json_Marshal d = Inr j"
  by (simp add: json_Marshal_def Marshal_def)

lemma fits_slice:
  assumes "fits (GSlice t) v" and "x \<in> set (value_slice f v)"
  obtains y where "fits t y" and "x = f y"
  using assms by (cases v) (auto dest: in_set_takeD)

lemma fits_string: "fits GString v \<Longrightarrow> utf8 (value_string v)"
  by (cases v) auto

lemma fits_field: "fits (GStruct fs) v \<Longrightarrow> i < length fs \<Longrightarrow> fits (snd (snd (fs ! i))) (value_field v i)"
  by (cases v) (auto simp: fits_fields_iff)

lemma fits_statement: "fits StatementEntry_tags v \<Longrightarrow> statement_utf8 (value_statement v)"
proof -
  assume v: "fits StatementEntry_tags v"
  note f = fits_field [OF v [unfolded StatementEntry_tags_def]]
  have c: "fits StringLike_tags (value_field v 3)" using f [of 3] by simp
  from fits_field [OF this [unfolded StringLike_tags_def], of 0] have "fits UserID_tags (value_field (value_field v 3) 0)" by simp
  from fits_field [OF this [unfolded UserID_tags_def], of 0] have u: "fits GString (value_field (value_field (value_field v 3) 0) 0)" by simp
  have "list_all utf8 (value_slice value_string (value_field v i))" if "fits (GSlice GString) (value_field v i)" for i
    using that by (auto simp: list_all_iff elim!: fits_slice intro: fits_string)
  with f [of 0] f [of 1] f [of 2] u show ?thesis by (simp add: statement_utf8_def value_statement_def fits_string)
qed

lemma json_Unmarshal_utf8: "json_Unmarshal j = Inr d \<Longrightarrow> doc_utf8 d"
proof -
  assume "json_Unmarshal j = Inr d"
  then obtain v where v: "Unmarshal PolicyDocument_tags j = Inr v" and d: "d = value_document v"
    by (auto simp: json_Unmarshal_def split: sum.splits)
  note f = fits_field [OF Unmarshal_fits [OF v, unfolded PolicyDocument_tags_def]]
  have "fits GString (value_field v 0)" using f [of 0] by simp
  moreover have "fits (GSlice StatementEntry_tags) (value_field v 1)" using f [of 1] by simp
  ultimately show ?thesis
    by (auto simp: d doc_utf8_def value_document_def list_all_iff fits_string elim!: fits_slice intro: fits_statement)
qed

text \<open>IAM permits a single string for \<open>Action\<close> and \<open>Resource\<close>; such a document is not read.\<close>

lemma single_action_refused:
  "\<exists>e. json_Unmarshal ''{\"Statement\":[{\"Effect\":\"Allow\",\"Action\":\"s3:*\"}]}'' = Inl e"
proof -
  have "(case json_Unmarshal ''{\"Statement\":[{\"Effect\":\"Allow\",\"Action\":\"s3:*\"}]}'' of Inl e \<Rightarrow> True | Inr d \<Rightarrow> False)"
    by code_simp
  then show ?thesis by (auto split: sum.splits)
qed

section \<open>Properties\<close>

text \<open>C6. Every policy document whose strings are valid UTF-8 can be written, and what was written is read
  back as exactly that document: no name, resource or condition is changed by the escaping of
  quotes, backslashes, control characters, HTML characters and line separators, or by fields left
  out because they are empty.\<close>

theorem policy_json_roundtrip:
  assumes "doc_utf8 d"
  shows "\<exists>j. json_Marshal d = Inr j \<and> json_Unmarshal j = Inr d"
  using json_Marshal_total [of d] json_roundtrip [OF assms] by blast

theorem policy_json_roundtrip_witness:
  "\<exists>j. json_Marshal (Add ''eu-west-1'' ''0'' ''dev_'' ''a<\"b'' ''r'' (NewPolicyDocument ''2012-10-17'')) = Inr j
    \<and> json_Unmarshal j = Inr (Add ''eu-west-1'' ''0'' ''dev_'' ''a<\"b'' ''r'' (NewPolicyDocument ''2012-10-17''))"
  by (rule policy_json_roundtrip) code_simp

end
