(* ===== verification/Iam.thy ===== *)
theory Iam
  imports Policy_Json Sql_World
begin

text \<open>
  \<open>pkg/iam/client.go\<close> and \<open>pkg/iam/iam.go\<close>: the AWS IAM policies of the users.

  AWS IAM is outside the repository: a value of \<open>aws\<close> gives its answer to each call as a
  function of the history of all calls made so far, as \<open>server\<close> does for PostgreSQL. A paged
  listing answers with an error or with its pages; the callback of the source takes every page.
  Pointer fields of the SDK's results that AWS always fills in (names, ARNs, version ids) are
  plain strings; the one the source compares with nil is an \<open>option\<close>. \<open>json.Marshal\<close> and
  \<open>json.Unmarshal\<close> are those of \<open>Policy_Json\<close>; \<open>url.QueryUnescape\<close> is defined here.
\<close>

section \<open>The AWS service\<close>

record aws_policy =
  ap_PolicyName :: string
  ap_DefaultVersionId :: string
  ap_Arn :: string

record aws_version =
  av_VersionId :: string
  av_IsDefaultVersion :: "bool option"

datatype aws_event =
    ListPoliciesPages string "goerr + aws_policy list list"
  | GetPolicyVersion string string "goerr + string"
  | CreatePolicyVersion string string "goerr option"
  | ListPolicyVersions string "goerr + aws_version list"
  | DeletePolicyVersion string string "goerr option"
  | CreatePolicyEv string string string "goerr + aws_policy"
  | ListAttachedRolePoliciesPages string string "goerr + string list list"
  | AttachRolePolicy string string "goerr option"
  | GetRoleEv string "goerr + string"
  | DetachRolePolicy string string "goerr option"
  | DeletePolicy string "goerr option"

type_synonym aws_history = "aws_event list"

record aws =
  aws_ListPoliciesPages :: "aws_history \<Rightarrow> string \<Rightarrow> goerr + aws_policy list list"
  aws_GetPolicyVersion :: "aws_history \<Rightarrow> string \<Rightarrow> string \<Rightarrow> goerr + string"
  aws_CreatePolicyVersion :: "aws_history \<Rightarrow> string \<Rightarrow> string \<Rightarrow> goerr option"
  aws_ListPolicyVersions :: "aws_history \<Rightarrow> string \<Rightarrow> goerr + aws_version list"
  aws_DeletePolicyVersion :: "aws_history \<Rightarrow> string \<Rightarrow> string \<Rightarrow> goerr option"
  aws_CreatePolicy :: "aws_history \<Rightarrow> string \<Rightarrow> string \<Rightarrow> string \<Rightarrow> goerr + aws_policy"
  aws_ListAttached :: "aws_history \<Rightarrow> string \<Rightarrow> string \<Rightarrow> goerr + string list list"
  aws_AttachRolePolicy :: "aws_history \<Rightarrow> string \<Rightarrow> string \<Rightarrow> goerr option"
  aws_GetRole :: "aws_history \<Rightarrow> string \<Rightarrow> goerr + string"
  aws_DetachRolePolicy :: "aws_history \<Rightarrow> string \<Rightarrow> string \<Rightarrow> goerr option"
  aws_DeletePolicy :: "aws_history \<Rightarrow> string \<Rightarrow> goerr option"

type_synonym 'a iam = "(aws_history, 'a) step"

text \<open>A call: its answer, recorded in the history.\<close>

definition call :: "(aws_history \<Rightarrow> goerr + 'a) \<Rightarrow> (goerr + 'a \<Rightarrow> aws_event) \<Rightarrow> 'a iam" where
  "call answer ev h = (let r = answer h in (r, h @ [ev r]))"

definition call_unit :: "(aws_history \<Rightarrow> goerr option) \<Rightarrow> (goerr option \<Rightarrow> aws_event) \<Rightarrow> unit iam" where
  "call_unit answer ev h = (let r = answer h in (of_error r, h @ [ev r]))"

text \<open>A value that is no call.\<close>

definition pure_result :: "goerr + 'a \<Rightarrow> 'a iam" where
  "pure_result r h = (r, h)"

definition is_AwsError :: "goerr \<Rightarrow> string option" where
  "is_AwsError e = (case e of AwsError code msg \<Rightarrow> Some code | _ \<Rightarrow> None)"

definition ErrCodeLimitExceededException :: string where
  "ErrCodeLimitExceededException = ''LimitExceeded''"

text \<open>\<open>url.QueryUnescape\<close>.\<close>

fun QueryUnescape :: "string \<Rightarrow> goerr + string" where
  "QueryUnescape [] = Inr []"
| "QueryUnescape (c # cs) =
     (if c = CHR ''%'' then
        (case cs of
           a # b # rest \<Rightarrow>
             (case (unhex a, unhex b) of
                (Some x, Some y) \<Rightarrow>
                  (case QueryUnescape rest of
                     Inl e \<Rightarrow> Inl e
                   | Inr s \<Rightarrow> Inr (char_of (16 * x + y) # s))
              | _ \<Rightarrow> Inl (ExtError ''invalid URL escape''))
         | _ \<Rightarrow> Inl (ExtError ''invalid URL escape''))
      else
        (case QueryUnescape cs of
           Inl e \<Rightarrow> Inl e
         | Inr s \<Rightarrow> Inr ((if c = CHR ''+'' then CHR '' '' else c) # s)))"

section \<open>The client\<close>

record Client =
  awsAccountID :: string
  iamPrefix :: string

definition NewClient :: "string \<Rightarrow> string \<Rightarrow> Client" where
  "NewClient accountID prefix0 = \<lparr>awsAccountID = accountID, iamPrefix = prefix0\<rparr>"

definition policyARN :: "Client \<Rightarrow> string \<Rightarrow> string" where
  "policyARN c policyName =
     ''arn:aws:iam::'' @ awsAccountID c @ '':policy'' @ iamPrefix c @ policyName"

definition listPolicies :: "aws \<Rightarrow> Client \<Rightarrow> aws_policy list iam" where
  "listPolicies aws c =
     onerr (call (\<lambda>h. aws_ListPoliciesPages aws h (iamPrefix c)) (ListPoliciesPages (iamPrefix c))) id
       (\<lambda>pages. ok (concat pages))"

definition listIAMPolicies :: "aws \<Rightarrow> Client \<Rightarrow> aws_policy list iam" where
  "listIAMPolicies aws c = listPolicies aws c"

definition getPolicyDocument :: "aws \<Rightarrow> Client \<Rightarrow> aws_policy \<Rightarrow> PolicyDocument iam" where
  "getPolicyDocument aws c policy =
     (let arn = policyARN c (ap_PolicyName policy); v = ap_DefaultVersionId policy
      in onerr (call (\<lambda>h. aws_GetPolicyVersion aws h v arn) (GetPolicyVersion v arn))
           (Wrapf ''retrieve policy version %s with policy ARN %s failed: %w'' [v, arn])
         (\<lambda>document. onerr (pure_result (QueryUnescape document))
              (Wrapf ''unable to query unescape: %s: %w'' [ap_PolicyName policy])
         (\<lambda>jsonDocument. onerr (pure_result (json_Unmarshal jsonDocument))
              (Wrapf ''unable to unmarshal document %s: %w'' [ap_PolicyName policy]) ok)))"

text \<open>The loop of \<open>ListPolicies\<close>: the document of every policy, in order.\<close>

definition fetch_policy :: "aws \<Rightarrow> Client \<Rightarrow> aws_policy \<Rightarrow> Policy list iam" where
  "fetch_policy aws c iamPolicy =
     onerr (getPolicyDocument aws c iamPolicy) id
       (\<lambda>document. ok [\<lparr>pol_Name = ap_PolicyName iamPolicy,
            pol_CurrentVersionId = ap_DefaultVersionId iamPolicy, pol_Document = document\<rparr>])"

definition ListPolicies :: "aws \<Rightarrow> Client \<Rightarrow> Policy list iam" where
  "ListPolicies aws c =
     onerr (listPolicies aws c) (Wrapf ''unable to list policies: %w'' [])
       (\<lambda>iamPolicies. collect (fetch_policy aws c) iamPolicies)"

text \<open>Deleting one old version: every error of the AWS SDK is passed over, other errors are
  returned.\<close>

definition delete_version :: "aws \<Rightarrow> string \<Rightarrow> string \<Rightarrow> aws_version \<Rightarrow> unit iam" where
  "delete_version aws name arn version =
     (if av_IsDefaultVersion version \<noteq> Some False then ok ()
      else (\<lambda>h. case call_unit (\<lambda>h. aws_DeletePolicyVersion aws h arn (av_VersionId version))
                      (DeletePolicyVersion arn (av_VersionId version)) h of
          (Inl err, h') \<Rightarrow>
            if is_AwsError err \<noteq> None then (Inr (), h')
            else (Inl (Wrapf ''delete policy version: %s: %w'' [name] err), h')
        | (Inr u, h') \<Rightarrow> (Inr (), h')))"

definition deleteOldPolicyVersions :: "aws \<Rightarrow> Client \<Rightarrow> Policy \<Rightarrow> unit iam" where
  "deleteOldPolicyVersions aws c policy =
     (let arn = policyARN c (pol_Name policy)
      in onerr (call (\<lambda>h. aws_ListPolicyVersions aws h arn) (ListPolicyVersions arn))
           (Wrapf ''list policy versions: %s: %w'' [pol_Name policy])
         (\<lambda>versions. for_each (delete_version aws (pol_Name policy) arn) versions))"

definition create_version :: "aws \<Rightarrow> string \<Rightarrow> string \<Rightarrow> unit iam" where
  "create_version aws arn doc =
     call_unit (\<lambda>h. aws_CreatePolicyVersion aws h arn doc) (CreatePolicyVersion arn doc)"

definition updatePolicy :: "aws \<Rightarrow> Client \<Rightarrow> Policy \<Rightarrow> unit iam" where
  "updatePolicy aws c policy =
     onerr (pure_result (json_Marshal (pol_Document policy)))
       (Wrapf ''unable to marshal document: %s: %w'' [pol_Name policy])
       (\<lambda>doc h. let arn = policyARN c (pol_Name policy)
          in case create_version aws arn doc h of
               (Inr u, h') \<Rightarrow> (Inr (), h')
             | (Inl err, h') \<Rightarrow>
                 if is_AwsError err = Some ErrCodeLimitExceededException then
                   onerr (deleteOldPolicyVersions aws c policy)
                     (Wrapf ''delete old policy versions: %s: %w'' [pol_Name policy])
                     (\<lambda>_. onerr (create_version aws arn doc)
                       (Wrapf ''create policy version: %s: %w'' [pol_Name policy]) ok) h'
                 else (Inl (Wrapf ''update policy version with arn: %s: %w'' [arn] err), h'))"

definition UpdatePolicy :: "aws \<Rightarrow> Client \<Rightarrow> Policy \<Rightarrow> unit iam" where
  "UpdatePolicy aws c policy =
     onerr (updatePolicy aws c policy) (Wrapf ''update policy: %s: %w'' [pol_Name policy]) ok"

definition CreatePolicy :: "aws \<Rightarrow> Client \<Rightarrow> Policy \<Rightarrow> aws_policy iam" where
  "CreatePolicy aws c policy =
     onerr (pure_result (json_Marshal (pol_Document policy)))
       (Wrapf ''unable to marshal document: %s: %w'' [pol_Name policy])
     (\<lambda>doc. onerr (call (\<lambda>h. aws_CreatePolicy aws h (iamPrefix c) doc (pol_Name policy))
                     (CreatePolicyEv (iamPrefix c) doc (pol_Name policy)))
         (Wrapf ''unable to create policy %s: %w'' [pol_Name policy]) ok)"

definition listAttachedPolicies :: "aws \<Rightarrow> Client \<Rightarrow> string \<Rightarrow> string \<Rightarrow> string list iam" where
  "listAttachedPolicies aws c role pre =
     onerr (call (\<lambda>h. aws_ListAttached aws h role pre) (ListAttachedRolePoliciesPages role pre))
       (Wrapf ''unable to list attached policies for %s: %w'' [role])
       (\<lambda>pages. ok (concat pages))"

definition ListManagedAttachedPolicies :: "aws \<Rightarrow> Client \<Rightarrow> string \<Rightarrow> string list iam" where
  "ListManagedAttachedPolicies aws c role = listAttachedPolicies aws c role (iamPrefix c)"

fun hasAttachedPolicy :: "string list \<Rightarrow> string \<Rightarrow> bool" where
  "hasAttachedPolicy [] name = False"
| "hasAttachedPolicy (r # rs) name = (if r = name then True else hasAttachedPolicy rs name)"

definition AttachPolicy :: "aws \<Rightarrow> Client \<Rightarrow> string \<Rightarrow> aws_policy \<Rightarrow> unit iam" where
  "AttachPolicy aws c role policy =
     onerr (ListManagedAttachedPolicies aws c role) (Wrapf ''unable to list attached policies: %w'' [])
     (\<lambda>attached.
        if \<not> hasAttachedPolicy attached (ap_PolicyName policy) then
          onerr (call_unit (\<lambda>h. aws_AttachRolePolicy aws h (ap_Arn policy) role) (AttachRolePolicy (ap_Arn policy) role))
            (Wrapf ''unable to attach policy %s to role %s: %w'' [ap_PolicyName policy, role]) ok
        else ok ())"

definition GetRole :: "aws \<Rightarrow> Client \<Rightarrow> string \<Rightarrow> string iam" where
  "GetRole aws c roleName =
     onerr (call (\<lambda>h. aws_GetRole aws h roleName) (GetRoleEv roleName))
       (Wrapf ''unable to list attached policies: %w'' []) ok"

fun lookupPolicy :: "aws_policy list \<Rightarrow> string \<Rightarrow> aws_policy option" where
  "lookupPolicy [] name = None"
| "lookupPolicy (r # rs) name = (if ap_PolicyName r = name then Some r else lookupPolicy rs name)"

definition detach_policy :: "aws \<Rightarrow> Policy \<Rightarrow> aws_policy \<Rightarrow> string \<Rightarrow> unit iam" where
  "detach_policy aws policy existing name =
     onerr (call_unit (\<lambda>h. aws_DetachRolePolicy aws h (ap_Arn existing) name) (DetachRolePolicy (ap_Arn existing) name))
       (Wrapf ''unable to delete policy %s: %w'' [pol_Name policy]) ok"

definition delete_policy :: "aws \<Rightarrow> Policy \<Rightarrow> aws_policy \<Rightarrow> unit iam" where
  "delete_policy aws policy existing =
     onerr (call_unit (\<lambda>h. aws_DeletePolicy aws h (ap_Arn existing)) (DeletePolicy (ap_Arn existing)))
       (Wrapf ''unable to delete policy %s: %w'' [pol_Name policy]) ok"

definition DeleteAndDetachPolicy :: "aws \<Rightarrow> Client \<Rightarrow> Policy \<Rightarrow> string list \<Rightarrow> unit iam" where
  "DeleteAndDetachPolicy aws c policy roleNames =
     onerr (listPolicies aws c) (Wrapf ''unable to list policies: %w'' [])
     (\<lambda>policies. case lookupPolicy policies (pol_Name policy) of
        None \<Rightarrow> ok ()
      | Some existing \<Rightarrow>
          onerr (for_each (detach_policy aws policy existing) roleNames) id
            (\<lambda>_. delete_policy aws policy existing))"

section \<open>Users\<close>

record EnsureUserConfig =
  euc_Region :: string
  euc_AccountID :: string
  euc_PolicyBaseName :: string
  euc_MaxUsersPerPolicy :: int
  euc_RolePrefix :: string
  euc_AWSLoginRoles :: "string list"

text \<open>All policies are written; the errors are collected.\<close>

fun update_policies_loop :: "aws \<Rightarrow> Client \<Rightarrow> goerr option \<Rightarrow> Policy list \<Rightarrow> aws_history \<Rightarrow> goerr option \<times> aws_history" where
  "update_policies_loop aws c errs [] h = (errs, h)"
| "update_policies_loop aws c errs (policy # ps) h =
     (case UpdatePolicy aws c policy h of
        (Inl err, h') \<Rightarrow>
          update_policies_loop aws c
            (multierr_Append errs (Wrapf (''policy '' @ [CHR 0x27] @ ''%s'' @ [CHR 0x27] @ '': %w'') [pol_Name policy] err)) ps h'
      | (Inr u, h') \<Rightarrow> update_policies_loop aws c errs ps h')"

definition updatePolicies :: "aws \<Rightarrow> Client \<Rightarrow> Policy list \<Rightarrow> unit iam" where
  "updatePolicies aws c policies h =
     (case update_policies_loop aws c None policies h of (errs, h') \<Rightarrow> (of_error errs, h'))"

definition attachPolicyToAwsLoginRoles ::
    "aws \<Rightarrow> Client \<Rightarrow> EnsureUserConfig \<Rightarrow> aws_policy list \<Rightarrow> unit iam" where
  "attachPolicyToAwsLoginRoles aws c config policies =
     for_each (\<lambda>roleName. onerr (GetRole aws c roleName) id
                 (\<lambda>role. for_each (AttachPolicy aws c role) policies))
       (euc_AWSLoginRoles config)"

text \<open>
  The two loops over the policies of \<open>EnsureUser\<close>. They change the documents in place and
  write all policies after each change: \<open>before\<close> are the policies already visited, in their
  current form. The result says whether the user was handled.
\<close>

fun ensure_update_loop ::
    "aws \<Rightarrow> Client \<Rightarrow> EnsureUserConfig \<Rightarrow> string \<Rightarrow> string \<Rightarrow> Policy list \<Rightarrow> Policy list \<Rightarrow> bool \<Rightarrow> bool iam" where
  "ensure_update_loop aws c cfg userName rolename before [] userHandled = ok userHandled"
| "ensure_update_loop aws c cfg userName rolename before (policy # ps) userHandled =
     (if \<not> Exists (pol_Document policy) userName
      then ensure_update_loop aws c cfg userName rolename (before @ [policy]) ps userHandled
      else
        let (doc, updated) = Update (euc_Region cfg) (euc_AccountID cfg) (euc_RolePrefix cfg) userName rolename (pol_Document policy);
            policy' = policy\<lparr>pol_Document := doc\<rparr>
        in onerr (if updated then updatePolicies aws c (before @ policy' # ps) else ok ()) id
             (\<lambda>_. ensure_update_loop aws c cfg userName rolename (before @ [policy']) ps True))"

fun ensure_add_loop ::
    "aws \<Rightarrow> Client \<Rightarrow> EnsureUserConfig \<Rightarrow> string \<Rightarrow> string \<Rightarrow> Policy list \<Rightarrow> Policy list \<Rightarrow> bool \<Rightarrow> bool iam" where
  "ensure_add_loop aws c cfg userName rolename before [] userHandled = ok userHandled"
| "ensure_add_loop aws c cfg userName rolename before (policy # ps) userHandled =
     (if Count (pol_Document policy) < euc_MaxUsersPerPolicy cfg then
        let policy' = policy\<lparr>pol_Document := Add (euc_Region cfg) (euc_AccountID cfg) (euc_RolePrefix cfg) userName rolename (pol_Document policy)\<rparr>
        in onerr (updatePolicies aws c (before @ policy' # ps)) id
             (\<lambda>_. ensure_add_loop aws c cfg userName rolename (before @ [policy']) ps True)
      else ensure_add_loop aws c cfg userName rolename (before @ [policy]) ps userHandled)"

text \<open>A number printed with the format \<open>%d\<close>.\<close>

fun decimal :: "nat \<Rightarrow> string" where
  "decimal n = (if n < 10 then [char_of (48 + n)] else decimal (n div 10) @ [char_of (48 + n mod 10)])"

declare decimal.simps [simp del]

definition new_policy :: "EnsureUserConfig \<Rightarrow> nat \<Rightarrow> string \<Rightarrow> string \<Rightarrow> Policy" where
  "new_policy cfg n userName rolename =
     \<lparr>pol_Name = euc_PolicyBaseName cfg @ ''_'' @ decimal n, pol_CurrentVersionId = [],
      pol_Document = Add (euc_Region cfg) (euc_AccountID cfg) (euc_RolePrefix cfg) userName rolename
        \<lparr>pd_Version = ''2012-10-17'', pd_Statement = []\<rparr>\<rparr>"

definition EnsureUser :: "aws \<Rightarrow> Client \<Rightarrow> EnsureUserConfig \<Rightarrow> string \<Rightarrow> string \<Rightarrow> unit iam" where
  "EnsureUser aws client config userName rolename =
     onerr (ListPolicies aws client) id
     (\<lambda>policies. let users = concat (map (\<lambda>p. ListUsers (pol_Document p)) policies) in
        onerr (if userName \<in> set users
               then ensure_update_loop aws client config userName rolename [] policies False
               else ensure_add_loop aws client config userName rolename [] policies False) id
     (\<lambda>userHandled.
        onerr (if \<not> userHandled then
                 onerr (CreatePolicy aws client (new_policy config (length policies) userName rolename)) id
                 (\<lambda>newAwsPolicy. attachPolicyToAwsLoginRoles aws client config [newAwsPolicy])
               else ok ()) id
     (\<lambda>_. onerr (listIAMPolicies aws client) id
     (\<lambda>iamPolicies. attachPolicyToAwsLoginRoles aws client config iamPolicies))))"

definition remove_step :: "aws \<Rightarrow> Client \<Rightarrow> string list \<Rightarrow> string \<Rightarrow> Policy \<Rightarrow> unit iam" where
  "remove_step aws client awsLoginRoles username policy =
     (if Exists (pol_Document policy) username then
        let policy' = policy\<lparr>pol_Document := Remove username (pol_Document policy)\<rparr>
        in if Count (pol_Document policy') = 0
           then DeleteAndDetachPolicy aws client policy' awsLoginRoles
           else UpdatePolicy aws client policy'
      else ok ())"

definition RemoveUser :: "aws \<Rightarrow> Client \<Rightarrow> string list \<Rightarrow> string \<Rightarrow> unit iam" where
  "RemoveUser aws client awsLoginRoles username =
     onerr (ListPolicies aws client) id
       (\<lambda>policies. for_each (remove_step aws client awsLoginRoles username) policies)"

end
