(* ===== verification/Iam_Laws.thy ===== *)
theory Iam_Laws
  imports Iam
begin

text \<open>
  What the users' IAM policies are after \<open>EnsureUser\<close> and \<open>RemoveUser\<close>.

  The theorems rest on the documented behaviour of AWS IAM, stated as \<open>iam_laws\<close> about a
  store \<open>st\<close>: after a history \<open>h\<close>, \<open>st h\<close> maps the name of each policy under the
  controller's path to its default version and that version's document. The store is abstract;
  \<open>docs\<close> reads the documents off it. Both operations are shown to refine a function on
  the map from names to documents, which is written in terms of the statements of a document and
  not of the operations of the code.

  The laws idealise the service in two ways. A read returns what the calls before it wrote, while IAM
  is only eventually consistent. And the policies listed under the path are those
  directly under it, while IAM matches the path as a prefix, so that a path \<open>/\<close> also lists policies of
  deeper paths.
\<close>

section \<open>The laws of the service\<close>

text \<open>Calls that change no document: reads, attaching and detaching, deleting old versions, and
  a new version that was refused because there are too many.\<close>

fun store_neutral :: "aws_event \<Rightarrow> bool" where
  "store_neutral (CreatePolicyVersion arn d r) =
     (case r of None \<Rightarrow> False | Some e \<Rightarrow> is_AwsError e = Some ErrCodeLimitExceededException)"
| "store_neutral (CreatePolicyEv path d n r) = False"
| "store_neutral (DeletePolicy arn r) = False"
| "store_neutral e = True"

type_synonym policy_store = "aws_history \<Rightarrow> string \<Rightarrow> (string \<times> string) option"

definition iam_laws :: "aws \<Rightarrow> Client \<Rightarrow> policy_store \<Rightarrow> bool" where
  "iam_laws aws c st \<longleftrightarrow>
     (\<forall>h e. store_neutral e \<longrightarrow> st (h @ [e]) = st h) \<and>
     (\<forall>h n d. \<exists>v. st (h @ [CreatePolicyVersion (policyARN c n) d None]) = (st h)(n \<mapsto> (v, d))) \<and>
     (\<forall>h n d p. st (h @ [CreatePolicyEv (iamPrefix c) d n (Inr p)]) = (st h)(n \<mapsto> (ap_DefaultVersionId p, d))) \<and>
     (\<forall>h n. st (h @ [DeletePolicy (policyARN c n) None]) = (st h)(n := None)) \<and>
     (\<forall>h pages. aws_ListPoliciesPages aws h (iamPrefix c) = Inr pages \<longrightarrow>
        distinct (map ap_PolicyName (concat pages)) \<and>
        ap_PolicyName ` set (concat pages) = dom (st h) \<and>
        (\<forall>p\<in>set (concat pages). ap_Arn p = policyARN c (ap_PolicyName p) \<and>
           (\<exists>d. st h (ap_PolicyName p) = Some (ap_DefaultVersionId p, d)))) \<and>
     (\<forall>h n v d s. st h n = Some (v, d) \<longrightarrow> aws_GetPolicyVersion aws h v (policyARN c n) = Inr s \<longrightarrow>
        QueryUnescape s = Inr d) \<and>
     (\<forall>h n d p. aws_CreatePolicy aws h (iamPrefix c) d n = Inr p \<longrightarrow> st h n = None)"

text \<open>The documents by policy name.\<close>

definition docs :: "policy_store \<Rightarrow> aws_history \<Rightarrow> string \<Rightarrow> PolicyDocument option" where
  "docs st h n =
     (case st h n of
        None \<Rightarrow> None
      | Some (v, d) \<Rightarrow> (case json_Unmarshal d of Inl e \<Rightarrow> None | Inr doc \<Rightarrow> Some doc))"

section \<open>The operations on documents that are refined\<close>

text \<open>The specification speaks about the statements of the documents only. A statement belongs to the
  user whose identifier its condition has, and lets that user connect to the database roles whose
  resources it lists.\<close>

definition speaks_of :: "string \<Rightarrow> PolicyDocument \<Rightarrow> bool" where
  "speaks_of u d \<longleftrightarrow> (\<exists>s\<in>set (pd_Statement d). statement_user s = user_id u)"

definition remove_doc :: "string \<Rightarrow> PolicyDocument \<Rightarrow> PolicyDocument option" where
  "remove_doc u d =
     (let others = filter (\<lambda>s. statement_user s \<noteq> user_id u) (pd_Statement d)
      in if \<not> speaks_of u d then Some d
         else if others = [] then None
         else Some (d\<lparr>pd_Statement := others\<rparr>))"

definition remove_spec :: "string \<Rightarrow> (string \<Rightarrow> PolicyDocument option) \<Rightarrow> string \<Rightarrow> PolicyDocument option" where
  "remove_spec u M n = Option.bind (M n) (remove_doc u)"

definition role_resource :: "EnsureUserConfig \<Rightarrow> string \<Rightarrow> string" where
  "role_resource cfg r =
     ''arn:aws:rds-db:'' @ euc_Region cfg @ '':'' @ euc_AccountID cfg @ '':dbuser:*/'' @ euc_RolePrefix cfg @ r"

definition connect_statement :: "EnsureUserConfig \<Rightarrow> string \<Rightarrow> string \<Rightarrow> StatementEntry" where
  "connect_statement cfg u r =
     \<lparr>se_Effect = ''Allow'', se_Action = [''rds-db:connect''], se_Resource = [role_resource cfg r],
      se_Condition = \<lparr>sl_StringLike = \<lparr>AWSUserID = user_id u\<rparr>\<rparr>\<rparr>"

definition update_doc :: "EnsureUserConfig \<Rightarrow> string \<Rightarrow> string \<Rightarrow> PolicyDocument \<Rightarrow> PolicyDocument" where
  "update_doc cfg u r d =
     d\<lparr>pd_Statement := map (\<lambda>s. if statement_user s = user_id u \<and> role_resource cfg r \<notin> set (se_Resource s)
          then connect_statement cfg u r else s) (pd_Statement d)\<rparr>"

definition add_doc :: "EnsureUserConfig \<Rightarrow> string \<Rightarrow> string \<Rightarrow> PolicyDocument \<Rightarrow> PolicyDocument" where
  "add_doc cfg u r d =
     (if int (length (pd_Statement d)) < euc_MaxUsersPerPolicy cfg
      then d\<lparr>pd_Statement := pd_Statement d @ [connect_statement cfg u r]\<rparr> else d)"

definition ensure_spec ::
    "EnsureUserConfig \<Rightarrow> string \<Rightarrow> string \<Rightarrow> (string \<Rightarrow> PolicyDocument option) \<Rightarrow> string \<Rightarrow> PolicyDocument option" where
  "ensure_spec cfg u r M =
     (let created = M(euc_PolicyBaseName cfg @ ''_'' @ decimal (card (dom M)) \<mapsto>
            \<lparr>pd_Version = ''2012-10-17'', pd_Statement = [connect_statement cfg u r]\<rparr>)
      in if \<exists>d\<in>ran M. \<exists>s\<in>set (pd_Statement d). named_by (statement_user s) u then
           if \<exists>d\<in>ran M. speaks_of u d then map_option (update_doc cfg u r) \<circ> M else created
         else
           if \<exists>d\<in>ran M. int (length (pd_Statement d)) < euc_MaxUsersPerPolicy cfg then map_option (add_doc cfg u r) \<circ> M
           else created)"

text \<open>The operations of the code on documents compute these.\<close>

lemma connect_statement_code:
  "connect_statement cfg u r =
     newStatementEntry (euc_Region cfg) (euc_AccountID cfg) (euc_RolePrefix cfg) r (usernameToUserId u)"
  by (simp add: connect_statement_def newStatementEntry_def role_resource_def formatStatementResource_def)

lemma role_resource_code:
  "role_resource cfg r = formatStatementResource (euc_Region cfg) (euc_AccountID cfg) (euc_RolePrefix cfg) r (usernameToUserId u)"
  by (simp add: role_resource_def formatStatementResource_def)

lemma speaks_of_code: "speaks_of u d \<longleftrightarrow> Exists d u"
  by (simp add: speaks_of_def Exists_iff)

lemma named_by_code: "(\<exists>s\<in>set (pd_Statement d). named_by (statement_user s) u) \<longleftrightarrow> u \<in> set (ListUsers d)"
  by (auto simp: ListUsers_def userIdToUsername_iff [symmetric])

lemma remove_doc_code:
  "remove_doc u d =
     (if \<not> Exists d u then Some d
      else if Count (Remove u d) = 0 then None
      else Some (Remove u d))"
  by (simp add: remove_doc_def Let_def speaks_of_code Count_def pd_Statement_Remove) (simp add: Remove_def remove_loop_filter)

lemma update_doc_code:
  "update_doc cfg u r d =
     (if Exists d u then fst (Update (euc_Region cfg) (euc_AccountID cfg) (euc_RolePrefix cfg) u r d) else d)"
proof -
  have "update_doc cfg u r d = fst (Update (euc_Region cfg) (euc_AccountID cfg) (euc_RolePrefix cfg) u r d)"
    by (simp add: update_doc_def Update_eq connect_statement_code role_resource_code [of _ _ u] refresh_def cong: map_cong)
  moreover have "update_doc cfg u r d = d" if "\<not> Exists d u"
    using that by (cases d) (auto simp: update_doc_def Exists_iff intro!: map_idI)
  ultimately show ?thesis by simp
qed

lemma add_doc_code:
  "add_doc cfg u r d =
     (if Count d < euc_MaxUsersPerPolicy cfg
      then Add (euc_Region cfg) (euc_AccountID cfg) (euc_RolePrefix cfg) u r d else d)"
  by (simp add: add_doc_def Count_def Add_def Let_def connect_statement_code)

lemma ensure_spec_code:
  "ensure_spec cfg u r M =
     (let fresh = new_policy cfg (card (dom M)) u r; created = M(pol_Name fresh \<mapsto> pol_Document fresh)
      in if \<exists>d\<in>ran M. u \<in> set (ListUsers d) then
           if \<exists>d\<in>ran M. Exists d u then map_option (update_doc cfg u r) \<circ> M else created
         else
           if \<exists>d\<in>ran M. Count d < euc_MaxUsersPerPolicy cfg then map_option (add_doc cfg u r) \<circ> M
           else created)"
  by (simp add: ensure_spec_def new_policy_def Add_def connect_statement_code speaks_of_code named_by_code Count_def Let_def)

section \<open>Steps that keep a view of the state\<close>

named_theorems keeps_intros

lemma preserves_call [preserves_intros]:
  "(\<And>h r. P h \<Longrightarrow> P (h @ [ev r])) \<Longrightarrow> preserves P (call answer ev)"
  "(\<And>h r'. P h \<Longrightarrow> P (h @ [ev' r'])) \<Longrightarrow> preserves P (call_unit answer' ev')"
  by (simp_all add: preserves_def call_def call_unit_def Let_def)

lemma preserves_pure [preserves_intros]: "preserves P (pure_result r)"
  by (simp add: preserves_def pure_result_def)

definition keeps :: "('s \<Rightarrow> 'b) \<Rightarrow> ('s, 'a) step \<Rightarrow> bool" where
  "keeps f m \<longleftrightarrow> (\<forall>v. preserves (\<lambda>h. f h = v) m)"

lemma keepsD: "keeps f m \<Longrightarrow> m h = (r, h') \<Longrightarrow> f h' = f h"
  unfolding keeps_def by (blast dest: preservesD)

lemma keeps_call [keeps_intros]:
  "(\<And>h r. f (h @ [ev r]) = f h) \<Longrightarrow> keeps f (call answer ev)"
  "(\<And>h r'. f (h @ [ev' r']) = f h) \<Longrightarrow> keeps f (call_unit answer' ev')"
  by (simp_all add: keeps_def preserves_call)

lemma keeps_steps [keeps_intros]:
  "keeps f (\<lambda>h. (r, h))"
  "keeps f (pure_result q)"
  "keeps f m \<Longrightarrow> (\<And>x. keeps f (k x)) \<Longrightarrow> keeps f (onerr m wrap k)"
  "(\<And>x. keeps f (b x)) \<Longrightarrow> keeps f (for_each b xs)"
  "(\<And>x. keeps f (l x)) \<Longrightarrow> keeps f (collect l xs)"
  "keeps f m \<Longrightarrow> keeps f n \<Longrightarrow> keeps f (if c then m else n)"
  by (simp_all add: keeps_def preserves_intros)

section \<open>UTF-8\<close>

lemma doc_utf8_Remove: "doc_utf8 d \<Longrightarrow> doc_utf8 (Remove u d)"
  by (auto simp: doc_utf8_def pd_Statement_Remove list_all_iff) (simp add: Remove_def)

section \<open>Operations that change no document\<close>

lemma store_neutral_keeps: "iam_laws aws c st \<Longrightarrow> store_neutral e \<Longrightarrow> st (h @ [e]) = st h"
  by (simp add: iam_laws_def)

lemma keeps_delete_version:
  assumes "iam_laws aws c st"
  shows "keeps st (delete_version aws name arn v)"
  using store_neutral_keeps [OF assms]
  by (auto simp: keeps_def preserves_def delete_version_def call_unit_def Let_def split: option.splits sum.splits)

lemma keeps_store:
  assumes "iam_laws aws c st"
  shows "keeps st (listPolicies aws c)"
    and "keeps st (ListPolicies aws c)"
    and "keeps st (deleteOldPolicyVersions aws c p)"
    and "keeps st (attachPolicyToAwsLoginRoles aws c cfg ps)"
    and "keeps st (for_each (detach_policy aws p existing) names)"
  unfolding ListPolicies_def listPolicies_def fetch_policy_def getPolicyDocument_def Let_def
    deleteOldPolicyVersions_def attachPolicyToAwsLoginRoles_def GetRole_def AttachPolicy_def
    ListManagedAttachedPolicies_def listAttachedPolicies_def detach_policy_def
  by (intro keeps_intros keeps_delete_version [OF assms] store_neutral_keeps [OF assms] store_neutral.simps TrueI | simp)+

section \<open>One document written\<close>

lemma policyARN_inj [simp]: "policyARN c n = policyARN c m \<longleftrightarrow> n = m"
  by (simp add: policyARN_def)

lemma create_version_ok:
  assumes "iam_laws aws c st" and "create_version aws (policyARN c n) d h = (Inr u, h')"
  shows "\<exists>v. st h' = (st h)(n \<mapsto> (v, d))"
  using assms by (auto simp: create_version_def call_unit_def Let_def iam_laws_def)

lemma create_version_refused:
  assumes "iam_laws aws c st" and "create_version aws arn d h = (Inl e, h')"
    and "is_AwsError e = Some ErrCodeLimitExceededException"
  shows "st h' = st h"
  using assms(2,3) store_neutral_keeps [OF assms(1)]
  by (auto simp: create_version_def call_unit_def Let_def)

lemma UpdatePolicy_store:
  assumes L: "iam_laws aws c st" and ok: "UpdatePolicy aws c p h = (Inr u, h')"
  shows "\<exists>j v. json_Marshal (pol_Document p) = Inr j \<and> st h' = (st h)(pol_Name p \<mapsto> (v, j))"
proof -
  let ?arn = "policyARN c (pol_Name p)"
  from ok obtain j where j: "json_Marshal (pol_Document p) = Inr j"
    and up: "updatePolicy aws c p h = (Inr (), h')"
    by (auto simp: UpdatePolicy_def updatePolicy_def pure_result_def elim!: onerr_InrE)
  show ?thesis
  proof (cases "create_version aws ?arn j h")
    case (Pair r h1)
    show ?thesis
    proof (cases r)
      case (Inr x)
      with Pair up j have "h1 = h'" by (simp add: updatePolicy_def pure_result_def onerr_def Let_def)
      with create_version_ok [OF L] Pair Inr j show ?thesis by auto
    next
      case (Inl e)
      with Pair up j have lim: "is_AwsError e = Some ErrCodeLimitExceededException"
        by (auto simp: updatePolicy_def pure_result_def onerr_def Let_def split: if_splits)
      with Pair Inl up j obtain h2 where del: "deleteOldPolicyVersions aws c p h1 = (Inr (), h2)"
        and again: "create_version aws ?arn j h2 = (Inr (), h')"
        by (auto simp: updatePolicy_def pure_result_def onerr_def Let_def split: sum.splits prod.splits)
      have "st h2 = st h1" using keepsD [OF keeps_store(3) [OF L] del] .
      moreover have "st h1 = st h" using create_version_refused [OF L] Pair Inl lim by blast
      ultimately show ?thesis using create_version_ok [OF L again] j by auto
    qed
  qed
qed

lemma docs_cong: "st h' = st h \<Longrightarrow> docs st h' = docs st h"
  by (simp add: docs_def fun_eq_iff)

lemma docs_update:
  assumes "doc_utf8 d" and "json_Marshal d = Inr j" and "st h' = (st h)(n \<mapsto> (v, j))"
  shows "docs st h' = (docs st h)(n \<mapsto> d)"
  using json_roundtrip [OF assms(1,2)] by (auto simp: docs_def assms(3))

lemma UpdatePolicy_docs:
  assumes "iam_laws aws c st" and "doc_utf8 (pol_Document p)"
    and "UpdatePolicy aws c p h = (Inr u, h')"
  shows "docs st h' = (docs st h)(pol_Name p \<mapsto> pol_Document p)"
  using UpdatePolicy_store [OF assms(1,3)] docs_update [OF assms(2)] by blast

section \<open>Listing\<close>

abbreviation entries :: "Policy list \<Rightarrow> (string \<times> PolicyDocument) list" where
  "entries ps \<equiv> map (\<lambda>p. (pol_Name p, pol_Document p)) ps"

lemma listPolicies_ok:
  assumes L: "iam_laws aws c st" and "listPolicies aws c h = (Inr ps, h')"
  shows "distinct (map ap_PolicyName ps)" and "ap_PolicyName ` set ps = dom (st h)" and "st h' = st h"
    and "p \<in> set ps \<Longrightarrow> ap_Arn p = policyARN c (ap_PolicyName p)"
    and "p \<in> set ps \<Longrightarrow> \<exists>d. st h (ap_PolicyName p) = Some (ap_DefaultVersionId p, d)"
proof -
  from assms(2) obtain pages where pages: "aws_ListPoliciesPages aws h (iamPrefix c) = Inr pages"
    and ps: "ps = concat pages"
    by (auto simp: listPolicies_def call_def Let_def elim!: onerr_InrE)
  have law: "distinct (map ap_PolicyName ps) \<and> ap_PolicyName ` set ps = dom (st h) \<and>
      (\<forall>p\<in>set ps. ap_Arn p = policyARN c (ap_PolicyName p) \<and>
           (\<exists>d. st h (ap_PolicyName p) = Some (ap_DefaultVersionId p, d)))"
    using L pages unfolding ps iam_laws_def by blast
  then show "distinct (map ap_PolicyName ps)" "ap_PolicyName ` set ps = dom (st h)"
    and "p \<in> set ps \<Longrightarrow> ap_Arn p = policyARN c (ap_PolicyName p)"
    and "p \<in> set ps \<Longrightarrow> \<exists>d. st h (ap_PolicyName p) = Some (ap_DefaultVersionId p, d)" by blast+
  show "st h' = st h" using keepsD [OF keeps_store(1) [OF L] assms(2)] .
qed

lemma fetch_policy_ok:
  assumes L: "iam_laws aws c st" and "fetch_policy aws c p h = (Inr qs, h')"
    and "st h (ap_PolicyName p) = Some (ap_DefaultVersionId p, d)"
  shows "\<exists>q. qs = [q] \<and> pol_Name q = ap_PolicyName p \<and> json_Unmarshal d = Inr (pol_Document q) \<and> st h' = st h"
proof -
  let ?v = "ap_DefaultVersionId p" and ?arn = "policyARN c (ap_PolicyName p)"
  from assms(2) obtain s j doc where s: "aws_GetPolicyVersion aws h ?v ?arn = Inr s"
    and j: "QueryUnescape s = Inr j" and doc: "json_Unmarshal j = Inr doc"
    and q: "qs = [\<lparr>pol_Name = ap_PolicyName p, pol_CurrentVersionId = ?v, pol_Document = doc\<rparr>]"
    and h': "h' = h @ [GetPolicyVersion ?v ?arn (Inr s)]"
    by (auto simp: fetch_policy_def getPolicyDocument_def call_def pure_result_def Let_def elim!: onerr_InrE)
  have "QueryUnescape s = Inr d" using L s assms(3) by (auto simp: iam_laws_def)
  with j doc q h' store_neutral_keeps [OF L] show ?thesis by simp
qed

lemma collect_fetch:
  assumes L: "iam_laws aws c st"
  shows "collect (fetch_policy aws c) ps h = (Inr qs, h') \<Longrightarrow>
    \<forall>p\<in>set ps. \<exists>d. st h (ap_PolicyName p) = Some (ap_DefaultVersionId p, d) \<Longrightarrow>
    map pol_Name qs = map ap_PolicyName ps \<and>
    (\<forall>q\<in>set qs. docs st h (pol_Name q) = Some (pol_Document q))"
proof (induction ps arbitrary: h qs)
  case Nil
  then show ?case by simp
next
  case (Cons p ps)
  from Cons.prems(1) obtain q1 h1 q2 where f: "fetch_policy aws c p h = (Inr q1, h1)"
    and rest: "collect (fetch_policy aws c) ps h1 = (Inr q2, h')" and qs: "qs = q1 @ q2"
    by (auto elim!: onerr_InrE)
  from Cons.prems(2) obtain d where "st h (ap_PolicyName p) = Some (ap_DefaultVersionId p, d)" by auto
  from fetch_policy_ok [OF L f this] this obtain q where q: "q1 = [q]" "pol_Name q = ap_PolicyName p"
    "docs st h (pol_Name q) = Some (pol_Document q)" and "st h1 = st h"
    by (auto simp: docs_def)
  with Cons.IH [OF rest] Cons.prems(2) docs_cong [of st h1 h] show ?case
    by (auto simp: qs)
qed

lemma ListPolicies_ok:
  assumes L: "iam_laws aws c st" and "ListPolicies aws c h = (Inr ps, h')"
  shows "distinct (map pol_Name ps)" and "docs st h = map_of (entries ps)" and "st h' = st h"
proof -
  from assms(2) obtain ips h1 where l: "listPolicies aws c h = (Inr ips, h1)"
    and col: "collect (fetch_policy aws c) ips h1 = (Inr ps, h')"
    by (auto simp: ListPolicies_def elim!: onerr_InrE)
  note listed = listPolicies_ok [OF L l]
  have names: "map pol_Name ps = map ap_PolicyName ips"
    and ds: "\<forall>q\<in>set ps. docs st h (pol_Name q) = Some (pol_Document q)"
    using collect_fetch [OF L col] listed(3,5) docs_cong [OF listed(3)] by auto
  show dist: "distinct (map pol_Name ps)" using names listed(1) by simp
  show "st h' = st h" using keepsD [OF keeps_store(2) [OF L] assms(2)] .
  show "docs st h = map_of (entries ps)"
  proof
    fix n
    show "docs st h n = map_of (entries ps) n"
    proof (cases "n \<in> pol_Name ` set ps")
      case True
      with ds dist show ?thesis by (auto simp: comp_def intro!: map_of_is_SomeI [symmetric])
    next
      case False
      then have "st h n = None" using names listed(2) by (metis domIff list.set_map)
      with False show ?thesis by (auto simp: docs_def map_of_eq_None_iff [THEN iffD2] image_image)
    qed
  qed
qed

section \<open>RemoveUser\<close>

lemma docs_utf8: "docs st h n = Some d \<Longrightarrow> doc_utf8 d"
  by (auto simp: docs_def split: option.splits sum.splits dest: json_Unmarshal_utf8)

lemma lookupPolicy_SomeD: "lookupPolicy ps n = Some p \<Longrightarrow> p \<in> set ps \<and> ap_PolicyName p = n"
  by (induction ps) (auto split: if_splits)

lemma lookupPolicy_None: "lookupPolicy ps n = None \<Longrightarrow> n \<notin> ap_PolicyName ` set ps"
  by (induction ps) (auto split: if_splits)

lemma DeleteAndDetachPolicy_docs:
  assumes L: "iam_laws aws c st" and run: "DeleteAndDetachPolicy aws c p roles h = (Inr u, h')"
  shows "docs st h' = (docs st h)(pol_Name p := None)"
proof -
  from run obtain ps h1 where l: "listPolicies aws c h = (Inr ps, h1)"
    and rest: "(case lookupPolicy ps (pol_Name p) of None \<Rightarrow> ok ()
      | Some existing \<Rightarrow> onerr (for_each (detach_policy aws p existing) roles) id
            (\<lambda>_. delete_policy aws p existing)) h1 = (Inr u, h')"
    by (auto simp: DeleteAndDetachPolicy_def elim!: onerr_InrE)
  note listed = listPolicies_ok [OF L l]
  show ?thesis
  proof (cases "lookupPolicy ps (pol_Name p)")
    case None
    then have "st h (pol_Name p) = None" using lookupPolicy_None listed(2) by (metis domIff)
    moreover have "st h' = st h" using None rest listed(3) by simp
    ultimately show ?thesis by (auto simp: docs_def)
  next
    case (Some q)
    with listed(4) lookupPolicy_SomeD have arn: "ap_Arn q = policyARN c (pol_Name p)" by fastforce
    from Some rest obtain u2 h2 where det: "for_each (detach_policy aws p q) roles h1 = (Inr u2, h2)"
      and h': "h' = h2 @ [DeletePolicy (policyARN c (pol_Name p)) None]"
      by (auto simp: delete_policy_def call_unit_def Let_def arn elim!: onerr_InrE)
    have "st h2 = st h" using keepsD [OF keeps_store(5) [OF L] det] listed(3) by simp
    then have "st h' = (st h)(pol_Name p := None)" using L by (simp add: h' iam_laws_def)
    then show ?thesis by (auto simp: docs_def)
  qed
qed

lemma remove_step_docs:
  assumes "iam_laws aws c st" and "docs st h (pol_Name p) = Some (pol_Document p)"
    and "remove_step aws c roles u p h = (Inr x, h')"
  shows "docs st h' = (docs st h)(pol_Name p := remove_doc u (pol_Document p))"
proof -
  have utf: "doc_utf8 (Remove u (pol_Document p))"
    using docs_utf8 [OF assms(2)] by (rule doc_utf8_Remove)
  consider "\<not> Exists (pol_Document p) u"
    | "Exists (pol_Document p) u" "Count (Remove u (pol_Document p)) = 0"
    | "Exists (pol_Document p) u" "Count (Remove u (pol_Document p)) \<noteq> 0" by blast
  then show ?thesis
  proof cases
    case 1
    with assms(2,3) show ?thesis by (simp add: remove_step_def remove_doc_code map_upd_triv)
  next
    case 2
    with assms(3) DeleteAndDetachPolicy_docs [OF assms(1)] show ?thesis
      by (fastforce simp: remove_step_def remove_doc_code)
  next
    case 3
    with assms(3) UpdatePolicy_docs [OF assms(1), of "p\<lparr>pol_Document := Remove u (pol_Document p)\<rparr>"] utf
    show ?thesis by (simp add: remove_step_def remove_doc_code)
  qed
qed

lemma remove_loop_docs:
  assumes L: "iam_laws aws c st"
  shows "for_each (remove_step aws c roles u) ps h = (Inr x, h') \<Longrightarrow>
    distinct (map pol_Name ps) \<Longrightarrow> \<forall>p\<in>set ps. docs st h (pol_Name p) = Some (pol_Document p) \<Longrightarrow>
    docs st h' = (\<lambda>n. if n \<in> pol_Name ` set ps then remove_spec u (docs st h) n else docs st h n)"
proof (induction ps arbitrary: h)
  case Nil
  then show ?case by simp
next
  case (Cons p ps)
  from Cons.prems(1) obtain y h1 where s: "remove_step aws c roles u p h = (Inr y, h1)"
    and rest: "for_each (remove_step aws c roles u) ps h1 = (Inr x, h')" by (auto elim!: onerr_InrE)
  have h1: "docs st h1 = (docs st h)(pol_Name p := remove_doc u (pol_Document p))"
    using remove_step_docs [OF L _ s] Cons.prems(3) by simp
  have notin: "pol_Name p \<notin> pol_Name ` set ps" and dist: "distinct (map pol_Name ps)"
    using Cons.prems(2) by auto
  have "\<forall>q\<in>set ps. docs st h1 (pol_Name q) = Some (pol_Document q)"
    using Cons.prems(3) notin by (auto simp: h1) (metis image_eqI)
  from Cons.IH [OF rest dist this] show ?case
    using notin Cons.prems(3) by (auto simp: h1 remove_spec_def fun_eq_iff)
qed

lemma RemoveUser_docs:
  assumes L: "iam_laws aws c st" and run: "RemoveUser aws c roles u h = (Inr x, h')"
  shows "docs st h' = remove_spec u (docs st h)"
proof -
  from run obtain ps h1 where l: "ListPolicies aws c h = (Inr ps, h1)"
    and rest: "for_each (remove_step aws c roles u) ps h1 = (Inr x, h')"
    by (auto simp: RemoveUser_def elim!: onerr_InrE)
  note listed = ListPolicies_ok [OF L l]
  have d1: "docs st h1 = map_of (entries ps)" using listed docs_cong by metis
  have all: "\<forall>p\<in>set ps. docs st h1 (pol_Name p) = Some (pol_Document p)"
    using listed(1) by (auto simp: d1 comp_def intro!: map_of_is_SomeI)
  have "docs st h n = None" if "n \<notin> pol_Name ` set ps" for n
    using that by (auto simp: listed(2) map_of_eq_None_iff image_image)
  then show ?thesis
    using remove_loop_docs [OF L rest listed(1) all] docs_cong [OF listed(3)]
    by (auto simp: remove_spec_def fun_eq_iff)
qed

section \<open>EnsureUser\<close>

definition config_utf8 :: "EnsureUserConfig \<Rightarrow> string \<Rightarrow> string \<Rightarrow> bool" where
  "config_utf8 cfg u r =
     (utf8 (euc_Region cfg) \<and> utf8 (euc_AccountID cfg) \<and> utf8 (euc_RolePrefix cfg) \<and> utf8 u \<and> utf8 r)"

lemma utf8_user_id: "utf8 u \<Longrightarrow> utf8 (usernameToUserId u)"
  unfolding usernameToUserId_def by (intro utf8_append) (simp_all add: byte_def)

lemma utf8_resource:
  "utf8 region \<Longrightarrow> utf8 acc \<Longrightarrow> utf8 pre \<Longrightarrow> utf8 r \<Longrightarrow> utf8 (formatStatementResource region acc pre r i)"
  unfolding formatStatementResource_def by (intro utf8_append) (simp_all add: byte_def)

lemma statement_utf8_new:
  assumes "config_utf8 cfg u r"
  shows "statement_utf8 (newStatementEntry (euc_Region cfg) (euc_AccountID cfg) (euc_RolePrefix cfg) r (usernameToUserId u))"
proof -
  have "utf8 (formatStatementResource (euc_Region cfg) (euc_AccountID cfg) (euc_RolePrefix cfg) r (usernameToUserId u))"
    using assms by (intro utf8_resource) (simp_all add: config_utf8_def)
  moreover have "utf8 (usernameToUserId u)" using assms by (intro utf8_user_id) (simp add: config_utf8_def)
  ultimately show ?thesis by (simp add: statement_utf8_def newStatementEntry_def byte_def)
qed

lemma doc_utf8_changed:
  assumes "config_utf8 cfg u r" and "doc_utf8 d"
  shows "doc_utf8 (update_doc cfg u r d)"
    and "doc_utf8 (Add (euc_Region cfg) (euc_AccountID cfg) (euc_RolePrefix cfg) u r d)"
    and "doc_utf8 (fst (Update (euc_Region cfg) (euc_AccountID cfg) (euc_RolePrefix cfg) u r d))"
  using assms statement_utf8_new [OF assms(1)]
  by (auto simp: update_doc_code Update_eq Add_def Let_def doc_utf8_def refresh_def list_all_iff)

definition with_doc :: "(PolicyDocument \<Rightarrow> PolicyDocument) \<Rightarrow> Policy \<Rightarrow> Policy" where
  "with_doc f p = p\<lparr>pol_Document := f (pol_Document p)\<rparr>"

lemma with_doc_simps [simp]:
  "pol_Name (with_doc f p) = pol_Name p" "pol_Document (with_doc f p) = f (pol_Document p)"
  by (simp_all add: with_doc_def)

lemma entries_with_doc: "map_of (entries (map (with_doc f) ps)) n = map_option f (map_of (entries ps) n)"
  by (induction ps) auto

lemma dom_entries: "dom (map_of (entries ps)) = pol_Name ` set ps"
  by (simp add: dom_map_of_conv_image_fst image_image)

lemma entries_None: "map_of (entries ps) n = None \<longleftrightarrow> n \<notin> pol_Name ` set ps"
  using dom_entries [of ps] by (auto simp: domIff)

lemma update_loop_errs: "update_policies_loop aws c (Some e) ps h \<noteq> (None, h')"
proof (induction ps arbitrary: e h)
  case Nil
  show ?case by simp
next
  case (Cons p ps)
  have "\<exists>e'. multierr_Append (Some e) x = Some e'" for x by (simp add: multierr_Append_def)
  with Cons show ?case
    by (cases "UpdatePolicy aws c p h") (auto split: sum.splits, metis)
qed

lemma update_loop_docs:
  assumes L: "iam_laws aws c st"
  shows "update_policies_loop aws c None ps h = (None, h') \<Longrightarrow> distinct (map pol_Name ps) \<Longrightarrow>
    \<forall>p\<in>set ps. doc_utf8 (pol_Document p) \<Longrightarrow> docs st h' = docs st h ++ map_of (entries ps)"
proof (induction ps arbitrary: h)
  case Nil
  then show ?case by simp
next
  case (Cons p ps)
  obtain r h1 where up: "UpdatePolicy aws c p h = (r, h1)" by (cases "UpdatePolicy aws c p h")
  with Cons.prems(1) obtain x where r: "r = Inr x"
    using update_loop_errs by (cases r) (auto simp: multierr_Append_def)
  have "docs st h1 = (docs st h)(pol_Name p \<mapsto> pol_Document p)"
    using UpdatePolicy_docs [OF L] up r Cons.prems(3) by simp
  moreover have "docs st h' = docs st h1 ++ map_of (entries ps)"
    using Cons up r by simp
  moreover have "map_of (entries ps) (pol_Name p) = None" using Cons.prems(2) by (simp add: entries_None)
  ultimately show ?case by (auto simp: map_add_def fun_eq_iff split: option.splits)
qed

lemma updatePolicies_docs:
  assumes "iam_laws aws c st" and "updatePolicies aws c ps h = (Inr x, h')"
    and "distinct (map pol_Name ps)" and "\<forall>p\<in>set ps. doc_utf8 (pol_Document p)"
    and "dom (docs st h) \<subseteq> pol_Name ` set ps"
  shows "docs st h' = map_of (entries ps)"
proof -
  have "docs st h' = docs st h ++ map_of (entries ps)"
    using assms(2) update_loop_docs [OF assms(1) _ assms(3,4)]
    by (auto simp: updatePolicies_def split: prod.splits)
  also have "\<dots> = map_of (entries ps)"
  proof
    fix n
    show "(docs st h ++ map_of (entries ps)) n = map_of (entries ps) n"
      using assms(5) entries_None [of ps n] by (cases "map_of (entries ps) n") (auto simp: map_add_def dom_def)
  qed
  finally show ?thesis .
qed

text \<open>One change of one document, after which all policies are written.\<close>

lemma write_all_docs:
  assumes L: "iam_laws aws c st" and x: "updatePolicies aws c (bs @ with_doc f p # ps) h = (Inr x, h')"
    and inv: "docs st h = map_of (entries (bs @ p # ps))" "distinct (map pol_Name (bs @ p # ps))"
      "\<forall>q\<in>set (bs @ p # ps). doc_utf8 (pol_Document q)" and f: "doc_utf8 (f (pol_Document p))"
  shows "docs st h' = map_of (entries (bs @ with_doc f p # ps))"
  using inv f by (intro updatePolicies_docs [OF L x]) (auto simp: inv(1) dom_entries)

lemma update_policy_loop:
  assumes L: "iam_laws aws c st" and cfg: "config_utf8 cfg u r"
  shows "ensure_update_loop aws c cfg u r bs ps handled h = (Inr res, h') \<Longrightarrow>
    docs st h = map_of (entries (bs @ ps)) \<Longrightarrow> distinct (map pol_Name (bs @ ps)) \<Longrightarrow>
    \<forall>p\<in>set (bs @ ps). doc_utf8 (pol_Document p) \<Longrightarrow>
    docs st h' = map_of (entries (bs @ map (with_doc (update_doc cfg u r)) ps)) \<and>
    (res \<longleftrightarrow> handled \<or> (\<exists>p\<in>set ps. Exists (pol_Document p) u))"
proof (induction ps arbitrary: bs handled h)
  case Nil
  then show ?case by simp
next
  case (Cons p ps)
  let ?f = "update_doc cfg u r"
  show ?case
  proof (cases "Exists (pol_Document p) u")
    case False
    then have "with_doc ?f p = p" by (simp add: with_doc_def update_doc_code)
    with False Cons.IH [of "bs @ [p]" handled h] Cons.prems show ?thesis by auto
  next
    case True
    obtain doc upd where du: "Update (euc_Region cfg) (euc_AccountID cfg) (euc_RolePrefix cfg) u r (pol_Document p) = (doc, upd)"
      by (cases "Update (euc_Region cfg) (euc_AccountID cfg) (euc_RolePrefix cfg) u r (pol_Document p)")
    then have p': "p\<lparr>pol_Document := doc\<rparr> = with_doc ?f p"
      using True by (simp add: with_doc_def update_doc_code)
    from Cons.prems(1) True du obtain x h1
      where w: "(if upd then updatePolicies aws c (bs @ with_doc ?f p # ps) else ok ()) h = (Inr x, h1)"
        and rest: "ensure_update_loop aws c cfg u r (bs @ [with_doc ?f p]) ps True h1 = (Inr res, h')"
      by (auto simp: p' Let_def cong: if_cong elim!: onerr_InrE)
    have utf: "doc_utf8 (?f (pol_Document p))" using doc_utf8_changed(1) [OF cfg] Cons.prems(4) by simp
    have "docs st h1 = map_of (entries (bs @ with_doc ?f p # ps))"
    proof (cases upd)
      case True
      with w have "updatePolicies aws c (bs @ with_doc ?f p # ps) h = (Inr x, h1)" by simp
      from write_all_docs [OF L this Cons.prems(2-4) utf] show ?thesis .
    next
      case False
      with du have "doc = pol_Document p" using Update_unchanged by simp
      with p' have "with_doc ?f p = p" by simp
      with w False Cons.prems(2) show ?thesis by auto
    qed
    with Cons.IH [OF rest] Cons.prems(3,4) utf True show ?thesis by auto
  qed
qed

lemma add_policy_loop:
  assumes L: "iam_laws aws c st" and cfg: "config_utf8 cfg u r"
  shows "ensure_add_loop aws c cfg u r bs ps handled h = (Inr res, h') \<Longrightarrow>
    docs st h = map_of (entries (bs @ ps)) \<Longrightarrow> distinct (map pol_Name (bs @ ps)) \<Longrightarrow>
    \<forall>p\<in>set (bs @ ps). doc_utf8 (pol_Document p) \<Longrightarrow>
    docs st h' = map_of (entries (bs @ map (with_doc (add_doc cfg u r)) ps)) \<and>
    (res \<longleftrightarrow> handled \<or> (\<exists>p\<in>set ps. Count (pol_Document p) < euc_MaxUsersPerPolicy cfg))"
proof (induction ps arbitrary: bs handled h)
  case Nil
  then show ?case by simp
next
  case (Cons p ps)
  let ?f = "add_doc cfg u r"
  show ?case
  proof (cases "Count (pol_Document p) < euc_MaxUsersPerPolicy cfg")
    case False
    then have "with_doc ?f p = p" by (simp add: with_doc_def add_doc_code)
    with False Cons.IH [of "bs @ [p]" handled h] Cons.prems show ?thesis by auto
  next
    case True
    then have p': "p\<lparr>pol_Document := Add (euc_Region cfg) (euc_AccountID cfg) (euc_RolePrefix cfg) u r (pol_Document p)\<rparr>
        = with_doc ?f p" by (simp add: with_doc_def add_doc_code)
    from Cons.prems(1) True obtain x h1 where w: "updatePolicies aws c (bs @ with_doc ?f p # ps) h = (Inr x, h1)"
        and rest: "ensure_add_loop aws c cfg u r (bs @ [with_doc ?f p]) ps True h1 = (Inr res, h')"
      by (auto simp: p' Let_def elim!: onerr_InrE)
    have utf: "doc_utf8 (?f (pol_Document p))"
      using doc_utf8_changed(2) [OF cfg] Cons.prems(4) by (simp add: add_doc_code)
    from write_all_docs [OF L w Cons.prems(2-4) utf]
    show ?thesis using Cons.IH [OF rest] Cons.prems(3,4) utf True by auto
  qed
qed

lemma CreatePolicy_docs:
  assumes L: "iam_laws aws c st" and "CreatePolicy aws c p h = (Inr q, h')"
    and "doc_utf8 (pol_Document p)"
  shows "docs st h' = (docs st h)(pol_Name p \<mapsto> pol_Document p)" and "st h (pol_Name p) = None"
proof -
  from assms(2) obtain j where j: "json_Marshal (pol_Document p) = Inr j"
    and ans: "aws_CreatePolicy aws h (iamPrefix c) j (pol_Name p) = Inr q"
    and h': "h' = h @ [CreatePolicyEv (iamPrefix c) j (pol_Name p) (Inr q)]"
    by (auto simp: CreatePolicy_def pure_result_def call_def Let_def elim!: onerr_InrE)
  have "st h' = (st h)(pol_Name p \<mapsto> (ap_DefaultVersionId q, j))" using L by (simp add: h' iam_laws_def)
  from docs_update [OF assms(3) j this] show "docs st h' = (docs st h)(pol_Name p \<mapsto> pol_Document p)" .
  show "st h (pol_Name p) = None" using L ans unfolding iam_laws_def by blast
qed

lemma doc_utf8_new_policy:
  assumes "config_utf8 cfg u r"
  shows "doc_utf8 (pol_Document (new_policy cfg n u r))"
proof -
  have "doc_utf8 \<lparr>pd_Version = ''2012-10-17'', pd_Statement = []\<rparr>" by (simp add: doc_utf8_def byte_def)
  from doc_utf8_changed(2) [OF assms this] show ?thesis by (simp add: new_policy_def)
qed

text \<open>The first half of \<open>EnsureUser\<close>: the documents after the loop over the policies.\<close>

definition ensured_docs ::
    "EnsureUserConfig \<Rightarrow> string \<Rightarrow> string \<Rightarrow> (string \<Rightarrow> PolicyDocument option) \<Rightarrow> string \<Rightarrow> PolicyDocument option" where
  "ensured_docs cfg u r M =
     (if \<exists>d\<in>ran M. u \<in> set (ListUsers d) then map_option (update_doc cfg u r) \<circ> M
      else map_option (add_doc cfg u r) \<circ> M)"

definition user_handled :: "EnsureUserConfig \<Rightarrow> string \<Rightarrow> (string \<Rightarrow> PolicyDocument option) \<Rightarrow> bool" where
  "user_handled cfg u M =
     (if \<exists>d\<in>ran M. u \<in> set (ListUsers d) then \<exists>d\<in>ran M. Exists d u
      else \<exists>d\<in>ran M. Count d < euc_MaxUsersPerPolicy cfg)"

lemma map_option_id: "(\<And>d. d \<in> ran M \<Longrightarrow> f d = d) \<Longrightarrow> map_option f \<circ> M = M"
  by (rule ext) (auto simp: ran_def option.map_ident_strong comp_def intro!: option.map_ident_strong)

lemma ensure_spec_eq:
  "ensure_spec cfg u r M =
     (if user_handled cfg u M then ensured_docs cfg u r M
      else (ensured_docs cfg u r M)(pol_Name (new_policy cfg (card (dom M)) u r) \<mapsto> pol_Document (new_policy cfg (card (dom M)) u r)))"
proof -
  have "map_option (update_doc cfg u r) \<circ> M = M" if "\<not> (\<exists>d\<in>ran M. Exists d u)"
    using that by (intro map_option_id) (auto simp: update_doc_code)
  moreover have "map_option (add_doc cfg u r) \<circ> M = M" if "\<not> (\<exists>d\<in>ran M. Count d < euc_MaxUsersPerPolicy cfg)"
    using that by (intro map_option_id) (auto simp: add_doc_code)
  ultimately show ?thesis unfolding ensure_spec_code ensured_docs_def user_handled_def Let_def by auto
qed

lemma ran_entries: "distinct (map pol_Name ps) \<Longrightarrow> ran (map_of (entries ps)) = pol_Document ` set ps"
  by (simp add: ran_distinct comp_def image_image)

lemma card_entries: "distinct (map pol_Name ps) \<Longrightarrow> card (dom (map_of (entries ps))) = length ps"
  by (metis dom_entries distinct_card length_map list.set_map)

lemma map_of_entries: "distinct (map pol_Name ps) \<Longrightarrow> p \<in> set ps \<Longrightarrow> map_of (entries ps) (pol_Name p) = Some (pol_Document p)"
  by (rule map_of_is_SomeI) (auto simp: comp_def)

lemma ensure_loops_docs:
  assumes L: "iam_laws aws c st" and cfg: "config_utf8 cfg u r"
    and run: "(if u \<in> set (concat (map (\<lambda>p. ListUsers (pol_Document p)) ps))
               then ensure_update_loop aws c cfg u r [] ps False
               else ensure_add_loop aws c cfg u r [] ps False) h = (Inr res, h')"
    and M: "docs st h = map_of (entries ps)" "distinct (map pol_Name ps)"
  shows "docs st h' = ensured_docs cfg u r (docs st h) \<and> res = user_handled cfg u (docs st h)"
proof -
  have utf: "\<forall>p\<in>set ([] @ ps). doc_utf8 (pol_Document p)"
    using M map_of_entries docs_utf8 [of st h] by auto
  have M': "docs st h = map_of (entries ([] @ ps))" "distinct (map pol_Name ([] @ ps))" using M by simp_all
  have ran: "ran (docs st h) = pol_Document ` set ps" using M ran_entries by simp
  have written: "map_of (entries ([] @ map (with_doc f) ps)) = map_option f \<circ> docs st h" for f
    using entries_with_doc [of f ps] by (simp add: M(1) fun_eq_iff del: map_map)
  have users: "u \<in> set (concat (map (\<lambda>p. ListUsers (pol_Document p)) ps))
      \<longleftrightarrow> (\<exists>d\<in>ran (docs st h). u \<in> set (ListUsers d))" by (auto simp: ran)
  show ?thesis
  proof (cases "u \<in> set (concat (map (\<lambda>p. ListUsers (pol_Document p)) ps))")
    case True
    with run have "ensure_update_loop aws c cfg u r [] ps False h = (Inr res, h')" by simp
    from update_policy_loop [OF L cfg this M' utf] True show ?thesis
      unfolding users written ensured_docs_def user_handled_def by (simp add: ran)
  next
    case False
    with run have "ensure_add_loop aws c cfg u r [] ps False h = (Inr res, h')" by simp
    from add_policy_loop [OF L cfg this M' utf] False show ?thesis
      unfolding users written ensured_docs_def user_handled_def by (simp add: ran)
  qed
qed

lemma EnsureUser_docs:
  assumes L: "iam_laws aws c st" and cfg: "config_utf8 cfg u r"
    and run: "EnsureUser aws c cfg u r h = (Inr x, h')"
  shows "docs st h' = ensure_spec cfg u r (docs st h)"
    and "docs st h (pol_Name (new_policy cfg (card (dom (docs st h))) u r)) = None
      \<or> user_handled cfg u (docs st h)"
proof -
  from run obtain ps h1 handled h2 h3 ips h4
    where l: "ListPolicies aws c h = (Inr ps, h1)"
      and loops: "(if u \<in> set (concat (map (\<lambda>p. ListUsers (pol_Document p)) ps))
               then ensure_update_loop aws c cfg u r [] ps False
               else ensure_add_loop aws c cfg u r [] ps False) h1 = (Inr handled, h2)"
      and create: "(if \<not> handled then
                 onerr (CreatePolicy aws c (new_policy cfg (length ps) u r)) id
                 (\<lambda>q. attachPolicyToAwsLoginRoles aws c cfg [q])
               else ok ()) h2 = (Inr (), h3)"
      and ips: "listIAMPolicies aws c h3 = (Inr ips, h4)"
      and att: "attachPolicyToAwsLoginRoles aws c cfg ips h4 = (Inr x, h')"
    unfolding EnsureUser_def Let_def by (elim onerr_InrE) auto
  note listed = ListPolicies_ok [OF L l]
  have h1: "docs st h1 = docs st h" using docs_cong [OF listed(3)] .
  have loop: "docs st h2 = ensured_docs cfg u r (docs st h)" "handled = user_handled cfg u (docs st h)"
    using ensure_loops_docs [OF L cfg loops _ listed(1)] listed(2) by (auto simp: h1)
  have "st h' = st h3"
    using keepsD [OF keeps_store(4) [OF L] att] keepsD [OF keeps_store(1) [OF L]] ips
    by (simp add: listIAMPolicies_def)
  then have h': "docs st h' = docs st h3" by (rule docs_cong)
  have n: "length ps = card (dom (docs st h))" using listed card_entries by simp
  have "docs st h' = ensure_spec cfg u r (docs st h) \<and>
    (docs st h (pol_Name (new_policy cfg (card (dom (docs st h))) u r)) = None
      \<or> user_handled cfg u (docs st h))"
  proof (cases handled)
    case True
    with create loop h' show ?thesis by (auto simp: ensure_spec_eq)
  next
    case False
    with create obtain q h5 where cr: "CreatePolicy aws c (new_policy cfg (length ps) u r) h2 = (Inr q, h5)"
      and at: "attachPolicyToAwsLoginRoles aws c cfg [q] h5 = (Inr (), h3)" by (auto elim!: onerr_InrE)
    have "docs st h3 = docs st h5" using docs_cong [OF keepsD [OF keeps_store(4) [OF L] at]] .
    moreover have "docs st h2 (pol_Name (new_policy cfg (length ps) u r)) = None"
      using CreatePolicy_docs(2) [OF L cr doc_utf8_new_policy [OF cfg]] by (simp add: docs_def)
    ultimately show ?thesis
      using CreatePolicy_docs(1) [OF L cr doc_utf8_new_policy [OF cfg]] loop False h'
      by (simp add: ensure_spec_eq n ensured_docs_def split: if_splits)
  qed
  then show "docs st h' = ensure_spec cfg u r (docs st h)"
    and "docs st h (pol_Name (new_policy cfg (card (dom (docs st h))) u r)) = None
      \<or> user_handled cfg u (docs st h)" by blast+
qed

section \<open>Attached policies\<close>

fun detaches :: "aws_event \<Rightarrow> bool" where
  "detaches (DetachRolePolicy arn role r) = True"
| "detaches (DeletePolicy arn r) = True"
| "detaches e = False"

text \<open>\<open>att h role\<close> are the names of the policies attached to a role.\<close>

definition attach_laws :: "aws \<Rightarrow> Client \<Rightarrow> (aws_history \<Rightarrow> string \<Rightarrow> string set) \<Rightarrow> bool" where
  "attach_laws aws c att \<longleftrightarrow>
     (\<forall>h e role. \<not> detaches e \<longrightarrow> att h role \<subseteq> att (h @ [e]) role) \<and>
     (\<forall>h n role. n \<in> att (h @ [AttachRolePolicy (policyARN c n) role None]) role) \<and>
     (\<forall>h role pages. aws_ListAttached aws h role (iamPrefix c) = Inr pages \<longrightarrow>
        set (concat pages) \<subseteq> att h role) \<and>
     (\<forall>h name role. aws_GetRole aws h name = Inr role \<longrightarrow> role = name)"

lemma attach_laws_grow: "attach_laws aws c att \<Longrightarrow> \<not> detaches e \<Longrightarrow> n \<in> att h role \<Longrightarrow> n \<in> att (h @ [e]) role"
  unfolding attach_laws_def by blast

lemma hasAttachedPolicy_iff [simp]: "hasAttachedPolicy ps n \<longleftrightarrow> n \<in> set ps"
  by (induction ps) auto

lemma AttachPolicy_grows:
  assumes "attach_laws aws c att"
  shows "preserves (\<lambda>h. n \<in> att h role) (AttachPolicy aws c role' p)"
    and "preserves (\<lambda>h. n \<in> att h role) (GetRole aws c name)"
  unfolding AttachPolicy_def GetRole_def ListManagedAttachedPolicies_def listAttachedPolicies_def
  by (intro preserves_intros attach_laws_grow [OF assms] | simp)+

lemma AttachPolicy_attached:
  assumes L: "attach_laws aws c att" and "AttachPolicy aws c role p h = (Inr x, h')"
    and "ap_Arn p = policyARN c (ap_PolicyName p)"
  shows "ap_PolicyName p \<in> att h' role"
proof -
  from assms(2) obtain pages h1 where pages: "aws_ListAttached aws h role (iamPrefix c) = Inr pages"
    and h1: "h1 = h @ [ListAttachedRolePoliciesPages role (iamPrefix c) (Inr pages)]"
    and cases: "ap_PolicyName p \<in> set (concat pages) \<and> h' = h1
      \<or> h' = h1 @ [AttachRolePolicy (policyARN c (ap_PolicyName p)) role None]"
    by (auto simp: AttachPolicy_def ListManagedAttachedPolicies_def listAttachedPolicies_def call_def
        call_unit_def Let_def assms(3) elim!: onerr_InrE split: if_splits)
  have "ap_PolicyName p \<in> att h1 role" if "ap_PolicyName p \<in> set (concat pages)"
  proof -
    have "set (concat pages) \<subseteq> att h role" using L pages unfolding attach_laws_def by blast
    with that show ?thesis using attach_laws_grow [OF L] by (auto simp: h1)
  qed
  moreover have "ap_PolicyName p \<in> att (h1 @ [AttachRolePolicy (policyARN c (ap_PolicyName p)) role None]) role"
    using L by (simp add: attach_laws_def)
  ultimately show ?thesis using cases by blast
qed

lemma attach_all:
  assumes L: "attach_laws aws c att" and run: "attachPolicyToAwsLoginRoles aws c cfg ps h = (Inr u, h')"
    and arn: "\<And>p. p \<in> set ps \<Longrightarrow> ap_Arn p = policyARN c (ap_PolicyName p)"
    and "role \<in> set (euc_AWSLoginRoles cfg)"
  shows "\<forall>p\<in>set ps. ap_PolicyName p \<in> att h' role"
proof (rule for_each_establishes [where I = "\<lambda>_. True", OF _ _ _ _ run [unfolded attachPolicyToAwsLoginRoles_def] assms(4)])
  fix role h h' u
  assume "onerr (GetRole aws c role) id (\<lambda>role. for_each (AttachPolicy aws c role) ps) h = (Inr u, h')"
  then obtain r h1 where g: "GetRole aws c role h = (Inr r, h1)"
    and f: "for_each (AttachPolicy aws c r) ps h1 = (Inr u, h')" by (auto elim!: onerr_InrE)
  from g have "aws_GetRole aws h role = Inr r"
    by (auto simp: GetRole_def call_def Let_def elim!: onerr_InrE)
  with L have "r = role" unfolding attach_laws_def by blast
  with f show "\<forall>p\<in>set ps. ap_PolicyName p \<in> att h' role"
    using for_each_establishes [where I = "\<lambda>_. True", OF _ _ _ _ f, of "\<lambda>p h. ap_PolicyName p \<in> att h role"]
      AttachPolicy_attached [OF L _ arn] AttachPolicy_grows [OF L] by (simp add: preserves_def)
next
  fix role role'
  have "preserves (\<lambda>h. n \<in> att h role) (onerr (GetRole aws c role') id (\<lambda>r. for_each (AttachPolicy aws c r) ps))" for n
    by (intro preserves_intros AttachPolicy_grows [OF L])
  then show "preserves (\<lambda>h. \<forall>p\<in>set ps. ap_PolicyName p \<in> att h role)
      (onerr (GetRole aws c role') id (\<lambda>r. for_each (AttachPolicy aws c r) ps))"
    unfolding preserves_def by blast
qed (simp_all add: preserves_def)

lemma EnsureUser_attached:
  assumes L: "iam_laws aws c st" "attach_laws aws c att" and run: "EnsureUser aws c cfg u r h = (Inr x, h')"
    and "n \<in> dom (st h')" and "role \<in> set (euc_AWSLoginRoles cfg)"
  shows "n \<in> att h' role"
proof -
  from run obtain h3 ips h4 where ips: "listPolicies aws c h3 = (Inr ips, h4)"
      and att: "attachPolicyToAwsLoginRoles aws c cfg ips h4 = (Inr x, h')"
    unfolding EnsureUser_def Let_def listIAMPolicies_def by (elim onerr_InrE) auto
  have "st h' = st h3"
    using keepsD [OF keeps_store(4) [OF L(1)] att] keepsD [OF keeps_store(1) [OF L(1)] ips] by simp
  with listPolicies_ok(2) [OF L(1) ips] assms(4) obtain p where "p \<in> set ips" "ap_PolicyName p = n"
    by (metis imageE)
  with attach_all [OF L(2) att listPolicies_ok(4) [OF L(1) ips] assms(5)] show ?thesis by blast
qed

section \<open>What the refined operations mean for the users\<close>

text \<open>The role resources a user can connect to by any policy.\<close>

definition access :: "(string \<Rightarrow> PolicyDocument option) \<Rightarrow> string \<Rightarrow> string set" where
  "access M u = (\<Union>d\<in>ran M. resources_of d u)"

lemma access_I: "M n = Some d \<Longrightarrow> x \<in> resources_of d u \<Longrightarrow> x \<in> access M u"
  by (auto simp: access_def ran_def)

lemma access_map_option:
  "(\<And>d. d \<in> ran M \<Longrightarrow> resources_of (f d) v = resources_of d v) \<Longrightarrow> access (map_option f \<circ> M) v = access M v"
  by (fastforce simp: access_def ran_def)

lemma resources_of_none: "\<not> Exists d u \<Longrightarrow> resources_of d u = {}"
  by (auto simp: resources_of_def Exists_iff)

lemma remove_doc_resources:
  "remove_doc u d = Some d' \<Longrightarrow> resources_of d' v = (if v = u then {} else resources_of d v)"
  using resources_of_none [of d u] resources_of_Remove [of u d v] unfolding remove_doc_code
  by (cases "Exists d u"; cases "Count (Remove u d) = 0") auto

lemma remove_doc_None: "remove_doc u d = None \<Longrightarrow> v \<noteq> u \<Longrightarrow> resources_of d v = {}"
  using resources_of_Remove [of u d v]
  by (auto simp: remove_doc_code Count_def resources_of_def split: if_splits)

lemma access_remove_spec: "access (remove_spec u M) v = (if v = u then {} else access M v)"
proof -
  have "access (remove_spec u M) u = {}"
    by (auto simp: access_def remove_spec_def ran_def bind_eq_Some_conv remove_doc_resources)
  moreover have "access (remove_spec u M) v = access M v" if "v \<noteq> u"
  proof
    show "access (remove_spec u M) v \<subseteq> access M v"
      using that by (fastforce simp: access_def remove_spec_def ran_def bind_eq_Some_conv remove_doc_resources)
    show "access M v \<subseteq> access (remove_spec u M) v"
    proof
      fix x
      assume "x \<in> access M v"
      then obtain n d where d: "M n = Some d" and x: "x \<in> resources_of d v" by (auto simp: access_def ran_def)
      with that remove_doc_None [of u d v] obtain d' where "remove_doc u d = Some d'" by (cases "remove_doc u d") auto
      with d x that show "x \<in> access (remove_spec u M) v"
        by (intro access_I [of _ n d']) (auto simp: remove_spec_def remove_doc_resources)
    qed
  qed
  ultimately show ?thesis by simp
qed

lemma access_upd: "M n = None \<Longrightarrow> access (M(n \<mapsto> d)) v = access M v \<union> resources_of d v"
  by (auto simp: access_def ran_def) (metis option.discI)

lemma new_policy_resources:
  "resources_of (pol_Document (new_policy cfg k u r)) v = (if v = u then {role_resource cfg r} else {})"
  by (simp add: new_policy_def resources_of_Add role_resource_code [of cfg r u]) (simp add: resources_of_def)

lemma access_ensured_docs:
  "v \<noteq> u \<Longrightarrow> access (ensured_docs cfg u r M) v = access M v"
proof -
  assume "v \<noteq> u"
  then have "resources_of (update_doc cfg u r d) v = resources_of d v"
    and "resources_of (add_doc cfg u r d) v = resources_of d v" for d
    by (simp_all add: add_doc_code update_doc_code resources_of_Add resources_of_Update_other)
  then show ?thesis by (simp add: ensured_docs_def access_map_option)
qed

lemma user_handled_access:
  assumes "user_handled cfg u M"
  shows "role_resource cfg r \<in> access (ensured_docs cfg u r M) u"
proof (cases "\<exists>d\<in>ran M. u \<in> set (ListUsers d)")
  case True
  with assms obtain n d where "M n = Some d" and "Exists d u" by (auto simp: user_handled_def ran_def)
  with True show ?thesis
    by (intro access_I [of _ n "update_doc cfg u r d"])
      (auto simp: ensured_docs_def update_doc_code role_resource_code [of cfg r u] resources_of_Update_self)
next
  case False
  with assms have "\<exists>d\<in>ran M. Count d < euc_MaxUsersPerPolicy cfg" by (simp add: user_handled_def)
  then obtain n d where "M n = Some d" and "Count d < euc_MaxUsersPerPolicy cfg"
    by (auto simp: ran_def)
  with False show ?thesis
    by (intro access_I [of _ n "add_doc cfg u r d"])
      (auto simp: ensured_docs_def add_doc_code role_resource_code [of cfg r u] resources_of_Add)
qed

lemma access_ensure_spec:
  assumes "M (pol_Name (new_policy cfg (card (dom M)) u r)) = None \<or> user_handled cfg u M"
  shows "role_resource cfg r \<in> access (ensure_spec cfg u r M) u"
    and "v \<noteq> u \<Longrightarrow> access (ensure_spec cfg u r M) v = access M v"
proof -
  let ?p = "new_policy cfg (card (dom M)) u r"
  have "access ((ensured_docs cfg u r M)(pol_Name ?p \<mapsto> pol_Document ?p)) v =
      access (ensured_docs cfg u r M) v \<union> resources_of (pol_Document ?p) v" if "\<not> user_handled cfg u M" for v
    using assms that by (intro access_upd) (simp add: ensured_docs_def)
  then show "role_resource cfg r \<in> access (ensure_spec cfg u r M) u"
    and "v \<noteq> u \<Longrightarrow> access (ensure_spec cfg u r M) v = access M v"
    unfolding ensure_spec_eq
    by (simp_all add: user_handled_access access_ensured_docs new_policy_resources)
qed

end
