(* ===== verification/Iam_Server.thy ===== *)
theory Iam_Server
  imports Iam_Laws
begin

text \<open>
  An executable IAM service that satisfies the laws of \<open>Iam_Laws\<close>, so that the operations can
  be evaluated on it and the hypotheses of the theorems are seen to hold, and the properties of
  \<open>pkg/iam\<close>.
\<close>

section \<open>Escaping\<close>

lemma unhex_hex_digit: "n < 16 \<Longrightarrow> unhex (hex_digit n) = Some (int n)"
proof -
  have "\<forall>n\<in>set [0..<16]. unhex (hex_digit n) = Some (int n)" by code_simp
  then show "n < 16 \<Longrightarrow> unhex (hex_digit n) = Some (int n)" by simp
qed

lemma QueryUnescape_QueryEscape: "QueryUnescape (QueryEscape s) = Inr s"
proof (induction s)
  case Nil
  show ?case by simp
next
  case (Cons c s)
  have hex: "unhex (hex_digit (of_char c div 16)) = Some (int (of_char c div 16))"
    "unhex (hex_digit (of_char c mod 16)) = Some (int (of_char c mod 16))"
    by (intro unhex_hex_digit; simp add: div_less_iff_less_mult)+
  have "16 * int (of_char c div 16) + int (of_char c mod 16) = of_char c"
    by (metis of_nat_of_char mult_div_mod_eq of_nat_add of_nat_mult of_nat_numeral)
  then have c: "char_of (16 * int (of_char c div 16) + int (of_char c mod 16)) = c" by simp
  have "unreserved c \<Longrightarrow> c \<noteq> CHR ''%'' \<and> c \<noteq> CHR ''+''" by (auto simp: unreserved_def)
  then consider "c = CHR '' ''" | "c \<noteq> CHR '' ''" "unreserved c" "c \<noteq> CHR ''%''" "c \<noteq> CHR ''+''"
    | "c \<noteq> CHR '' ''" "\<not> unreserved c" by blast
  then show ?case by cases (simp_all add: Cons.IH hex c)
qed

section \<open>The service\<close>

type_synonym policy_table = "(string \<times> string \<times> string) list"

definition arn_name :: "Client \<Rightarrow> string \<Rightarrow> string" where
  "arn_name c arn = drop (length (policyARN c [])) arn"

fun table_step :: "Client \<Rightarrow> policy_table \<Rightarrow> aws_event \<Rightarrow> policy_table" where
  "table_step c t (CreatePolicyVersion arn d None) = AList.update (arn_name c arn) (''v2'', d) t"
| "table_step c t (CreatePolicyEv path d n (Inr p)) = AList.update n (ap_DefaultVersionId p, d) t"
| "table_step c t (DeletePolicy arn None) = AList.delete (arn_name c arn) t"
| "table_step c t e = t"

definition table :: "Client \<Rightarrow> policy_table \<Rightarrow> aws_history \<Rightarrow> policy_table" where
  "table c init h = foldl (table_step c) init h"

fun attached_step :: "Client \<Rightarrow> (string \<times> string) list \<Rightarrow> aws_event \<Rightarrow> (string \<times> string) list" where
  "attached_step c t (AttachRolePolicy arn role None) = (role, arn_name c arn) # t"
| "attached_step c t (DetachRolePolicy arn role None) = filter (\<lambda>x. x \<noteq> (role, arn_name c arn)) t"
| "attached_step c t e = t"

definition attached :: "Client \<Rightarrow> aws_history \<Rightarrow> (string \<times> string) list" where
  "attached c h = foldl (attached_step c) [] h"

definition attached_names :: "Client \<Rightarrow> aws_history \<Rightarrow> string \<Rightarrow> string list" where
  "attached_names c h role = map snd (filter (\<lambda>x. fst x = role) (attached c h))"

definition ref_aws :: "Client \<Rightarrow> policy_table \<Rightarrow> aws" where
  "ref_aws c init =
     \<lparr>aws_ListPoliciesPages = (\<lambda>h path. Inr [map (\<lambda>(n, v, d). \<lparr>ap_PolicyName = n, ap_DefaultVersionId = v, ap_Arn = policyARN c n\<rparr>) (table c init h)]),
      aws_GetPolicyVersion = (\<lambda>h v arn. case map_of (table c init h) (arn_name c arn) of
          None \<Rightarrow> Inl (AwsError ''NoSuchEntity'' []) | Some (_, d) \<Rightarrow> Inr (QueryEscape d)),
      aws_CreatePolicyVersion = (\<lambda>h arn d. None),
      aws_ListPolicyVersions = (\<lambda>h arn. Inr []),
      aws_DeletePolicyVersion = (\<lambda>h arn v. None),
      aws_CreatePolicy = (\<lambda>h path d n. if map_of (table c init h) n = None
          then Inr \<lparr>ap_PolicyName = n, ap_DefaultVersionId = ''v1'', ap_Arn = policyARN c n\<rparr>
          else Inl (AwsError ''EntityAlreadyExists'' [])),
      aws_ListAttached = (\<lambda>h role path. Inr [attached_names c h role]),
      aws_AttachRolePolicy = (\<lambda>h arn role. None),
      aws_GetRole = (\<lambda>h name. Inr name),
      aws_DetachRolePolicy = (\<lambda>h arn role. None),
      aws_DeletePolicy = (\<lambda>h arn. None)\<rparr>"

definition ref_store :: "Client \<Rightarrow> policy_table \<Rightarrow> policy_store" where
  "ref_store c init h = map_of (table c init h)"

lemma arn_name_policyARN [simp]: "arn_name c (policyARN c n) = n"
proof -
  have "policyARN c n = policyARN c [] @ n" by (simp add: policyARN_def)
  then show ?thesis unfolding arn_name_def by (metis append_eq_conv_conj)
qed

lemma table_snoc [simp]: "table c init (h @ [e]) = table_step c (table c init h) e"
  by (simp add: table_def)

lemma table_neutral: "store_neutral e \<Longrightarrow> table_step c t e = t"
  by (cases "(c, t, e)" rule: table_step.cases) auto

lemma distinct_table: "distinct (map fst init) \<Longrightarrow> distinct (map fst (table c init h))"
  unfolding table_def
proof (induction h rule: rev_induct)
  case Nil
  then show ?case by simp
next
  case (snoc e h)
  let ?t = "foldl (table_step c) init h"
  have "distinct (map fst (table_step c ?t e))"
    using snoc by (cases "(c, ?t, e)" rule: table_step.cases) (auto simp: distinct_update distinct_delete)
  then show ?case by simp
qed

lemma ref_iam_laws:
  assumes "distinct (map fst init)"
  shows "iam_laws (ref_aws c init) c (ref_store c init)"
  unfolding iam_laws_def
proof (intro conjI allI impI)
  fix h
  note dist = distinct_table [OF assms, of c h]
  show "store_neutral e \<Longrightarrow> ref_store c init (h @ [e]) = ref_store c init h" for e
    by (simp add: ref_store_def table_neutral)
  show "\<exists>v. ref_store c init (h @ [CreatePolicyVersion (policyARN c n) d None]) = (ref_store c init h)(n \<mapsto> (v, d))" for n d
    by (auto simp: ref_store_def update_conv')
  show "ref_store c init (h @ [CreatePolicyEv (iamPrefix c) d n (Inr p)]) = (ref_store c init h)(n \<mapsto> (ap_DefaultVersionId p, d))" for n d p
    by (simp add: ref_store_def update_conv')
  show "ref_store c init (h @ [DeletePolicy (policyARN c n) None]) = (ref_store c init h)(n := None)" for n
    by (simp add: ref_store_def delete_conv')
  show "QueryUnescape s = Inr d"
    if "ref_store c init h n = Some (v, d)" "aws_GetPolicyVersion (ref_aws c init) h v (policyARN c n) = Inr s" for n v d s
    using that by (auto simp: ref_store_def ref_aws_def QueryUnescape_QueryEscape)
  show "ref_store c init h n = None" if "aws_CreatePolicy (ref_aws c init) h (iamPrefix c) d n = Inr p" for n d p
    using that by (simp add: ref_store_def ref_aws_def split: if_splits)
  fix pages
  assume "aws_ListPoliciesPages (ref_aws c init) h (iamPrefix c) = Inr pages"
  then have pages: "concat pages = map (\<lambda>(n, v, d). \<lparr>ap_PolicyName = n, ap_DefaultVersionId = v, ap_Arn = policyARN c n\<rparr>) (table c init h)"
    by (auto simp: ref_aws_def)
  have names: "map ap_PolicyName (concat pages) = map fst (table c init h)" by (auto simp: pages)
  show "distinct (map ap_PolicyName (concat pages))" using dist by (simp only: names)
  show "ap_PolicyName ` set (concat pages) = dom (ref_store c init h)"
    by (metis names list.set_map dom_map_of_conv_image_fst ref_store_def)
  show "\<forall>p\<in>set (concat pages). ap_Arn p = policyARN c (ap_PolicyName p) \<and>
      (\<exists>d. ref_store c init h (ap_PolicyName p) = Some (ap_DefaultVersionId p, d))"
    using dist by (auto simp: pages ref_store_def)
qed

lemma ref_attach_laws: "attach_laws (ref_aws c init) c (\<lambda>h role. set (attached_names c h role))"
proof -
  have snoc: "attached c (h @ [e]) = attached_step c (attached c h) e" for h e
    by (simp add: attached_def)
  have "\<not> detaches e \<Longrightarrow> set t \<subseteq> set (attached_step c t e)" for t e
    by (cases "(c, t, e)" rule: attached_step.cases) auto
  then show ?thesis
    unfolding attach_laws_def by (fastforce simp: attached_names_def snoc ref_aws_def)
qed

section \<open>Properties\<close>

text \<open>C24. Refinement: on the documents by policy name, a successful \<open>RemoveUser\<close> is exactly the
  abstract removal. Every policy with a statement for the user loses those statements, or is
  deleted when nothing is left; every other policy keeps its document.\<close>

theorem RemoveUser_refines:
  assumes "iam_laws aws c st" and "RemoveUser aws c roles u h = (Inr x, h')"
  shows "docs st h' = remove_spec u (docs st h)"
  using assms by (rule RemoveUser_docs)

text \<open>After a successful \<open>RemoveUser\<close> no policy lets the user connect to anything, and what
  every other user may connect to is what it was.\<close>

theorem RemoveUser_revokes:
  assumes "iam_laws aws c st" and "RemoveUser aws c roles u h = (Inr x, h')"
  shows "access (docs st h') v = (if v = u then {} else access (docs st h) v)"
  by (simp only: RemoveUser_docs [OF assms] access_remove_spec)

text \<open>C26. Refinement: on the documents by policy name, a successful \<open>EnsureUser\<close> is exactly the
  abstract operation. If a policy names the user, the user's statements that lack the role are
  replaced, in every policy; otherwise the user is added to every policy that has room; when
  neither changes anything a new policy for the user alone is created.\<close>

theorem EnsureUser_refines:
  assumes "iam_laws aws c st" and "config_utf8 cfg u r"
    and "EnsureUser aws c cfg u r h = (Inr x, h')"
  shows "docs st h' = ensure_spec cfg u r (docs st h)"
  using assms by (rule EnsureUser_docs(1))

text \<open>After a successful \<open>EnsureUser\<close> some policy lets the user connect to the role, and what
  every other user may connect to is what it was.\<close>

theorem EnsureUser_grants:
  assumes "iam_laws aws c st" and "config_utf8 cfg u r"
    and "EnsureUser aws c cfg u r h = (Inr x, h')"
  shows "role_resource cfg r \<in> access (docs st h') u \<and>
    (\<forall>v. v \<noteq> u \<longrightarrow> access (docs st h') v = access (docs st h) v)"
  using access_ensure_spec [OF EnsureUser_docs(2) [OF assms]] unfolding EnsureUser_docs(1) [OF assms] by blast

text \<open>C27. After a successful \<open>EnsureUser\<close> every policy under the controller's path is attached to
  every login role of the configuration, also the policies and the roles that were there before.\<close>

theorem EnsureUser_attaches:
  assumes "iam_laws aws c st" and "attach_laws aws c att" and "EnsureUser aws c cfg u r h = (Inr x, h')"
    and "n \<in> dom (st h')" and "role \<in> set (euc_AWSLoginRoles cfg)"
  shows "n \<in> att h' role"
  using assms by (rule EnsureUser_attached)

text \<open>C28. \<open>EnsureUser\<close> never fills a policy beyond \<open>MaxUsersPerPolicy\<close>: a policy afterwards has at
  most that many statements, or as many as it had before, or it is a new policy with one.\<close>

theorem EnsureUser_policy_bound:
  assumes "iam_laws aws c st" and "config_utf8 cfg u r"
    and "EnsureUser aws c cfg u r h = (Inr x, h')" and "docs st h' n = Some d'"
  shows "Count d' \<le> euc_MaxUsersPerPolicy cfg
    \<or> (\<exists>d. docs st h n = Some d \<and> Count d' = Count d)
    \<or> (docs st h n = None \<and> Count d' = 1)"
proof -
  let ?M = "docs st h"
  have new: "Count (pol_Document (new_policy cfg k u r)) = 1" for k
    by (simp add: new_policy_def Count_Add) (simp add: Count_def)
  have loop: "Count d' \<le> euc_MaxUsersPerPolicy cfg \<or> (\<exists>d. ?M n = Some d \<and> Count d' = Count d)"
    if "ensured_docs cfg u r ?M n = Some d'"
    using that by (auto simp: ensured_docs_def update_doc_code add_doc_code Count_Update Count_Add split: if_splits)
  show ?thesis
    using assms(4) EnsureUser_docs(2) [OF assms(1-3)] loop new
    unfolding EnsureUser_docs(1) [OF assms(1-3)] ensure_spec_eq
    by (auto split: if_splits)
qed

section \<open>Witnesses\<close>

definition demo_client :: Client where
  "demo_client = NewClient ''0'' ''/p/''"

definition demo_config :: EnsureUserConfig where
  "demo_config = \<lparr>euc_Region = ''r'', euc_AccountID = ''0'', euc_PolicyBaseName = ''b'',
     euc_MaxUsersPerPolicy = 1, euc_RolePrefix = ''d_'', euc_AWSLoginRoles = [''login'']\<rparr>"

definition demo_aws :: aws where
  "demo_aws = ref_aws demo_client []"

definition demo_ensured :: aws_history where
  "demo_ensured = snd (EnsureUser demo_aws demo_client demo_config ''u'' ''role'' [])"

definition demo_removed :: aws_history where
  "demo_removed = snd (RemoveUser demo_aws demo_client [''login''] ''u'' demo_ensured)"

lemma demo_iam_laws:
  "iam_laws demo_aws demo_client (ref_store demo_client [])"
  "attach_laws demo_aws demo_client (\<lambda>h role. set (attached_names demo_client h role))"
  unfolding demo_aws_def by (rule ref_iam_laws, simp, rule ref_attach_laws)

lemma demo_runs:
  "fst (EnsureUser demo_aws demo_client demo_config ''u'' ''role'' []) = Inr ()"
  "fst (RemoveUser demo_aws demo_client [''login''] ''u'' demo_ensured) = Inr ()"
  "map fst (table demo_client [] demo_ensured) = [''b_0'']"
  "config_utf8 demo_config ''u'' ''role''"
  by code_simp+

lemma demo_steps:
  "EnsureUser demo_aws demo_client demo_config ''u'' ''role'' [] = (Inr (), demo_ensured)"
  "RemoveUser demo_aws demo_client [''login''] ''u'' demo_ensured = (Inr (), demo_removed)"
  using demo_runs(1,2) unfolding demo_removed_def demo_ensured_def by (metis prod.collapse)+

theorem RemoveUser_refines_witness:
  "docs (ref_store demo_client []) demo_removed = remove_spec ''u'' (docs (ref_store demo_client []) demo_ensured)"
  by (rule RemoveUser_refines [OF demo_iam_laws(1) demo_steps(2)])

theorem RemoveUser_revokes_witness:
  "access (docs (ref_store demo_client []) demo_removed) ''u'' = {}"
  using RemoveUser_revokes [OF demo_iam_laws(1) demo_steps(2), of "''u''"] by (simp only: if_True refl)

theorem EnsureUser_refines_witness:
  "docs (ref_store demo_client []) demo_ensured = ensure_spec demo_config ''u'' ''role'' (docs (ref_store demo_client []) [])"
  by (rule EnsureUser_refines [OF demo_iam_laws(1) demo_runs(4) demo_steps(1)])

theorem EnsureUser_grants_witness:
  "role_resource demo_config ''role'' \<in> access (docs (ref_store demo_client []) demo_ensured) ''u''"
  using EnsureUser_grants [OF demo_iam_laws(1) demo_runs(4) demo_steps(1)] by (rule conjunct1)

theorem EnsureUser_attaches_witness:
  "''b_0'' \<in> set (attached_names demo_client demo_ensured ''login'')"
proof (rule EnsureUser_attaches [OF demo_iam_laws demo_steps(1)])
  have "''b_0'' \<in> fst ` set (table demo_client [] demo_ensured)"
    using demo_runs(3) by (metis list.set_intros(1) list.set_map)
  then show "''b_0'' \<in> dom (ref_store demo_client [] demo_ensured)"
    by (simp only: ref_store_def dom_map_of_conv_image_fst)
  show "''login'' \<in> set (euc_AWSLoginRoles demo_config)" by (simp add: demo_config_def)
qed

theorem EnsureUser_policy_bound_witness:
  "\<exists>d'. docs (ref_store demo_client []) demo_ensured ''b_0'' = Some d' \<and>
     (Count d' \<le> 1 \<or> (\<exists>d. docs (ref_store demo_client []) [] ''b_0'' = Some d \<and> Count d' = Count d)
      \<or> (docs (ref_store demo_client []) [] ''b_0'' = None \<and> Count d' = 1))"
proof -
  have "docs (ref_store demo_client []) demo_ensured ''b_0'' \<noteq> None" by code_simp
  then obtain d' where d': "docs (ref_store demo_client []) demo_ensured ''b_0'' = Some d'" by blast
  have "euc_MaxUsersPerPolicy demo_config = 1" by (simp add: demo_config_def)
  with EnsureUser_policy_bound [OF demo_iam_laws(1) demo_runs(4) demo_steps(1) d'] d' show ?thesis by metis
qed

end
