(* ===== verification/Iam_Random.thy ===== *)
theory Iam_Random
  imports Go_Prelude
begin

text \<open>
  \<open>pkg/iam/random.go\<close>: random names, which only tests ask for. The source of random numbers is an
  argument: the number that the call for an index returns, below the bound it is given. The
  allocation panics for a negative length (\<open>None\<close>), and so does an index out of range.
\<close>

definition letterRunes :: string where
  "letterRunes = ''abcdefghijklmnopqrstuvwxyzABCDEFGHIJKLMNOPQRSTUVWXYZ''"

fun random_loop :: "(nat \<Rightarrow> nat \<Rightarrow> nat) \<Rightarrow> nat list \<Rightarrow> string \<Rightarrow> string option" where
  "random_loop intn [] b = Some b"
| "random_loop intn (i # is') b =
     (let r = intn i (length letterRunes)
      in if r < length letterRunes then random_loop intn is' (b[i := letterRunes ! r]) else None)"

definition GenerateRandomString :: "(nat \<Rightarrow> nat \<Rightarrow> nat) \<Rightarrow> int \<Rightarrow> string option" where
  "GenerateRandomString intn n =
     (if n < 0 then None else random_loop intn [0..<nat n] (replicate (nat n) CHR 0x00))"

lemma length_letterRunes: "length letterRunes = 52"
  by code_simp

lemma random_loop_fill:
  assumes "\<forall>i k. 0 < k \<longrightarrow> intn i k < k" and "k \<le> length b"
  shows "random_loop intn [k..<length b] b = Some (take k b @ map (\<lambda>i. letterRunes ! intn i 52) [k..<length b])"
  using assms(2)
proof (induction "length b - k" arbitrary: k b)
  case 0
  then show ?case by simp
next
  case (Suc n)
  then have k: "k < length b" by simp
  let ?c = "letterRunes ! intn k 52"
  have "intn k 52 < 52" using assms(1) by simp
  moreover have "random_loop intn [Suc k..<length (b[k := ?c])] (b[k := ?c])
      = Some (take (Suc k) (b[k := ?c]) @ map (\<lambda>i. letterRunes ! intn i 52) [Suc k..<length (b[k := ?c])])"
    using Suc k by (intro Suc.hyps(1)) auto
  ultimately show ?case
    using k by (simp add: upt_conv_Cons [OF k] Let_def length_letterRunes take_Suc_conv_app_nth)
qed

text \<open>For a length that is not negative the function returns as many letters as asked for.\<close>

lemma GenerateRandomString_letters:
  assumes "\<forall>i k. 0 < k \<longrightarrow> intn i k < k" and "0 \<le> n"
  shows "\<exists>s. GenerateRandomString intn n = Some s \<and> int (length s) = n \<and> set s \<subseteq> set letterRunes"
proof -
  have "intn i 52 < length letterRunes" for i using assms(1) by (simp add: length_letterRunes)
  then show ?thesis
    using random_loop_fill [OF assms(1), of 0 "replicate (nat n) CHR 0x00"] assms(2)
    by (auto simp: GenerateRandomString_def)
qed

lemma GenerateRandomString_abc: "GenerateRandomString (\<lambda>i k. i) 3 = Some ''abc''"
  by code_simp

end
