(* ===== verification/Daemon.thy ===== *)
theory Daemon
  imports Go_Prelude
begin

text \<open>
  Package \<open>pkg/daemon\<close>: a loop that calls \<open>Sync\<close> at an interval and on request.

  The loop runs beside the Go runtime's timer and beside other goroutines, so it is a step
  relation. The state holds the program counter of \<open>Loop\<close>, the timer and the number of values
  in the three channels. The timer is that of Go 1.22, the version the module requires: when it
  expires (\<open>Fire\<close>) it is no longer active, and its value reaches the channel \<open>C\<close> of capacity 1 a
  little later (\<open>Deliver\<close>), or is dropped when the channel is full; \<open>Stop\<close> reports whether the
  timer was active. The counters \<open>accepted\<close> and \<open>started\<close> are ghost state: requests put
  into the buffer and calls of \<open>Sync\<close>. How long \<open>Sync\<close> takes, when the timer expires, which
  ready case \<open>select\<close> takes and when another goroutine asks or closes the stop channel is
  not determined.
\<close>

section \<open>Configuration\<close>

record 'f Configuration =
  conf_SyncInterval :: int
  conf_Sync :: "'f option"

definition setDefaults :: "'f \<Rightarrow> 'f Configuration \<Rightarrow> 'f Configuration" where
  "setDefaults noop c =
     (let c1 = (if conf_SyncInterval c = 0 then c\<lparr>conf_SyncInterval := 5 * 60 * 1000000000\<rparr> else c)
      in if conf_Sync c1 = None then c1\<lparr>conf_Sync := Some noop\<rparr> else c1)"

section \<open>The daemon's state\<close>

text \<open>The places of \<open>Loop\<close>; the flag of the timer places tells the branch for the closed stop
  channel from the branch for a sync.\<close>

datatype place =
    NotStarted
  | AtSelect
  | AtTimerStop bool
  | AtDrain bool
  | InSync
  | AtReset
  | Returned

record Daemon =
  pc :: place
  armed :: bool
  in_flight :: nat
  tick :: nat
  syncSoon :: nat
  stop_closed :: bool
  accepted :: nat
  started :: nat

text \<open>\<open>New\<close>: a buffer of capacity 1, nothing in it. The configuration is not part of the
  running state.\<close>

definition new_daemon :: Daemon where
  "new_daemon = \<lparr>pc = NotStarted, armed = False, in_flight = 0, tick = 0, syncSoon = 0, stop_closed = False,
     accepted = 0, started = 0\<rparr>"

definition New :: "'f \<Rightarrow> 'f Configuration \<Rightarrow> 'f Configuration \<times> Daemon" where
  "New noop c = (setDefaults noop c, new_daemon)"

definition syncSoon_cap :: nat where
  "syncSoon_cap = 1"

text \<open>A send that is skipped when the buffer is full.\<close>

definition askForSync :: "Daemon \<Rightarrow> Daemon" where
  "askForSync d =
     (if syncSoon d < syncSoon_cap
      then d\<lparr>syncSoon := syncSoon d + 1, accepted := accepted d + 1\<rparr>
      else d)"

text \<open>The place after the timer was stopped: \<open>return\<close>, or the call of \<open>Sync\<close>.\<close>

definition after_timer :: "bool \<Rightarrow> Daemon \<Rightarrow> Daemon" where
  "after_timer exit d =
     (if exit then d\<lparr>pc := Returned\<rparr> else d\<lparr>pc := InSync, started := started d + 1\<rparr>)"

definition Loop_start :: "Daemon \<Rightarrow> Daemon" where
  "Loop_start d = (askForSync (d\<lparr>armed := True\<rparr>))\<lparr>pc := AtSelect\<rparr>"

section \<open>The steps\<close>

datatype label =
    Start | TakeStop | TakeSoon | TakeTick | TimerStop | Drain | SyncDone | Reset
  | Fire | Deliver | Ask | CloseStop

text \<open>The steps of \<open>Loop\<close>, those of the runtime's timer (\<open>Fire\<close>, \<open>Deliver\<close>) and those of other
  goroutines (\<open>Ask\<close>, \<open>CloseStop\<close>).\<close>

inductive daemon_step :: "Daemon \<Rightarrow> label \<Rightarrow> Daemon \<Rightarrow> bool" where
  start: "pc d = NotStarted \<Longrightarrow> daemon_step d Start (Loop_start d)"
| take_stop: "pc d = AtSelect \<Longrightarrow> stop_closed d \<Longrightarrow> daemon_step d TakeStop (d\<lparr>pc := AtTimerStop True\<rparr>)"
| take_soon: "pc d = AtSelect \<Longrightarrow> 0 < syncSoon d \<Longrightarrow>
    daemon_step d TakeSoon (d\<lparr>syncSoon := syncSoon d - 1, pc := AtTimerStop False\<rparr>)"
| take_tick: "pc d = AtSelect \<Longrightarrow> 0 < tick d \<Longrightarrow>
    daemon_step d TakeTick (askForSync (d\<lparr>tick := tick d - 1\<rparr>))"
| timer_stop: "pc d = AtTimerStop e \<Longrightarrow>
    daemon_step d TimerStop (if armed d then after_timer e (d\<lparr>armed := False\<rparr>) else d\<lparr>pc := AtDrain e\<rparr>)"
| drain: "pc d = AtDrain e \<Longrightarrow> daemon_step d Drain (after_timer e (d\<lparr>tick := tick d - 1\<rparr>))"
| sync_done: "pc d = InSync \<Longrightarrow> daemon_step d SyncDone (d\<lparr>pc := AtReset\<rparr>)"
| reset: "pc d = AtReset \<Longrightarrow> daemon_step d Reset (d\<lparr>armed := True, pc := AtSelect\<rparr>)"
| fire: "armed d \<Longrightarrow> daemon_step d Fire (d\<lparr>armed := False, in_flight := in_flight d + 1\<rparr>)"
| deliver: "0 < in_flight d \<Longrightarrow>
    daemon_step d Deliver (d\<lparr>in_flight := in_flight d - 1, tick := (if tick d < 1 then tick d + 1 else tick d)\<rparr>)"
| ask: "daemon_step d Ask (askForSync d)"
| close_stop: "\<not> stop_closed d \<Longrightarrow> daemon_step d CloseStop (d\<lparr>stop_closed := True\<rparr>)"

inductive_simps daemon_step_iff: "daemon_step d l d'"

inductive reachable :: "Daemon \<Rightarrow> bool" where
  reach_new: "reachable new_daemon"
| reach_step: "reachable d \<Longrightarrow> daemon_step d l d' \<Longrightarrow> reachable d'"

section \<open>The invariant\<close>

definition bounded :: "Daemon \<Rightarrow> bool" where
  "bounded d \<longleftrightarrow> syncSoon d \<le> 1 \<and> tick d \<le> 1"

text \<open>Requests are neither lost nor served twice: what was accepted is buffered, or taken for a
  sync that is about to be called, or has been called.\<close>

definition about_to_sync :: "Daemon \<Rightarrow> nat" where
  "about_to_sync d = (if pc d = AtTimerStop False \<or> pc d = AtDrain False then 1 else 0)"

definition requests_served :: "Daemon \<Rightarrow> bool" where
  "requests_served d \<longleftrightarrow> accepted d = started d + about_to_sync d + syncSoon d"

text \<open>While the loop waits, something is on its way that ends the wait; the timer is inactive
  between stopping and resetting it.\<close>

definition awake :: "Daemon \<Rightarrow> bool" where
  "awake d \<longleftrightarrow>
     (pc d = AtSelect \<longrightarrow> armed d \<or> 0 < in_flight d \<or> 0 < tick d \<or> 0 < syncSoon d) \<and>
     ((\<exists>e. pc d = AtDrain e) \<or> pc d = InSync \<or> pc d = AtReset \<longrightarrow> \<not> armed d)"

lemmas daemon_defs = Loop_start_def askForSync_def after_timer_def syncSoon_cap_def about_to_sync_def

lemma bounded_step: "daemon_step d l d' \<Longrightarrow> bounded d \<Longrightarrow> bounded d'"
  by (induction rule: daemon_step.induct) (auto simp: bounded_def daemon_defs)

lemma requests_served_step: "daemon_step d l d' \<Longrightarrow> requests_served d \<Longrightarrow> requests_served d'"
  by (induction rule: daemon_step.induct) (auto simp: requests_served_def daemon_defs)

lemma awake_step: "daemon_step d l d' \<Longrightarrow> awake d \<Longrightarrow> awake d'"
  by (induction rule: daemon_step.induct) (auto simp: awake_def daemon_defs)

lemma reachable_invariant: "reachable d \<Longrightarrow> bounded d \<and> requests_served d \<and> awake d"
proof (induction rule: reachable.induct)
  case reach_new
  show ?case by (simp add: new_daemon_def bounded_def requests_served_def awake_def about_to_sync_def)
next
  case (reach_step d l d')
  then show ?case using bounded_step requests_served_step awake_step by blast
qed

section \<open>Progress\<close>

text \<open>The steps of the loop and of the timer.\<close>

definition own :: "label \<Rightarrow> bool" where
  "own l \<longleftrightarrow> l \<notin> {Ask, CloseStop}"

text \<open>A step of the loop or the timer at which no call of \<open>Sync\<close> begins.\<close>

definition quiet_step :: "Daemon \<Rightarrow> Daemon \<Rightarrow> bool" where
  "quiet_step d d' \<longleftrightarrow> (\<exists>l. own l \<and> daemon_step d l d') \<and> started d' = started d"

text \<open>How many such steps are left at most.\<close>

definition place_weight :: "place \<Rightarrow> nat" where
  "place_weight p =
     (case p of NotStarted \<Rightarrow> 12 | InSync \<Rightarrow> 11 | AtReset \<Rightarrow> 10 | AtSelect \<Rightarrow> 3
      | AtTimerStop e \<Rightarrow> 2 | AtDrain e \<Rightarrow> 1 | Returned \<Rightarrow> 0)"

definition weight :: "Daemon \<Rightarrow> nat" where
  "weight d = place_weight (pc d) + (if armed d then 3 else 0) + 2 * in_flight d + tick d"

lemma weight_decreases: "daemon_step d l d' \<Longrightarrow> own l \<Longrightarrow> started d' = started d \<Longrightarrow> weight d' < weight d"
  by (induction rule: daemon_step.induct)
    (auto simp: weight_def place_weight_def own_def daemon_defs split: if_splits place.splits)

lemma own_step_enabled:
  assumes "awake d" and "pc d \<noteq> Returned"
  shows "\<exists>l d'. own l \<and> daemon_step d l d'"
proof (cases "pc d")
  case AtSelect
  with assms(1) consider "armed d" | "0 < in_flight d" | "0 < tick d" | "0 < syncSoon d"
    by (auto simp: awake_def)
  then show ?thesis
    by cases (use AtSelect in \<open>force simp: own_def intro: daemon_step.intros\<close>)+
qed (use assms in \<open>force simp: own_def intro: daemon_step.intros\<close>)+

section \<open>Requests during a sync\<close>

text \<open>A request made while \<open>Sync\<close> runs is not dropped but buffered; only a second one is dropped.\<close>

lemma ask_during_sync:
  assumes "pc d = InSync" and "syncSoon d = 0" and "daemon_step d Ask d'"
  shows "syncSoon d' = 1 \<and> accepted d' = accepted d + 1 \<and> (daemon_step d' Ask d'' \<longrightarrow> d'' = d')"
  using assms by (auto simp: daemon_step_iff askForSync_def syncSoon_cap_def)

section \<open>Properties\<close>

text \<open>C29. Invariant of the running daemon: each channel holds at most one value, every accepted
  request is served by exactly one call of \<open>Sync\<close> (it is waiting in the buffer, taken, or its
  call has begun), and the loop never waits without something on its way that wakes it.\<close>

theorem daemon_invariant:
  assumes "reachable d"
  shows "bounded d \<and> requests_served d \<and> awake d"
  using assms by (rule reachable_invariant)

text \<open>C30. Bounded liveness: from every reachable state the loop and the timer, without any
  outside request, either come to the next call of \<open>Sync\<close> or to the return of \<open>Loop\<close> within
  \<open>weight d\<close> steps. A chain of steps that starts no sync is never longer than that, and it can
  always be continued unless the loop has returned.\<close>

theorem daemon_next_sync:
  assumes "reachable d" and "(quiet_step ^^ n) d d'"
  shows "n \<le> weight d \<and> (pc d' = Returned \<or> (\<exists>l e. own l \<and> daemon_step d' l e))"
proof -
  have "n + weight d' \<le> weight d \<and> awake d'"
    using assms(2)
  proof (induction n arbitrary: d')
    case 0
    then show ?case using reachable_invariant [OF assms(1)] by simp
  next
    case (Suc n)
    then obtain e where "(quiet_step ^^ n) d e" and "quiet_step e d'" by (auto elim: relpowp_Suc_E)
    with Suc.IH [of e] show ?case
      unfolding quiet_step_def using weight_decreases awake_step by fastforce
  qed
  then show ?thesis using own_step_enabled by auto
qed

section \<open>Witnesses\<close>

lemma reachable_started: "reachable (Loop_start new_daemon)"
  by (rule reach_step [OF reach_new start]) (simp add: new_daemon_def)

theorem daemon_invariant_witness:
  "bounded (Loop_start new_daemon) \<and> requests_served (Loop_start new_daemon) \<and> awake (Loop_start new_daemon)"
  by (rule daemon_invariant [OF reachable_started])

theorem daemon_next_sync_witness:
  "1 \<le> weight (Loop_start new_daemon) \<and>
   (\<exists>l e. own l \<and> daemon_step ((Loop_start new_daemon)\<lparr>syncSoon := 0, pc := AtTimerStop False\<rparr>) l e)"
proof -
  let ?d = "Loop_start new_daemon" and ?d' = "(Loop_start new_daemon)\<lparr>syncSoon := 0, pc := AtTimerStop False\<rparr>"
  have "daemon_step ?d TakeSoon ?d'"
    using take_soon [of ?d] by (simp add: daemon_defs new_daemon_def)
  then have "quiet_step ?d ?d'" by (auto simp: quiet_step_def own_def)
  then have "(quiet_step ^^ 1) ?d ?d'" by (simp only: relpowp_1)
  from daemon_next_sync [OF reachable_started this] show ?thesis by simp
qed

end
