(* ===== verification/Config.thy ===== *)
theory Config
  imports Pg_Connection "HOL-Library.Char_ord" "HOL-Library.List_Lexorder"
begin

text \<open>
  Package \<open>internal/config\<close>: the controller's configuration, the command line flags it is
  read from, and the flag type \<open>HostCredentials\<close> that holds the administrator credentials of
  the hosts.

  A \<open>time.Duration\<close> is an integer number of nanoseconds. \<open>time.ParseDuration\<close> is the
  argument \<open>ParseDuration\<close>. A \<open>HostCredentials\<close> value is a pointer to a map: \<open>None\<close> is the
  nil pointer, and a nil map is the empty map. The writer of package \<open>encoding/csv\<close> and
  \<open>sort.Strings\<close> are modelled as far as \<open>HostCredentials.String\<close> uses them.
\<close>

section \<open>Configuration\<close>

type_synonym duration = int

record AwsConfig =
  aws_PolicyName :: string
  aws_Region :: string
  aws_AccountID :: string
  aws_Profile :: string
  aws_AccessKeyID :: string
  aws_SecretAccessKey :: string
  aws_LoginRoles :: string

record ControllerConfiguration =
  cfg_MetricsAddress :: string
  cfg_ProbeAddress :: string
  cfg_EnableLeaderElection :: bool
  cfg_ResyncPeriod :: duration
  cfg_UserRoles :: string
  cfg_UserRolePrefix :: string
  cfg_AWS :: AwsConfig
  cfg_HostCredentials :: "(string, Credentials) gomap"
  cfg_ManagerRoleName :: string
  cfg_SuperuserRoleName :: string
  cfg_AllDatabasesReadEnabled :: bool
  cfg_AllDatabasesWriteEnabled :: bool
  cfg_ExtendedWriteEnabled :: bool
  cfg_IAMPolicyPrefix :: string
  cfg_SecureMetrics :: bool
  cfg_EnableHTTP2 :: bool

definition time_Hour :: duration where
  "time_Hour = 3600000000000"

text \<open>
  Registering a flag with \<open>StringVar\<close>, \<open>BoolVar\<close> or \<open>DurationVar\<close> writes its default into the
  variable; \<open>Var\<close> leaves the variable (the host credentials) alone.
\<close>

definition RegisterFlags :: "ControllerConfiguration \<Rightarrow> ControllerConfiguration" where
  "RegisterFlags c = c\<lparr>
     cfg_MetricsAddress := '':8080'',
     cfg_ProbeAddress := '':8081'',
     cfg_EnableLeaderElection := False,
     cfg_ResyncPeriod := 10 * time_Hour,
     cfg_ManagerRoleName := ''postgres_role_manager'',
     cfg_SuperuserRoleName := ''rds_superuser'',
     cfg_UserRoles := ''rds_iam'',
     cfg_AllDatabasesReadEnabled := False,
     cfg_AllDatabasesWriteEnabled := False,
     cfg_UserRolePrefix := ''iam_developer_'',
     cfg_AWS := \<lparr>aws_PolicyName = ''postgres-controller-users'', aws_Region = ''eu-west-1'',
       aws_AccountID = ''660013655494'', aws_Profile = [], aws_AccessKeyID = [],
       aws_SecretAccessKey = [], aws_LoginRoles = []\<rparr>,
     cfg_ExtendedWriteEnabled := False,
     cfg_IAMPolicyPrefix := ''/'',
     cfg_SecureMetrics := False,
     cfg_EnableHTTP2 := False\<rparr>"

definition GetUserRoles :: "ControllerConfiguration \<Rightarrow> string list" where
  "GetUserRoles c = Split (cfg_UserRoles c) (CHR '','')"

definition GetLoginRoles :: "ControllerConfiguration \<Rightarrow> string list" where
  "GetLoginRoles c = Split (aws_LoginRoles (cfg_AWS c)) (CHR '','')"

text \<open>The line \<open>Log\<close> writes: its keys and values.\<close>

datatype logged = LoggedStrings "string list" | LoggedString string | LoggedBool bool

definition Log ::
    "((string \<times> Credentials) list \<Rightarrow> (string \<times> Credentials) list) \<Rightarrow> ControllerConfiguration \<Rightarrow>
     (string \<times> logged) list" where
  "Log rng c =
     [(''hosts'', LoggedStrings (map fst (rng (cfg_HostCredentials c)))),
      (''roles'', LoggedString (cfg_UserRoles c)),
      (''prefix'', LoggedString (cfg_UserRolePrefix c)),
      (''awsPolicyName'', LoggedString (aws_PolicyName (cfg_AWS c))),
      (''awsRegion'', LoggedString (aws_Region (cfg_AWS c))),
      (''awsAccountID'', LoggedString (aws_AccountID (cfg_AWS c))),
      (''awsLoginRoles'', LoggedString (aws_LoginRoles (cfg_AWS c))),
      (''allDatabasesReadEnabled'', LoggedBool (cfg_AllDatabasesReadEnabled c)),
      (''allDatabasesWriteEnabled'', LoggedBool (cfg_AllDatabasesWriteEnabled c)),
      (''iamPolicyPrefix'', LoggedString (cfg_IAMPolicyPrefix c))]"

section \<open>The flag type HostCredentials\<close>

record HostCredentials =
  hcv_value :: "(string, Credentials) gomap option"

definition key_value_error :: "string \<Rightarrow> goerr" where
  "key_value_error s = Errorf ''%s must be formatted as key=value'' [s]"

text \<open>One \<open>host=user:password\<close> or \<open>host=user:password=params\<close> entry.\<close>

definition parse_host_credential :: "string \<Rightarrow> goerr + (string \<times> Credentials)" where
  "parse_host_credential hostCredential =
     (case SplitN hostCredential (CHR ''='') 3 of
        host # userPass # rest \<Rightarrow>
          if host = [] then Inl (key_value_error hostCredential)
          else (case ParseUsernamePassword userPass of
             Inl err \<Rightarrow> Inl (Wrapf (''parse host '' @ [CHR 0x27] @ ''%s'' @ [CHR 0x27] @ '' failed: %w'') [hostCredential] err)
           | Inr parsed \<Rightarrow>
              Inr (host, case rest of [params] \<Rightarrow> parsed\<lparr>c_Params := params\<rparr> | _ \<Rightarrow> parsed))
      | _ \<Rightarrow> Inl (key_value_error hostCredential))"

text \<open>The loop of \<open>Set\<close>: an error ends it, the entries before it stay in the map.\<close>

fun set_loop ::
    "string list \<Rightarrow> (string, Credentials) gomap \<Rightarrow> goerr option \<times> (string, Credentials) gomap" where
  "set_loop [] m = (None, m)"
| "set_loop (x # xs) m =
     (case parse_host_credential x of
        Inl err \<Rightarrow> (Some err, m)
      | Inr (host, c) \<Rightarrow> set_loop xs (gm_put host c m))"

definition Set :: "HostCredentials \<Rightarrow> string \<Rightarrow> goerr option \<times> HostCredentials" where
  "Set h val0 =
     (let val = TrimSpace val0
      in if val = [] then (None, h)
         else let m = (case hcv_value h of None \<Rightarrow> [] | Some m \<Rightarrow> m);
                  (err, m') = set_loop (Split val (CHR '','')) m
              in (err, h\<lparr>hcv_value := Some m'\<rparr>))"

definition HostCredentials_Type :: "HostCredentials \<Rightarrow> string" where
  "HostCredentials_Type h = ''stringToCredentials''"

text \<open>Package \<open>encoding/csv\<close>: one record written with the default comma.\<close>

definition csv_needs_quotes :: "string \<Rightarrow> bool" where
  "csv_needs_quotes field =
     (field \<noteq> [] \<and>
      (field = [CHR 0x5C, CHR ''.''] \<or>
       list_ex (\<lambda>c. c = CHR 0x0A \<or> c = CHR 0x0D \<or> c = CHR 0x22 \<or> c = CHR '','') field \<or>
       list_ex (\<lambda>r. prefix r field) space_runes))"

definition csv_field :: "string \<Rightarrow> string" where
  "csv_field field =
     (if csv_needs_quotes field
      then [CHR 0x22] @ concat (map (\<lambda>c. if c = CHR 0x22 then [c, c] else [c]) field) @ [CHR 0x22]
      else field)"

definition csv_Write :: "string list \<Rightarrow> string" where
  "csv_Write records = Join (map csv_field records) '','' @ [CHR 0x0A]"

definition sort_Strings :: "string list \<Rightarrow> string list" where
  "sort_Strings xs = sort xs"

definition masked_pair :: "string \<times> Credentials \<Rightarrow> string" where
  "masked_pair kv =
     (case kv of (k, v) \<Rightarrow>
        k @ ''='' @ c_User v @ (if c_Password v \<noteq> [] then '':********'' else []))"

definition HostCredentials_String ::
    "((string \<times> Credentials) list \<Rightarrow> (string \<times> Credentials) list) \<Rightarrow> HostCredentials \<Rightarrow> string" where
  "HostCredentials_String rng h =
     (case hcv_value h of
        None \<Rightarrow> ''[]''
      | Some m \<Rightarrow>
          ''['' @ TrimSpace (csv_Write (sort_Strings (map masked_pair (rng m)))) @ '']'')"

section \<open>Setting a flag by name\<close>

text \<open>\<open>strconv.ParseBool\<close>, as a flag of type bool uses it.\<close>

definition ParseBool :: "string \<Rightarrow> goerr + bool" where
  "ParseBool s =
     (if s \<in> set [''1'', ''t'', ''T'', ''true'', ''TRUE'', ''True''] then Inr True
      else if s \<in> set [''0'', ''f'', ''F'', ''false'', ''FALSE'', ''False''] then Inr False
      else Inl (ExtError ''parse error''))"

text \<open>The variables bound to string and boolean flags, in the order of registration.\<close>

definition string_flags ::
    "(string \<times> (string \<Rightarrow> ControllerConfiguration \<Rightarrow> ControllerConfiguration)) list" where
  "string_flags =
     [(''metrics-addr'', \<lambda>v. cfg_MetricsAddress_update (\<lambda>_. v)),
      (''health-probe-bind-address'', \<lambda>v. cfg_ProbeAddress_update (\<lambda>_. v)),
      (''manager-role-name'', \<lambda>v. cfg_ManagerRoleName_update (\<lambda>_. v)),
      (''superuser-role-name'', \<lambda>v. cfg_SuperuserRoleName_update (\<lambda>_. v)),
      (''user-roles'', \<lambda>v. cfg_UserRoles_update (\<lambda>_. v)),
      (''user-role-prefix'', \<lambda>v. cfg_UserRolePrefix_update (\<lambda>_. v)),
      (''aws-policy-name'', \<lambda>v. cfg_AWS_update (aws_PolicyName_update (\<lambda>_. v))),
      (''aws-region'', \<lambda>v. cfg_AWS_update (aws_Region_update (\<lambda>_. v))),
      (''aws-account-id'', \<lambda>v. cfg_AWS_update (aws_AccountID_update (\<lambda>_. v))),
      (''aws-profile'', \<lambda>v. cfg_AWS_update (aws_Profile_update (\<lambda>_. v))),
      (''aws-access-key-id'', \<lambda>v. cfg_AWS_update (aws_AccessKeyID_update (\<lambda>_. v))),
      (''aws-secret-access-key'', \<lambda>v. cfg_AWS_update (aws_SecretAccessKey_update (\<lambda>_. v))),
      (''aws-login-role'', \<lambda>v. cfg_AWS_update (aws_LoginRoles_update (\<lambda>_. v))),
      (''iam-policy-prefix'', \<lambda>v. cfg_IAMPolicyPrefix_update (\<lambda>_. v))]"

definition bool_flags ::
    "(string \<times> (bool \<Rightarrow> ControllerConfiguration \<Rightarrow> ControllerConfiguration)) list" where
  "bool_flags =
     [(''leader-elect'', \<lambda>v. cfg_EnableLeaderElection_update (\<lambda>_. v)),
      (''all-databases-enabled-read'', \<lambda>v. cfg_AllDatabasesReadEnabled_update (\<lambda>_. v)),
      (''all-databases-enabled-write'', \<lambda>v. cfg_AllDatabasesWriteEnabled_update (\<lambda>_. v)),
      (''extended-write-enabled'', \<lambda>v. cfg_ExtendedWriteEnabled_update (\<lambda>_. v)),
      (''secure-metrics'', \<lambda>v. cfg_SecureMetrics_update (\<lambda>_. v)),
      (''enable-http2'', \<lambda>v. cfg_EnableHTTP2_update (\<lambda>_. v))]"

text \<open>\<open>flagSet.Set\<close> on the registered flags. The flag package stops the program when it
  reports an error, so the configuration after an error is not used.\<close>

definition flag_Set ::
    "(string \<Rightarrow> goerr + duration) \<Rightarrow> string \<Rightarrow> string \<Rightarrow> ControllerConfiguration \<Rightarrow>
     goerr + ControllerConfiguration" where
  "flag_Set ParseDuration name v c =
     (case map_of string_flags name of
        Some upd \<Rightarrow> Inr (upd v c)
      | None \<Rightarrow>
        (case map_of bool_flags name of
           Some upd \<Rightarrow> (case ParseBool v of Inl e \<Rightarrow> Inl e | Inr b \<Rightarrow> Inr (upd b c))
         | None \<Rightarrow>
           if name = ''resync-period'' then
             (case ParseDuration v of Inl e \<Rightarrow> Inl e | Inr d \<Rightarrow> Inr (c\<lparr>cfg_ResyncPeriod := d\<rparr>))
           else if name = ''host-credentials'' then
             (case Set \<lparr>hcv_value = Some (cfg_HostCredentials c)\<rparr> v of
                (Some e, _) \<Rightarrow> Inl e
              | (None, h) \<Rightarrow> Inr (c\<lparr>cfg_HostCredentials := the (hcv_value h)\<rparr>))
           else Inl (Errorf ''no such flag -%v'' [name])))"
section \<open>Lemmas\<close>

definition graphic :: "char \<Rightarrow> bool" where
  "graphic c = (32 < (of_char c :: nat) \<and> (of_char c :: nat) < 127)"

lemma strip_left_graphic:
  assumes "\<forall>r\<in>set rs. r \<noteq> [] \<and> \<not> graphic (hd r)" and "\<forall>c\<in>set s. graphic c"
  shows "strip_left n rs s = s"
proof -
  have "\<not> prefix r s" if "r \<in> set rs" for r
    using bspec [OF assms(1) that] assms(2) by (auto simp: neq_Nil_conv prefix_def)
  then have "find (\<lambda>r. prefix r s) rs = None" by (simp add: find_None_iff)
  then show ?thesis by (cases n) simp_all
qed

lemma space_runes_not_graphic:
  "\<forall>r\<in>set space_runes. r \<noteq> [] \<and> \<not> graphic (hd r)"
  "\<forall>r\<in>set (map rev space_runes). r \<noteq> [] \<and> \<not> graphic (hd r)"
  by (simp_all add: space_runes_def graphic_def)

lemma TrimSpace_graphic: "\<forall>c\<in>set s. graphic c \<Longrightarrow> TrimSpace s = s"
  by (simp add: TrimSpace_def TrimLeftSpace_def TrimRightSpace_def space_runes_not_graphic
      strip_left_graphic del: set_map)

lemma set_Join_subset: "set (Join xs sep) \<subseteq> \<Union> (set ` set xs) \<union> set sep"
  by (induction xs sep rule: Join.induct) auto

text \<open>How an operator writes an entry of the flag, and the entries that can be written.\<close>

definition print_entry :: "string \<times> Credentials \<Rightarrow> string" where
  "print_entry kv =
     (case kv of (host, c) \<Rightarrow>
        host @ ''='' @ c_User c @ '':'' @ c_Password c
        @ (if c_Params c = [] then [] else ''='' @ c_Params c))"

definition wf_entry :: "string \<times> Credentials \<Rightarrow> bool" where
  "wf_entry kv =
     (case kv of (host, c) \<Rightarrow>
        host \<noteq> [] \<and> c_User c \<noteq> [] \<and> c_Name c = [] \<and> \<not> c_Shared c \<and>
        list_all graphic (host @ c_User c @ c_Password c @ c_Params c) \<and>
        CHR '','' \<notin> set (host @ c_User c @ c_Password c @ c_Params c) \<and>
        CHR ''='' \<notin> set (host @ c_User c @ c_Password c) \<and>
        CHR '':'' \<notin> set (c_User c))"

lemma SplitN3: 
  assumes "c \<notin> set a" and "c \<notin> set b"
  shows "SplitN (a @ c # b) c 3 = [a, b]" and "SplitN (a @ c # b @ c # t) c 3 = [a, b, t]"
  using assms SplitN_append_sep [of c a b 1] SplitN_append_sep [of c a "b @ c # t" 1]
    SplitN_append_sep [of c b t 0] SplitN_no_sep [of c b 1]
  by (simp_all add: numeral_3_eq_3)

lemma parse_user_password:
  assumes "u \<noteq> []" and "CHR '':'' \<notin> set u" and "\<forall>c\<in>set (u @ p). graphic c"
  shows "ParseUsernamePassword (u @ CHR '':'' # p) = Inr (no_credentials\<lparr>c_User := u, c_Password := p\<rparr>)"
proof -
  have "TrimSpace (u @ CHR '':'' # p) = u @ CHR '':'' # p"
    using assms(3) by (intro TrimSpace_graphic) (auto simp: graphic_def)
  with assms show ?thesis
    using SplitN_append_sep [of "CHR '':''" u p 0]
    by (simp add: ParseUsernamePassword_def numeral_2_eq_2)
qed

lemma parse_print_entry:
  assumes "wf_entry kv"
  shows "parse_host_credential (print_entry kv) = Inr kv"
proof -
  obtain host c where kv: "kv = (host, c)" by (cases kv)
  note wf = assms [unfolded wf_entry_def kv prod.case]
  have pw: "ParseUsernamePassword (c_User c @ CHR '':'' # c_Password c)
      = Inr (no_credentials\<lparr>c_User := c_User c, c_Password := c_Password c\<rparr>)"
    using wf by (intro parse_user_password) (auto simp: list_all_iff)
  have c: "c = no_credentials\<lparr>c_User := c_User c, c_Password := c_Password c, c_Params := c_Params c\<rparr>"
    using wf by (cases c) (simp add: no_credentials_def)
  have eq: "CHR ''='' \<notin> set host" "CHR ''='' \<notin> set (c_User c @ CHR '':'' # c_Password c)"
    using wf by auto
  show ?thesis
  proof (cases "c_Params c = []")
    case True
    with SplitN3(1) [OF eq] c wf pw show ?thesis
      by (simp add: kv print_entry_def parse_host_credential_def no_credentials_def)
  next
    case False
    with SplitN3(2) [OF eq, of "c_Params c"] c wf pw show ?thesis
      by (simp add: kv print_entry_def parse_host_credential_def)
  qed
qed

lemma set_loop_entries:
  "\<forall>kv\<in>set es. wf_entry kv \<Longrightarrow>
     \<exists>m'. set_loop (map print_entry es) m = (None, m') \<and> gm_get m' = gm_get m ++ map_of (rev es)"
proof (induction es arbitrary: m)
  case Nil
  show ?case by simp
next
  case (Cons kv es)
  obtain k v where kv: "kv = (k, v)" by (cases kv)
  with Cons.prems parse_print_entry have "parse_host_credential (print_entry kv) = Inr (k, v)" by auto
  moreover from Cons obtain m' where "set_loop (map print_entry es) (gm_put k v m) = (None, m')"
    and "gm_get m' = gm_get (gm_put k v m) ++ map_of (rev es)" by auto
  ultimately show ?case by (auto simp: kv update_conv' map_add_def fun_eq_iff split: option.splits)
qed

lemma print_entry_chars:
  assumes "wf_entry kv"
  shows "\<forall>c\<in>set (print_entry kv). graphic c \<and> c \<noteq> CHR '',''" and "print_entry kv \<noteq> []"
  using assms by (auto simp: wf_entry_def print_entry_def list_all_iff graphic_def split: prod.splits)
text \<open>A password is taken up to its first \<open>=\<close>; the rest becomes connection parameters.\<close>

lemma password_cut_at_equals:
  assumes "wf_entry (host, c)" and "c_Params c \<noteq> []"
  shows "\<exists>c'. parse_host_credential (host @ ''='' @ c_User c @ '':'' @ (c_Password c @ ''='' @ c_Params c)) = Inr (host, c')
    \<and> c_Password c' = c_Password c \<and> c_Params c' = c_Params c"
  using parse_print_entry [OF assms(1)] assms(2) by (auto simp: print_entry_def)

section \<open>Properties\<close>

text \<open>C22. Round trip of the host credentials flag: any non-empty list of entries whose parts
  avoid the separators they stand before, written as
  \<open>host=user:password\<close> or \<open>host=user:password=params\<close> and joined with commas, is read back without
  error, every entry with exactly its user, password and parameters. Earlier values of the flag
  are kept for the other hosts, and of two entries for one host the later one counts.\<close>

theorem Set_roundtrip:
  assumes "es \<noteq> []" and "\<forall>kv\<in>set es. wf_entry kv"
  shows "\<exists>m'. Set h (Join (map print_entry es) '','') = (None, h\<lparr>hcv_value := Some m'\<rparr>)
    \<and> gm_get m' = gm_get (case hcv_value h of None \<Rightarrow> [] | Some m \<Rightarrow> m) ++ map_of (rev es)"
proof -
  let ?s = "Join (map print_entry es) '',''"
  note chars = print_entry_chars
  have "\<forall>c\<in>\<Union> (set ` set (map print_entry es)) \<union> set '',''. graphic c"
    using assms(2) chars(1) by (auto simp: graphic_def [of "CHR '',''"])
  then have "\<forall>c\<in>set ?s. graphic c"
    using set_Join_subset [of "map print_entry es" "'',''"] by blast
  then have trim: "TrimSpace ?s = ?s" by (rule TrimSpace_graphic)
  have split: "Split ?s (CHR '','') = map print_entry es"
    using assms chars(1) by (intro Split_Join) auto
  have "?s \<noteq> []"
  proof
    assume "?s = []"
    with split have "map print_entry es = [[]]" by simp
    with assms(2) chars(2) show False by auto
  qed
  with set_loop_entries [OF assms(2), of "case hcv_value h of None \<Rightarrow> [] | Some m \<Rightarrow> m"] trim split
  show ?thesis by (auto simp add: Set_def)
qed

theorem Set_roundtrip_witness:
  "\<exists>m'. Set \<lparr>hcv_value = None\<rparr>
      (Join (map print_entry
        [(''db1'', no_credentials\<lparr>c_User := ''admin'', c_Password := ''a:b''\<rparr>),
         (''db2'', no_credentials\<lparr>c_User := ''root'', c_Password := ''s3'', c_Params := ''sslmode=require''\<rparr>)]) '','')
      = (None, \<lparr>hcv_value = Some m'\<rparr>)
    \<and> gm_get m' ''db2'' = Some (no_credentials\<lparr>c_User := ''root'', c_Password := ''s3'', c_Params := ''sslmode=require''\<rparr>)"
proof -
  let ?es = "[(''db1'', no_credentials\<lparr>c_User := ''admin'', c_Password := ''a:b''\<rparr>),
    (''db2'', no_credentials\<lparr>c_User := ''root'', c_Password := ''s3'', c_Params := ''sslmode=require''\<rparr>)]"
  have "\<forall>kv\<in>set ?es. wf_entry kv"
    by (simp add: wf_entry_def no_credentials_def graphic_def)
  from Set_roundtrip [OF list.distinct(2) this, of "\<lparr>hcv_value = None\<rparr>"]
  obtain m' where s: "Set \<lparr>hcv_value = None\<rparr> (Join (map print_entry ?es) '','') = (None, \<lparr>hcv_value = Some m'\<rparr>)"
    and g: "gm_get m' = gm_get [] ++ map_of (rev ?es)"
    unfolding HostCredentials.update_convs HostCredentials.select_convs option.case by blast
  from g have "gm_get m' ''db2'' = Some (no_credentials\<lparr>c_User := ''root'', c_Password := ''s3'', c_Params := ''sslmode=require''\<rparr>)"
    by simp
  with s show ?thesis by blast
qed

text \<open>What the printed form of the flag may reveal of an entry.\<close>

definition public_view :: "string \<times> Credentials \<Rightarrow> string \<times> string \<times> bool" where
  "public_view kv = (fst kv, c_User (snd kv), c_Password (snd kv) = [])"

lemma masked_pair_view:
  "masked_pair kv = (case public_view kv of (k, u, none) \<Rightarrow> k @ ''='' @ u @ (if none then [] else '':********''))"
  by (simp add: masked_pair_def public_view_def split: prod.splits)

text \<open>C23. The printed form of the host credentials is a function of the hosts, the user names and
  which passwords are set: it reveals nothing else of a password or of the parameters, and it is
  stable, whatever order Go ranges over the map in.\<close>

theorem HostCredentials_String_masked:
  assumes "is_range rng" and "is_range rng'"
    and "mset (map public_view m) = mset (map public_view m')"
  shows "HostCredentials_String rng \<lparr>hcv_value = Some m\<rparr> = HostCredentials_String rng' \<lparr>hcv_value = Some m'\<rparr>"
proof -
  let ?f = "\<lambda>v. case v of (k, u, none) \<Rightarrow> k @ ''='' @ u @ (if none then [] else '':********'')"
  have f: "map masked_pair xs = map ?f (map public_view xs)" for xs
    using masked_pair_view by simp
  have r: "mset (rng m) = mset m" "mset (rng' m') = mset m'"
    using assms(1,2) by (auto simp: is_range_def)
  have "mset (map masked_pair (rng m)) = image_mset ?f (mset (map public_view m))"
    by (simp only: f mset_map r)
  also have "\<dots> = image_mset ?f (mset (map public_view m'))" by (simp only: assms(3))
  also have "\<dots> = mset (map masked_pair (rng' m'))" by (simp only: f mset_map r)
  finally have "sort (map masked_pair (rng m)) = sort (map masked_pair (rng' m'))"
    by (metis mset_sort properties_for_sort sorted_sort)
  then show ?thesis by (simp add: HostCredentials_String_def sort_Strings_def)
qed

theorem HostCredentials_String_masked_witness:
  "HostCredentials_String id \<lparr>hcv_value = Some [(''b'', no_credentials\<lparr>c_User := ''u'', c_Password := ''one''\<rparr>), (''a'', no_credentials\<lparr>c_User := ''v''\<rparr>)]\<rparr>
   = HostCredentials_String rev \<lparr>hcv_value = Some [(''b'', no_credentials\<lparr>c_User := ''u'', c_Password := ''two''\<rparr>), (''a'', no_credentials\<lparr>c_User := ''v''\<rparr>)]\<rparr>"
  by (rule HostCredentials_String_masked) (simp_all add: is_range_def public_view_def no_credentials_def)

end
