(* ===== verification/Go_Flag.thy ===== *)
theory Go_Flag
  imports Go_Errors
begin

text \<open>
  Go's \<open>flag\<close> package, as \<open>cmd/main.go\<close> uses it: \<open>FlagSet.Parse\<close> on the arguments of a program. A
  set of flags says which names are defined, which of them are boolean, and what setting one does
  to the variables. The variables are of any type.
\<close>

record 'c flag_set =
  fs_formal :: "string \<Rightarrow> bool option"
  fs_Set :: "string \<Rightarrow> string \<Rightarrow> 'c \<Rightarrow> goerr + 'c"

datatype flag_error = ErrHelp | FlagError

datatype flag_arg = NoFlag | Terminator | BadSyntax | FlagArg string "string option"

text \<open>A name and the value after the first equals sign, which cannot be the first character.\<close>

definition split_value :: "string \<Rightarrow> flag_arg" where
  "split_value name =
     (let value = dropWhile (\<lambda>c. c \<noteq> CHR ''='') name
      in FlagArg (takeWhile (\<lambda>c. c \<noteq> CHR ''='') name) (if value = [] then None else Some (tl value)))"

definition flag_name :: "string \<Rightarrow> flag_arg" where
  "flag_name name = (if name = [] \<or> hd name \<in> set ''-='' then BadSyntax else split_value name)"

fun read_arg :: "string \<Rightarrow> flag_arg" where
  "read_arg (a # b # s) =
     (if a \<noteq> CHR ''-'' then NoFlag
      else if b = CHR ''-'' then (if s = [] then Terminator else flag_name s)
      else flag_name (b # s))"
| "read_arg s = NoFlag"

text \<open>\<open>Parse\<close>: the variables and the arguments that are left, or the error that ends the program.\<close>

fun Parse :: "'c flag_set \<Rightarrow> string list \<Rightarrow> 'c \<Rightarrow> flag_error + ('c \<times> string list)" where
  "Parse fs [] c = Inr (c, [])"
| "Parse fs (s # args) c =
     (case read_arg s of
        NoFlag \<Rightarrow> Inr (c, s # args)
      | Terminator \<Rightarrow> Inr (c, args)
      | BadSyntax \<Rightarrow> Inl FlagError
      | FlagArg name value \<Rightarrow>
          (case fs_formal fs name of
             None \<Rightarrow> Inl (if name = ''help'' \<or> name = ''h'' then ErrHelp else FlagError)
           | Some True \<Rightarrow>
               (case fs_Set fs name (case value of None \<Rightarrow> ''true'' | Some v \<Rightarrow> v) c of
                  Inl err \<Rightarrow> Inl FlagError
                | Inr c' \<Rightarrow> Parse fs args c')
           | Some False \<Rightarrow>
               (case value of
                  Some v \<Rightarrow> (case fs_Set fs name v c of Inl err \<Rightarrow> Inl FlagError | Inr c' \<Rightarrow> Parse fs args c')
                | None \<Rightarrow>
                    (case args of
                       [] \<Rightarrow> Inl FlagError
                     | v # rest \<Rightarrow>
                         (case fs_Set fs name v c of
                            Inl err \<Rightarrow> Inl FlagError
                          | Inr c' \<Rightarrow> Parse fs rest c')))))"

section \<open>Arguments of the form \<open>--name=value\<close>\<close>

definition long_arg :: "string \<times> string \<Rightarrow> string" where
  "long_arg nv = ''--'' @ fst nv @ ''='' @ snd nv"

fun set_flags :: "'c flag_set \<Rightarrow> (string \<times> string) list \<Rightarrow> 'c \<Rightarrow> goerr + 'c" where
  "set_flags fs [] c = Inr c"
| "set_flags fs ((name, v) # rest) c =
     (case fs_Set fs name v c of Inl err \<Rightarrow> Inl err | Inr c' \<Rightarrow> set_flags fs rest c')"

definition flag_ident :: "string \<Rightarrow> bool" where
  "flag_ident n = (n \<noteq> [] \<and> hd n \<noteq> CHR ''-'' \<and> CHR ''='' \<notin> set n)"

lemma read_long_arg: "flag_ident n \<Longrightarrow> read_arg (long_arg (n, v)) = FlagArg n (Some v)"
proof -
  assume n: "flag_ident n"
  then have "\<forall>c\<in>set n. c \<noteq> CHR ''=''" by (auto simp: flag_ident_def)
  then have "takeWhile (\<lambda>c. c \<noteq> CHR ''='') (n @ ''='' @ v) = n"
    and "dropWhile (\<lambda>c. c \<noteq> CHR ''='') (n @ ''='' @ v) = ''='' @ v"
    by (simp_all add: takeWhile_append2 dropWhile_append2)
  with n show ?thesis
    by (cases n) (auto simp: flag_ident_def long_arg_def flag_name_def split_value_def Let_def)
qed

lemma Parse_long_args:
  assumes "\<forall>nv\<in>set nvs. flag_ident (fst nv) \<and> fs_formal fs (fst nv) \<noteq> None"
  shows "Parse fs (map long_arg nvs) c =
    (case set_flags fs nvs c of Inl err \<Rightarrow> Inl FlagError | Inr c' \<Rightarrow> Inr (c', []))"
  using assms
proof (induction nvs arbitrary: c)
  case Nil
  show ?case by simp
next
  case (Cons nv nvs)
  obtain n v b where nv: "nv = (n, v)" and n: "flag_ident n" and b: "fs_formal fs n = Some b"
    using Cons.prems by (cases nv) auto
  show ?case
  proof (cases "fs_Set fs n v c")
    case (Inl e)
    then show ?thesis by (cases b) (simp_all add: nv read_long_arg [OF n] b)
  next
    case (Inr c')
    then show ?thesis using Cons by (cases b) (simp_all add: nv read_long_arg [OF n] b)
  qed
qed

text \<open>A value may also be the next argument, whatever it looks like.\<close>

lemma Parse_next_arg:
  assumes "flag_ident n" and "fs_formal fs n = Some False"
  shows "Parse fs ((''-'' @ n) # v # args) c = Parse fs (long_arg (n, v) # args) c"
proof -
  from assms(1) have "\<forall>c\<in>set n. c \<noteq> CHR ''=''" by (auto simp: flag_ident_def)
  then have "takeWhile (\<lambda>c. c \<noteq> CHR ''='') n = n" "dropWhile (\<lambda>c. c \<noteq> CHR ''='') n = []"
    by (simp_all add: takeWhile_eq_all_conv dropWhile_eq_Nil_conv)
  with assms(1) have "read_arg (''-'' @ n) = FlagArg n None"
    by (cases n) (auto simp: flag_ident_def flag_name_def split_value_def)
  with read_long_arg [OF assms(1)] assms(2) show ?thesis by simp
qed

end
