(* ===== verification/Controller_World.thy ===== *)
theory Controller_World
  imports Kube Iam Sql_Reasoning
begin

text \<open>
  What the reconcilers of \<open>internal/controller\<close> share: the world they act on, the Kubernetes API
  objects they read and write, and the results they return to controller-runtime.

  The Kubernetes API server is outside the repository: \<open>api\<close> holds its answers. Reads do not
  change anything; every write is recorded, with its answer, in the log \<open>w_kube\<close> of the world,
  and an answer may depend on that log. The world also holds the history of the PostgreSQL
  servers and that of AWS.
\<close>

section \<open>Requests and results\<close>

record Request =
  req_Namespace :: string
  req_Name :: string

record Result =
  res_Requeue :: bool
  res_RequeueAfter :: int

definition no_requeue :: Result where
  "no_requeue = \<lparr>res_Requeue = False, res_RequeueAfter = 0\<rparr>"

definition time_Second :: int where
  "time_Second = 1000000000"

section \<open>The world\<close>

datatype kube_event =
    UpdateUser PostgreSQLUser "goerr option"
  | UpdateCustomRole CustomRole "goerr option"
  | StatusUpdateDatabase PostgreSQLDatabase "goerr option"
  | StatusUpdateCustomRole CustomRole "goerr option"

record world =
  w_sql :: history
  w_aws :: aws_history
  w_kube :: "kube_event list"

record api =
  api_client :: kube_client
  api_GetDatabase :: "string \<Rightarrow> string \<Rightarrow> goerr + PostgreSQLDatabase"
  api_GetHostCredentials :: "string \<Rightarrow> string \<Rightarrow> goerr + PostgreSQLHostCredentials"
  api_GetUser :: "string \<Rightarrow> string \<Rightarrow> goerr + PostgreSQLUser"
  api_GetCustomRole :: "string \<Rightarrow> string \<Rightarrow> goerr + CustomRole"
  api_ListCustomRoles :: "string \<Rightarrow> goerr + CustomRole list"
  api_UpdateUser :: "kube_event list \<Rightarrow> PostgreSQLUser \<Rightarrow> goerr option"
  api_UpdateCustomRole :: "kube_event list \<Rightarrow> CustomRole \<Rightarrow> goerr option"
  api_StatusUpdateDatabase :: "kube_event list \<Rightarrow> PostgreSQLDatabase \<Rightarrow> goerr option"
  api_StatusUpdateCustomRole :: "kube_event list \<Rightarrow> CustomRole \<Rightarrow> goerr option"

definition on_sql :: "'a act \<Rightarrow> (world, 'a) step" where
  "on_sql m w = (case m (w_sql w) of (r, h) \<Rightarrow> (r, w\<lparr>w_sql := h\<rparr>))"

definition on_aws :: "'a iam \<Rightarrow> (world, 'a) step" where
  "on_aws m w = (case m (w_aws w) of (r, h) \<Rightarrow> (r, w\<lparr>w_aws := h\<rparr>))"

definition kube_write ::
    "(kube_event list \<Rightarrow> 'o \<Rightarrow> goerr option) \<Rightarrow> ('o \<Rightarrow> goerr option \<Rightarrow> kube_event) \<Rightarrow> 'o \<Rightarrow> (world, unit) step" where
  "kube_write answer ev obj w =
     (let r = answer (w_kube w) obj in (of_error r, w\<lparr>w_kube := w_kube w @ [ev obj r]\<rparr>))"

section \<open>Finalizers\<close>

text \<open>Package \<open>controllerutil\<close>.\<close>

definition ContainsFinalizer :: "ObjectMeta \<Rightarrow> string \<Rightarrow> bool" where
  "ContainsFinalizer m f = (f \<in> set (om_Finalizers m))"

definition AddFinalizer :: "string \<Rightarrow> ObjectMeta \<Rightarrow> ObjectMeta" where
  "AddFinalizer f m = (if f \<in> set (om_Finalizers m) then m else m\<lparr>om_Finalizers := om_Finalizers m @ [f]\<rparr>)"

definition RemoveFinalizer :: "string \<Rightarrow> ObjectMeta \<Rightarrow> ObjectMeta" where
  "RemoveFinalizer f m = m\<lparr>om_Finalizers := removeAll f (om_Finalizers m)\<rparr>"

section \<open>Lemmas\<close>

lemma on_sql_world [simp]:
  "w_aws (snd (on_sql m w)) = w_aws w" "w_kube (snd (on_sql m w)) = w_kube w"
  "w_sql (snd (on_sql m w)) = snd (m (w_sql w))" "fst (on_sql m w) = fst (m (w_sql w))"
  by (simp_all add: on_sql_def split: prod.split)

lemma on_aws_world [simp]:
  "w_sql (snd (on_aws m w)) = w_sql w" "w_kube (snd (on_aws m w)) = w_kube w"
  "w_aws (snd (on_aws m w)) = snd (m (w_aws w))" "fst (on_aws m w) = fst (m (w_aws w))"
  by (simp_all add: on_aws_def split: prod.split)

lemma kube_write_world [simp]:
  "w_sql (snd (kube_write a ev x w)) = w_sql w" "w_aws (snd (kube_write a ev x w)) = w_aws w"
  by (simp_all add: kube_write_def Let_def)

end
