(* ===== verification/User_Controller.thy ===== *)
theory User_Controller
  imports Controller_World Grants_Sync
begin

text \<open>
  \<open>internal/controller/postgresqluser_controller.go\<close>: reconciling a \<open>PostgreSQLUser\<close>, and the two
  reconcilers that only read their resource (\<open>postgresqlhostcredentials_controller.go\<close>,
  \<open>postgresqlserviceuser_controller.go\<close>).

  The IAM operations are fields of the reconciler, as in the source. \<open>session\<close> is what
  \<open>session.NewSession\<close> of the AWS SDK returns. The three \<open>rng\<close> arguments are the orders in which
  \<open>SyncUser\<close> ranges over its maps. A panic of \<open>SyncUser\<close> is \<open>None\<close>.
\<close>

section \<open>The reconciler\<close>

record PostgreSQLUserReconciler =
  ur_Granter :: Granter
  ur_EnsureIAMUser :: "Client \<Rightarrow> EnsureUserConfig \<Rightarrow> string \<Rightarrow> string \<Rightarrow> unit iam"
  ur_RemoveIAMUser :: "Client \<Rightarrow> string list \<Rightarrow> string \<Rightarrow> unit iam"
  ur_RolePrefix :: string
  ur_AWSPolicyName :: string
  ur_AWSRegion :: string
  ur_AWSAccountID :: string
  ur_AWSProfile :: string
  ur_AWSAccessKeyID :: string
  ur_AWSSecretAccessKey :: string
  ur_IAMPolicyPrefix :: string
  ur_AWSLoginRoles :: "string list"

definition userFinalizer :: string where
  "userFinalizer = ''postgresqluser.lunar.tech/finalizer''"

fun inList :: "string list \<Rightarrow> string \<Rightarrow> bool" where
  "inList [] needle = False"
| "inList (item # haystack) needle = (if item = needle then True else inList haystack needle)"

datatype AwsCredentials = SharedCredentials string string | StaticCredentials string string string

definition getCredentials :: "PostgreSQLUserReconciler \<Rightarrow> AwsCredentials" where
  "getCredentials r =
     (if ur_AWSProfile r \<noteq> [] then SharedCredentials [] (ur_AWSProfile r)
      else StaticCredentials (ur_AWSAccessKeyID r) (ur_AWSSecretAccessKey r) [])"

text \<open>The copy with a role name that PostgreSQL accepts.\<close>

definition sanitizedUser :: "PostgreSQLUser \<Rightarrow> PostgreSQLUser" where
  "sanitizedUser raw =
     raw\<lparr>pu_Spec := (pu_Spec raw)\<lparr>us_Name := ReplaceAll (us_Name (pu_Spec raw)) ''.'' ''_''\<rparr>\<rparr>"

definition requeueResult :: Result where
  "requeueResult = \<lparr>res_Requeue = True, res_RequeueAfter = 0\<rparr>"

definition finalizeUser :: "PostgreSQLUserReconciler \<Rightarrow> Client \<Rightarrow> PostgreSQLUser \<Rightarrow> (world, unit) step" where
  "finalizeUser r client user =
     on_aws (ur_RemoveIAMUser r client (ur_AWSLoginRoles r) (us_Name (pu_Spec user)))"

definition ensure_config :: "PostgreSQLUserReconciler \<Rightarrow> EnsureUserConfig" where
  "ensure_config r =
     \<lparr>euc_Region = ur_AWSRegion r, euc_AccountID = ur_AWSAccountID r, euc_PolicyBaseName = ur_AWSPolicyName r,
      euc_MaxUsersPerPolicy = 30, euc_RolePrefix = ur_RolePrefix r, euc_AWSLoginRoles = ur_AWSLoginRoles r\<rparr>"

definition iam_client :: "PostgreSQLUserReconciler \<Rightarrow> Client" where
  "iam_client r = NewClient (ur_AWSAccountID r) (ur_IAMPolicyPrefix r)"

text \<open>An error printed with \<open>%v\<close>.\<close>

definition show_err :: "(goerr \<Rightarrow> string) \<Rightarrow> goerr option \<Rightarrow> string" where
  "show_err render err = (case err of None \<Rightarrow> ''<nil>'' | Some e \<Rightarrow> render e)"

definition update_meta :: "api \<Rightarrow> (ObjectMeta \<Rightarrow> ObjectMeta) \<Rightarrow> PostgreSQLUser \<Rightarrow> (world, unit) step" where
  "update_meta api f user = kube_write (api_UpdateUser api) UpdateUser (user\<lparr>pu_Meta := f (pu_Meta user)\<rparr>)"

text \<open>The branch for a resource that is marked for deletion.\<close>

definition user_deletion ::
    "api \<Rightarrow> PostgreSQLUserReconciler \<Rightarrow> PostgreSQLUser \<Rightarrow> world \<Rightarrow> (Result \<times> goerr option) \<times> world" where
  "user_deletion api r user w =
     (if \<not> inList (om_Finalizers (pu_Meta user)) userFinalizer then ((no_requeue, None), w)
      else case finalizeUser r (iam_client r) user w of
        (Inl err, w1) \<Rightarrow> ((no_requeue, Some err), w1)
      | (Inr _, w1) \<Rightarrow>
          (case update_meta api (RemoveFinalizer userFinalizer) user w1 of
             (Inl err, w2) \<Rightarrow> ((no_requeue, Some err), w2)
           | (Inr _, w2) \<Rightarrow> ((requeueResult, None), w2)))"

text \<open>Roles on the hosts first, then the IAM policies, whatever the first returned.\<close>

definition user_sync ::
    "server \<Rightarrow> (goerr \<Rightarrow> string) \<Rightarrow> (HostAccess \<Rightarrow> HostAccess) \<Rightarrow> (HostAccess \<Rightarrow> HostAccess)
     \<Rightarrow> ((string, db) gomap \<Rightarrow> (string, db) gomap) \<Rightarrow> PostgreSQLUserReconciler \<Rightarrow> string \<Rightarrow> PostgreSQLUser \<Rightarrow> world
     \<Rightarrow> ((Result \<times> goerr option) \<times> world) option" where
  "user_sync srv render rngC rngR rngX r namespace user w =
     (let sanitized = sanitizedUser user
      in case SyncUser srv (ur_Granter r) rngC rngR rngX namespace (ur_RolePrefix r) sanitized (w_sql w) of
           None \<Rightarrow> None
         | Some (granterErr, h) \<Rightarrow>
             (case on_aws (ur_EnsureIAMUser r (iam_client r) (ensure_config r) (us_Name (pu_Spec user)) (us_Name (pu_Spec sanitized))) (w\<lparr>w_sql := h\<rparr>) of
                (awsRes, w2) \<Rightarrow>
                  let awsPolicyErr = (case awsRes of Inl e \<Rightarrow> Some e | Inr _ \<Rightarrow> None)
                  in if granterErr \<noteq> None \<or> awsPolicyErr \<noteq> None
                     then Some ((no_requeue, Some (Errorf ''grantErr: %v, awsPolicyErr: %v''
                            [show_err render granterErr, show_err render awsPolicyErr])), w2)
                     else Some ((no_requeue, None), w2)))"

definition user_reconcile ::
    "server \<Rightarrow> api \<Rightarrow> (goerr \<Rightarrow> string) \<Rightarrow> goerr option \<Rightarrow> (HostAccess \<Rightarrow> HostAccess) \<Rightarrow> (HostAccess \<Rightarrow> HostAccess)
     \<Rightarrow> ((string, db) gomap \<Rightarrow> (string, db) gomap) \<Rightarrow> PostgreSQLUserReconciler \<Rightarrow> Request \<Rightarrow> world
     \<Rightarrow> ((Result \<times> goerr option) \<times> world) option" where
  "user_reconcile srv api render session rngC rngR rngX r request w =
     (case api_GetUser api (req_Namespace request) (req_Name request) of
        Inl err \<Rightarrow> Some ((no_requeue, if IsNotFound err then None else Some err), w)
      | Inr user \<Rightarrow>
         (case session of
            Some err \<Rightarrow> Some ((no_requeue, Some (Wrapf ''session initialization for region %s: %w'' [ur_AWSRegion r] err)), w)
          | None \<Rightarrow>
              if om_DeletionTimestamp (pu_Meta user) \<noteq> None then Some (user_deletion api r user w)
              else if \<not> inList (om_Finalizers (pu_Meta user)) userFinalizer then
                (case update_meta api (AddFinalizer userFinalizer) user w of
                   (Inl err, w1) \<Rightarrow> Some ((no_requeue, Some err), w1)
                 | (Inr _, w1) \<Rightarrow> Some ((requeueResult, None), w1))
              else user_sync srv render rngC rngR rngX r (req_Namespace request) user w))"

text \<open>\<open>Reconcile\<close> logs the error and returns what \<open>reconcile\<close> returned.\<close>

definition user_Reconcile ::
    "server \<Rightarrow> api \<Rightarrow> (goerr \<Rightarrow> string) \<Rightarrow> goerr option \<Rightarrow> (HostAccess \<Rightarrow> HostAccess) \<Rightarrow> (HostAccess \<Rightarrow> HostAccess)
     \<Rightarrow> ((string, db) gomap \<Rightarrow> (string, db) gomap) \<Rightarrow> PostgreSQLUserReconciler \<Rightarrow> Request \<Rightarrow> world
     \<Rightarrow> ((Result \<times> goerr option) \<times> world) option" where
  "user_Reconcile srv api render session rngC rngR rngX r req w =
     user_reconcile srv api render session rngC rngR rngX r req w"

section \<open>Reconcilers that only read\<close>

definition host_credentials_reconcile :: "api \<Rightarrow> Request \<Rightarrow> Result \<times> goerr option" where
  "host_credentials_reconcile api request =
     (case api_GetHostCredentials api (req_Namespace request) (req_Name request) of
        Inl err \<Rightarrow> if IsNotFound err then (no_requeue, None) else (no_requeue, Some err)
      | Inr creds \<Rightarrow> (no_requeue, None))"

definition host_credentials_Reconcile :: "api \<Rightarrow> Request \<Rightarrow> Result \<times> goerr option" where
  "host_credentials_Reconcile api req = host_credentials_reconcile api req"

definition service_user_Reconcile :: "Request \<Rightarrow> Result \<times> goerr option" where
  "service_user_Reconcile req = (no_requeue, None)"

section \<open>Lemmas\<close>

lemma inList_iff [simp]: "inList xs x \<longleftrightarrow> x \<in> set xs"
  by (induction xs) auto

text \<open>The sanitized name has no full stop, and names that differ only in full stops and
  underscores are not told apart.\<close>

lemma ReplaceAll_char: "ReplaceAll s [a] [b] = map (\<lambda>c. if c = a then b else c) s"
proof (induction s)
  case Nil
  show ?case by (simp add: ReplaceAll.simps)
next
  case (Cons c s)
  then show ?case by (subst ReplaceAll.simps) auto
qed

lemma sanitizedUser_name:
  "us_Name (pu_Spec (sanitizedUser u)) = map (\<lambda>c. if c = CHR ''.'' then CHR ''_'' else c) (us_Name (pu_Spec u))"
  by (simp add: sanitizedUser_def ReplaceAll_char)

text \<open>A successful deletion: the IAM user was removed first, then the finalizer.\<close>

lemma user_deletion_log:
  assumes "user_deletion api r user w = (res, w')"
  shows "w_kube w' = w_kube w \<or>
    (\<exists>a. w_kube w' = w_kube w @ [UpdateUser (user\<lparr>pu_Meta := RemoveFinalizer userFinalizer (pu_Meta user)\<rparr>) a] \<and>
      ur_RemoveIAMUser r (iam_client r) (ur_AWSLoginRoles r) (us_Name (pu_Spec user)) (w_aws w) = (Inr (), w_aws w'))"
  using assms
  by (auto simp: user_deletion_def finalizeUser_def update_meta_def kube_write_def on_aws_def Let_def
      split: if_splits prod.splits sum.splits)

lemma user_sync_kube: "user_sync srv render rngC rngR rngX r ns user w = Some (res, w') \<Longrightarrow> w_kube w' = w_kube w"
  by (auto simp: user_sync_def Let_def on_aws_def split: option.splits prod.splits if_splits)

lemma user_reconcile_drops_finalizer:
  assumes run: "user_reconcile srv api render session rngC rngR rngX r req w = Some (res, w')"
    and ev: "w_kube w' = w_kube w @ [UpdateUser user' a]" "userFinalizer \<notin> set (om_Finalizers (pu_Meta user'))"
  shows "ur_RemoveIAMUser r (iam_client r) (ur_AWSLoginRoles r) (us_Name (pu_Spec user')) (w_aws w) = (Inr (), w_aws w')"
proof -
  obtain user where get: "api_GetUser api (req_Namespace req) (req_Name req) = Inr user"
    using run ev(1) by (cases "api_GetUser api (req_Namespace req) (req_Name req)") (auto simp: user_reconcile_def)
  have s: "session = None" using run ev(1) get by (cases session) (auto simp: user_reconcile_def)
  show ?thesis
  proof (cases "om_DeletionTimestamp (pu_Meta user) = None")
    case False
    with run get s have "user_deletion api r user w = (res, w')" by (simp add: user_reconcile_def)
    from user_deletion_log [OF this] ev(1) show ?thesis by auto
  next
    case True
    show ?thesis
    proof (cases "userFinalizer \<in> set (om_Finalizers (pu_Meta user))")
      case True
      with \<open>om_DeletionTimestamp (pu_Meta user) = None\<close> run get s
      have "user_sync srv render rngC rngR rngX r (req_Namespace req) user w = Some (res, w')"
        by (simp add: user_reconcile_def)
      from user_sync_kube [OF this] ev(1) show ?thesis by simp
    next
      case False
      with \<open>om_DeletionTimestamp (pu_Meta user) = None\<close> run get s
      have "w_kube w' = w_kube w @ [UpdateUser (user\<lparr>pu_Meta := AddFinalizer userFinalizer (pu_Meta user)\<rparr>) (api_UpdateUser api (w_kube w) (user\<lparr>pu_Meta := AddFinalizer userFinalizer (pu_Meta user)\<rparr>))]"
        by (auto simp: user_reconcile_def update_meta_def kube_write_def Let_def split: prod.splits sum.splits)
      with ev False show ?thesis by (auto simp: AddFinalizer_def split: if_splits)
    qed
  qed
qed

text \<open>Nothing is done on the hosts or in AWS for a resource without the finalizer.\<close>

lemma user_reconcile_no_finalizer:
  assumes "user_reconcile srv api render session rngC rngR rngX r req w = Some (res, w')"
    and "api_GetUser api (req_Namespace req) (req_Name req) = Inr user"
    and "userFinalizer \<notin> set (om_Finalizers (pu_Meta user))"
  shows "w_sql w' = w_sql w \<and> w_aws w' = w_aws w"
  using assms
  by (auto simp: user_reconcile_def user_deletion_def update_meta_def kube_write_def Let_def
      split: option.splits if_splits prod.splits sum.splits)

end
