(* ===== verification/Database_Controller.thy ===== *)
theory Database_Controller
  imports Controller_World Pg_Database
begin

text \<open>
  \<open>internal/controller/postgresqldatabase_controller.go\<close>: reconciling a \<open>PostgreSQLDatabase\<close>.
  \<open>render\<close> is \<open>error.Error\<close>, the text of an error; \<open>now\<close> the time of the status update.
\<close>

section \<open>The reconciler and its status\<close>

record PostgreSQLDatabaseReconciler =
  dr_ManagerRoleName :: string
  dr_SuperuserRoleName :: string
  dr_HostCredentials :: "(string, Credentials) gomap"

record status =
  st_database :: "PostgreSQLDatabase option"
  st_host :: string
  st_user :: string

definition no_status :: status where
  "no_status = \<lparr>st_database = None, st_host = [], st_user = []\<rparr>"

text \<open>The phase and the message an outcome is reported with.\<close>

definition outcome_phase :: "(goerr \<Rightarrow> string) \<Rightarrow> goerr option \<Rightarrow> PostgreSQLDatabasePhase \<times> string" where
  "outcome_phase render err =
     (case err of
        None \<Rightarrow> (PostgreSQLDatabasePhaseRunning, [])
      | Some e \<Rightarrow>
          (if IsInvalid e then PostgreSQLDatabasePhaseInvalid else PostgreSQLDatabasePhaseFailed, render e))"

definition status_update :: "(goerr \<Rightarrow> string) \<Rightarrow> gotime \<Rightarrow> goerr option \<Rightarrow> status \<Rightarrow> bool \<times> status" where
  "status_update render now err s =
     (case st_database s of
        None \<Rightarrow> (False, s)
      | Some database \<Rightarrow>
          let (phase, errorMessage) = outcome_phase render err; old = db_Status database
          in if dst_Phase old = phase \<and> dst_Error old = errorMessage \<and> dst_Host old = st_host s
             then (False, s)
             else (True, s\<lparr>st_database := Some (database\<lparr>db_Status :=
                    \<lparr>dst_PhaseUpdated = now, dst_Phase = phase, dst_Host = st_host s,
                     dst_User = st_user s, dst_Error = errorMessage\<rparr>\<rparr>)\<rparr>))"

text \<open>An error of the status update is only logged.\<close>

definition Persist :: "api \<Rightarrow> (goerr \<Rightarrow> string) \<Rightarrow> gotime \<Rightarrow> goerr option \<Rightarrow> status \<Rightarrow> world \<Rightarrow> world" where
  "Persist api render now err s w =
     (case status_update render now err s of
        (False, _) \<Rightarrow> w
      | (True, s') \<Rightarrow>
         (case st_database s' of
            None \<Rightarrow> w
          | Some db \<Rightarrow> snd (kube_write (api_StatusUpdateDatabase api) StatusUpdateDatabase db w)))"

definition requeueStrategy :: "goerr option \<Rightarrow> Result \<times> goerr option" where
  "requeueStrategy err =
     (case err of
        None \<Rightarrow> (no_requeue, None)
      | Some e \<Rightarrow>
          if IsInvalid e then (no_requeue, None)
          else if IsTemporary e then (\<lparr>res_Requeue = False, res_RequeueAfter = 10 * time_Second\<rparr>, None)
          else (\<lparr>res_Requeue = False, res_RequeueAfter = 10 * time_Second\<rparr>, None))"

section \<open>Administrator credentials\<close>

text \<open>\<open>if err != nil\<close> of a resolved value.\<close>

definition bind_err :: "goerr + 'a \<Rightarrow> (goerr \<Rightarrow> goerr) \<Rightarrow> ('a \<Rightarrow> goerr + 'b) \<Rightarrow> goerr + 'b" where
  "bind_err r wrap k = (case r of Inl e \<Rightarrow> Inl (wrap e) | Inr x \<Rightarrow> k x)"

definition remoteCredentials :: "api \<Rightarrow> string \<Rightarrow> string \<Rightarrow> goerr + string \<times> Credentials" where
  "remoteCredentials api namespace name =
     bind_err (api_GetHostCredentials api namespace name) (Wrapf ''get PostgreSQLHostCredentials resource: %w'' [])
     (\<lambda>hostCreds. let value = (\<lambda>f. ResourceValue (api_client api) (f (hc_Spec hostCreds)) (om_Namespace (hc_Meta hostCreds))) in
        bind_err (value hcs_User) (Wrapf ''resolve user resource var: %w'' [])
     (\<lambda>user. bind_err (value hcs_Password) (Wrapf ''resolve password resource var: %w'' [])
     (\<lambda>password. bind_err (value hcs_Host) (Wrapf ''resolve host resource var: %w'' [])
     (\<lambda>host. Inr (host, \<lparr>c_Name = user, c_User = user, c_Password = password, c_Shared = False,
                        c_Params = hcs_Params (hc_Spec hostCreds)\<rparr>)))))"

record adminCredentialsParams =
  acp_namespace :: string
  acp_host :: ResourceVar
  acp_hostCredentials :: string

definition exactly_one_error :: goerr where
  "exactly_one_error = Invalid (Errorf ''must specify exactly one of `host` and `hostCredentials`'' [])"

definition adminCredentials ::
    "PostgreSQLDatabaseReconciler \<Rightarrow> api \<Rightarrow> adminCredentialsParams \<Rightarrow> goerr + string \<times> Credentials" where
  "adminCredentials r api params =
     (let resolved = ResourceValue (api_client api) (acp_host params) (acp_namespace params)
      in case resolved of
           Inl err \<Rightarrow>
             if \<not> errors_Is err ErrNoValue then Inl (Wrapf ''resolve host reference: %w'' [] err)
             else if acp_hostCredentials params \<noteq> [] then
               bind_err (remoteCredentials api (acp_namespace params) (acp_hostCredentials params))
                 (Wrapf ''get remote credentials %s/%s: %w'' [acp_namespace params, acp_hostCredentials params]) Inr
             else Inl exactly_one_error
         | Inr host \<Rightarrow>
             if host = [] \<and> acp_hostCredentials params \<noteq> [] then
               bind_err (remoteCredentials api (acp_namespace params) (acp_hostCredentials params))
                 (Wrapf ''get remote credentials %s/%s: %w'' [acp_namespace params, acp_hostCredentials params]) Inr
             else if acp_hostCredentials params = [] \<and> host \<noteq> [] then
               (case gm_get (dr_HostCredentials r) host of
                  None \<Rightarrow> Inl (Invalid (Errorf ''unknown credentials for host'' []))
                | Some cs \<Rightarrow> Inr (host, cs))
             else Inl exactly_one_error)"

section \<open>Working on the host\<close>

definition prepareHost :: "server \<Rightarrow> PostgreSQLDatabaseReconciler \<Rightarrow> string \<Rightarrow> Credentials \<Rightarrow> unit act" where
  "prepareHost srv r host admin =
     onerr (Connect srv (admin_connection host ''postgres'' admin)) (Wrapf ''prepare host %s: connect: %w'' [host])
     (\<lambda>d. deferring (db_Close srv d)
        (onerr (Preflight srv d (dr_SuperuserRoleName r)) id
        (\<lambda>_. onerr (EnsureManagerRole srv d (dr_ManagerRoleName r))
               (Wrapf ''prepare host %s: ensure management role: %w'' [host]) ok)))"

definition fromApiExtensions :: "PostgreSQLDatabaseExtension list \<Rightarrow> Extension list" where
  "fromApiExtensions extensions = map (\<lambda>e. NewExtension (ExtensionName e)) extensions"

record EnsureParams =
  ep_Host :: string
  ep_Admin :: Credentials
  ep_ManagerRole :: string
  ep_Extensions :: "Extension list"
  ep_Target :: Credentials

definition EnsurePostgreSQLDatabase :: "server \<Rightarrow> EnsureParams \<Rightarrow> unit act" where
  "EnsurePostgreSQLDatabase srv params =
     onerr (Database srv (ep_Host params) (ep_Admin params) (ep_Target params) (ep_ManagerRole params) (ep_Extensions params))
       (Wrapf ''create database %s on host %s: %w'' [c_Name (ep_Target params), ep_Host params]) ok"

section \<open>Reconciling\<close>

text \<open>The user of the database: the reference, or the database name when the reference cannot be
  resolved for a reason that makes the resource invalid.\<close>

definition database_user :: "api \<Rightarrow> string \<Rightarrow> PostgreSQLDatabaseSpec \<Rightarrow> goerr + string" where
  "database_user api ns spec =
     (case ResourceValue (api_client api) (ds_User spec) ns of
        Inr user \<Rightarrow> Inr user
      | Inl err \<Rightarrow>
          if \<not> IsInvalid err then Inl (Wrapf ''resolve user reference: %w'' [] err) else Inr (ds_Name spec))"

definition database_password :: "api \<Rightarrow> string \<Rightarrow> PostgreSQLDatabaseSpec \<Rightarrow> goerr + string" where
  "database_password api ns spec =
     (case ds_Password spec of
        None \<Rightarrow> Inr []
      | Some ref \<Rightarrow>
          bind_err (ResourceValue (api_client api) ref ns) (Wrapf ''resolve password reference: %w'' []) Inr)"

definition ensure_params ::
    "PostgreSQLDatabaseReconciler \<Rightarrow> string \<Rightarrow> Credentials \<Rightarrow> PostgreSQLDatabaseSpec \<Rightarrow> string \<Rightarrow> string \<Rightarrow> EnsureParams" where
  "ensure_params r host admin spec user password =
     \<lparr>ep_Host = host, ep_Admin = admin, ep_ManagerRole = dr_ManagerRoleName r,
      ep_Extensions = fromApiExtensions (ds_Extensions spec),
      ep_Target = \<lparr>c_Name = ds_Name spec, c_User = user, c_Password = password, c_Shared = ds_IsShared spec, c_Params = []\<rparr>\<rparr>"

definition database_reconcile ::
    "server \<Rightarrow> api \<Rightarrow> PostgreSQLDatabaseReconciler \<Rightarrow> Request \<Rightarrow> world \<Rightarrow> (status \<times> goerr option) \<times> world" where
  "database_reconcile srv api r request w =
     (case api_GetDatabase api (req_Namespace request) (req_Name request) of
        Inl err \<Rightarrow> ((no_status, if IsNotFound err then None else Some err), w)
      | Inr database \<Rightarrow>
        let spec = db_Spec database; ns = req_Namespace request;
            st = no_status\<lparr>st_database := Some database\<rparr>
        in case adminCredentials r api \<lparr>acp_namespace = ns, acp_host = ds_Host spec, acp_hostCredentials = ds_HostCredentials spec\<rparr> of
             Inl err \<Rightarrow> ((st, Some (Wrapf ''determining host credentials: %w'' [] err)), w)
           | Inr (host, admin) \<Rightarrow>
             let st = st\<lparr>st_host := host\<rparr>
             in case on_sql (prepareHost srv r host admin) w of
                  (Inl err, w1) \<Rightarrow> ((st, Some err), w1)
                | (Inr _, w1) \<Rightarrow>
                  (case database_user api ns spec of
                     Inl err \<Rightarrow> ((st, Some err), w1)
                   | Inr user \<Rightarrow>
                     let st = st\<lparr>st_user := user\<rparr>
                     in case database_password api ns spec of
                          Inl err \<Rightarrow> ((st, Some err), w1)
                        | Inr password \<Rightarrow>
                          (case on_sql (EnsurePostgreSQLDatabase srv (ensure_params r host admin spec user password)) w1 of
                             (Inl err, w2) \<Rightarrow> ((st, Some (Wrapf ''ensure database: %w'' [] err)), w2)
                           | (Inr _, w2) \<Rightarrow> ((st, None), w2))))"

definition database_Reconcile ::
    "server \<Rightarrow> api \<Rightarrow> (goerr \<Rightarrow> string) \<Rightarrow> gotime \<Rightarrow> PostgreSQLDatabaseReconciler \<Rightarrow> Request \<Rightarrow> world
     \<Rightarrow> (Result \<times> goerr option) \<times> world" where
  "database_Reconcile srv api render now r req w =
     (case database_reconcile srv api r req w of
        ((st, err), w1) \<Rightarrow> (requeueStrategy err, Persist api render now err st w1))"

section \<open>Lemmas\<close>

lemma bind_err_Inr: "bind_err r wrap k = Inr y \<longleftrightarrow> (\<exists>x. r = Inr x \<and> k x = Inr y)"
  by (simp add: bind_err_def split: sum.splits)

lemma balanced_pure: "(\<And>h. snd (m h) = h) \<Longrightarrow> balanced m"
  by (simp add: balanced_def preserves_def)

lemma balanced_scan [balanced_intros]:
  assumes "balanced m"
  shows "balanced (\<lambda>h. case m h of (Inl e, h1) \<Rightarrow> (Inl e, h1) | (Inr x, h1) \<Rightarrow> (scan x, h1))"
proof -
  have "snd (case m h of (Inl e, h1) \<Rightarrow> (Inl e, h1) | (Inr x, h1) \<Rightarrow> (scan x, h1)) = snd (m h)" for h
    by (simp split: prod.split sum.split)
  with assms show ?thesis by (simp add: balanced_def preserves_def)
qed

lemma balanced_QueryRow [balanced_intros]: "balanced (db_QueryRow srv d q as)"
  unfolding db_QueryRow_def
  by (intro balanced_steps balanced_calls balanced_pure) (simp split: rows.split list.split option.split)

lemma balanced_Preflight [balanced_intros]: "balanced (Preflight srv d role)"
  unfolding Preflight_def assertSuperuserRoleMembership_def
  by (intro balanced_steps balanced_calls balanced_scan balanced_QueryRow) (auto intro: balanced_steps)

lemma balanced_EnsureManagerRole [balanced_intros]: "balanced (EnsureManagerRole srv d role)"
  unfolding EnsureManagerRole_def by (intro balanced_intros)

lemma balanced_prepareHost: "balanced (prepareHost srv r host admin)"
  unfolding prepareHost_def by (intro balanced_intros)

lemma balanced_EnsurePostgreSQLDatabase: "balanced (EnsurePostgreSQLDatabase srv params)"
  unfolding EnsurePostgreSQLDatabase_def by (intro balanced_intros balanced_Database)

lemma status_update_phase:
  "status_update render now err s = (True, s') \<Longrightarrow> st_database s' = Some db \<Longrightarrow>
     dst_Phase (db_Status db) = fst (outcome_phase render err)"
  by (auto simp: status_update_def Let_def split: option.splits prod.splits if_splits)

text \<open>What one reconciliation appends to the log of the API server.\<close>

lemma Persist_log:
  "\<exists>new. w_kube (Persist api render now err s w) = w_kube w @ new \<and> length new \<le> 1 \<and>
     (\<forall>ev\<in>set new. \<exists>db r. ev = StatusUpdateDatabase db r \<and> dst_Phase (db_Status db) = fst (outcome_phase render err))"
proof -
  obtain b s' where u: "status_update render now err s = (b, s')" by (cases "status_update render now err s")
  show ?thesis
  proof (cases "b \<and> st_database s' \<noteq> None")
    case True
    then obtain db where "st_database s' = Some db" by auto
    with u True status_update_phase show ?thesis by (fastforce simp: Persist_def kube_write_def Let_def)
  next
    case False
    with u have "Persist api render now err s w = w" by (auto simp: Persist_def split: bool.splits)
    then show ?thesis by simp
  qed
qed

lemma Persist_sql [simp]: "w_sql (Persist api render now err s w) = w_sql w"
  by (auto simp: Persist_def split: prod.splits bool.splits option.splits)

lemma database_reconcile_kube: "w_kube (snd (database_reconcile srv api r req w)) = w_kube w"
  by (auto simp: database_reconcile_def Let_def on_sql_def split: sum.splits prod.splits)

lemma on_sql_conn:
  assumes "balanced m" and "on_sql m w = (x, w1)" and "settled (w_sql w)"
  shows "conns (w_sql w1) = conns (w_sql w) \<and> settled (w_sql w1)"
  using balancedD [OF assms(1,3)] assms(2) by (auto simp: on_sql_def split: prod.splits)

lemma database_reconcile_conns:
  assumes "settled (w_sql w)"
  shows "conns (w_sql (snd (database_reconcile srv api r req w))) = conns (w_sql w)"
  using on_sql_conn [OF balanced_prepareHost _ assms] on_sql_conn [OF balanced_EnsurePostgreSQLDatabase]
  by (fastforce simp: database_reconcile_def Let_def split: sum.splits prod.splits)

section \<open>Properties\<close>

text \<open>C31. Administrator credentials come from exactly one place. They are returned either from
  the controller's own map for the host the resource names, when it names no
  \<open>PostgreSQLHostCredentials\<close>, or from that resource, when it names no host. A resource that names
  both is rejected as invalid, and so is one that names neither.\<close>

theorem adminCredentials_exactly_one:
  fixes params :: adminCredentialsParams and api :: api
  defines "resolved \<equiv> ResourceValue (api_client api) (acp_host params) (acp_namespace params)"
  shows "(adminCredentials r api params = Inr (host, cs) \<longrightarrow>
      (acp_hostCredentials params = [] \<and> resolved = Inr host \<and> host \<noteq> [] \<and> gm_get (dr_HostCredentials r) host = Some cs) \<or>
      (acp_hostCredentials params \<noteq> [] \<and> (resolved = Inr [] \<or> (\<exists>e. resolved = Inl e \<and> errors_Is e ErrNoValue))
        \<and> remoteCredentials api (acp_namespace params) (acp_hostCredentials params) = Inr (host, cs)))
    \<and> (resolved = Inr host \<and> host \<noteq> [] \<and> acp_hostCredentials params \<noteq> [] \<longrightarrow>
        adminCredentials r api params = Inl exactly_one_error)
    \<and> (resolved = Inl ErrNoValue \<and> acp_hostCredentials params = [] \<longrightarrow>
        adminCredentials r api params = Inl exactly_one_error)
    \<and> IsInvalid exactly_one_error"
  by (auto simp: adminCredentials_def Let_def bind_err_def exactly_one_error_def resolved_def
      split: sum.splits if_splits option.splits)

text \<open>C32. The phase a reconciliation reports and what happens to the resource afterwards agree: at
  most one status update is sent; with phase \<open>Failed\<close> the resource is tried again after ten
  seconds, with \<open>Running\<close> or \<open>Invalid\<close> it is not; and the runtime is never handed an error, so it
  never retries on its own.\<close>

theorem database_Reconcile_outcome:
  assumes "database_Reconcile srv api render now r req w = ((res, err), w')"
  shows "err = None \<and> res_Requeue res = False \<and>
    (\<exists>new. w_kube w' = w_kube w @ new \<and> length new \<le> 1 \<and>
      (\<forall>ev\<in>set new. \<exists>db a. ev = StatusUpdateDatabase db a \<and>
         (if dst_Phase (db_Status db) = PostgreSQLDatabasePhaseFailed then res_RequeueAfter res = 10 * time_Second
          else res_RequeueAfter res = 0 \<and> dst_Phase (db_Status db) \<in> {PostgreSQLDatabasePhaseRunning, PostgreSQLDatabasePhaseInvalid})))"
proof -
  obtain st e w1 where rec: "database_reconcile srv api r req w = ((st, e), w1)" by (metis prod.exhaust)
  with assms have res: "(res, err) = requeueStrategy e" and w': "w' = Persist api render now e st w1"
    by (auto simp: database_Reconcile_def)
  have "w_kube w1 = w_kube w" using database_reconcile_kube [of srv api r req w] rec by simp
  with Persist_log [of api render now e st w1] w' obtain new where new: "w_kube w' = w_kube w @ new" "length new \<le> 1"
    "\<forall>ev\<in>set new. \<exists>db a. ev = StatusUpdateDatabase db a \<and> dst_Phase (db_Status db) = fst (outcome_phase render e)"
    by auto
  have phase: "if fst (outcome_phase render e) = PostgreSQLDatabasePhaseFailed then res_RequeueAfter res = 10 * time_Second
      else res_RequeueAfter res = 0 \<and> fst (outcome_phase render e) \<in> {PostgreSQLDatabasePhaseRunning, PostgreSQLDatabasePhaseInvalid}"
    using res by (auto simp: outcome_phase_def requeueStrategy_def no_requeue_def split: option.splits if_splits)
  have "err = None \<and> res_Requeue res = False"
    using res by (auto simp: requeueStrategy_def no_requeue_def split: option.splits if_splits)
  with new phase show ?thesis by fastforce
qed

section \<open>Witnesses\<close>

definition demo_meta :: ObjectMeta where
  "demo_meta = \<lparr>om_Name = ''app'', om_Namespace = ''ns'', om_Finalizers = [], om_DeletionTimestamp = None\<rparr>"

definition demo_database :: PostgreSQLDatabase where
  "demo_database = \<lparr>db_Meta = demo_meta,
     db_Spec = \<lparr>ds_Name = ''app'', ds_User = static_var [], ds_Password = None, ds_IsShared = False,
       ds_Host = static_var ''db'', ds_HostCredentials = ''other'', ds_Extensions = []\<rparr>,
     db_Status = \<lparr>dst_PhaseUpdated = 0, dst_Phase = PostgreSQLDatabasePhaseNone, dst_Host = [], dst_User = [], dst_Error = []\<rparr>\<rparr>"

text \<open>A cluster with this one resource, which names both a host and host credentials.\<close>

definition demo_api :: api where
  "demo_api = \<lparr>
     api_client = \<lparr>get_Secret = (\<lambda>_ _. Inl (ApiError True [])), get_ConfigMap = (\<lambda>_ _. Inl (ApiError True [])),
       list_Databases = (\<lambda>_. Inr [])\<rparr>,
     api_GetDatabase = (\<lambda>_ _. Inr demo_database),
     api_GetHostCredentials = (\<lambda>_ _. Inl (ApiError True [])),
     api_GetUser = (\<lambda>_ _. Inl (ApiError True [])),
     api_GetCustomRole = (\<lambda>_ _. Inl (ApiError True [])),
     api_ListCustomRoles = (\<lambda>_. Inr []),
     api_UpdateUser = (\<lambda>_ _. None), api_UpdateCustomRole = (\<lambda>_ _. None),
     api_StatusUpdateDatabase = (\<lambda>_ _. None), api_StatusUpdateCustomRole = (\<lambda>_ _. None)\<rparr>"

definition demo_reconciler :: PostgreSQLDatabaseReconciler where
  "demo_reconciler = \<lparr>dr_ManagerRoleName = ''manager'', dr_SuperuserRoleName = ''rds_superuser'',
     dr_HostCredentials = [(''db'', no_credentials\<lparr>c_User := ''admin''\<rparr>)]\<rparr>"

definition empty_world :: world where
  "empty_world = \<lparr>w_sql = [], w_aws = [], w_kube = []\<rparr>"

theorem adminCredentials_exactly_one_witness:
  "adminCredentials demo_reconciler demo_api \<lparr>acp_namespace = ''ns'', acp_host = static_var ''db'', acp_hostCredentials = ''other''\<rparr>
     = Inl exactly_one_error"
  using adminCredentials_exactly_one [of demo_reconciler demo_api
      "\<lparr>acp_namespace = ''ns'', acp_host = static_var ''db'', acp_hostCredentials = ''other''\<rparr>" "''db''"]
  by (simp add: kube.resolve_static)

theorem database_Reconcile_outcome_witness:
  "\<exists>res err w'. database_Reconcile (ref_server id (\<lambda>_. [])) demo_api (\<lambda>_. ''invalid'') 7 demo_reconciler \<lparr>req_Namespace = ''ns'', req_Name = ''app''\<rparr> empty_world = ((res, err), w')
    \<and> err = None \<and> length (w_kube w') = 1"
proof -
  let ?run = "database_Reconcile (ref_server id (\<lambda>_. [])) demo_api (\<lambda>_. ''invalid'') 7 demo_reconciler \<lparr>req_Namespace = ''ns'', req_Name = ''app''\<rparr> empty_world"
  obtain res err w' where run: "?run = ((res, err), w')" by (metis prod.exhaust)
  have "length (w_kube (snd ?run)) = 1" by code_simp
  with database_Reconcile_outcome [OF run] run show ?thesis by simp
qed

end
