(* ===== verification/CustomRole_Controller.thy ===== *)
theory CustomRole_Controller
  imports Database_Controller Custom_Grants Custom_Functions
begin

text \<open>
  \<open>internal/controller/customrole_controller.go\<close>, \<open>customrole_roles.go\<close>, \<open>customrole_grants.go\<close> and
  \<open>customrole_functions.go\<close>: reconciling a \<open>CustomRole\<close> on all hosts.

  \<open>choices\<close> collects what the source leaves to Go: the orders of ranging over maps, the
  Unicode tables and the random dollar tags; each may differ from call to call, so they are
  functions of the history. A nil slice of database names is the empty list: the source's
  lists are nil exactly when nothing was appended to them.
\<close>

section \<open>The reconciler\<close>

record CustomRoleReconciler =
  crr_SuperuserRoleName :: string
  crr_HostCredentials :: "(string, Credentials) gomap"

record choices =
  ch_hosts :: "(string \<times> Credentials) list \<Rightarrow> (string \<times> Credentials) list"
  ch_uni :: "string \<Rightarrow> string"
  ch_sync :: "history \<Rightarrow> sync_orders"
  ch_rnd :: "history \<Rightarrow> nat \<Rightarrow> string"
  ch_revoke :: "history \<Rightarrow> string \<Rightarrow> string list \<Rightarrow> string list"

definition customRoleFinalizer :: string where
  "customRoleFinalizer = ''customrole.postgresql.lunar.tech/finalizer''"

definition toPostgresGrants :: "CustomRoleGrantSpec list \<Rightarrow> CustomRoleGrant list" where
  "toPostgresGrants grants =
     map (\<lambda>g. \<lparr>gr_Schema = crg_Schema g, gr_Table = crg_Table g, gr_Privileges = crg_Privileges g\<rparr>) grants"

definition toPostgresFunctions :: "CustomRoleFunctionSpec list \<Rightarrow> CustomRoleFunction list" where
  "toPostgresFunctions fs =
     map (\<lambda>f. \<lparr>fn_Name = crf_Name f, fn_Args = crf_Args f, fn_Returns = crf_Returns f,
               fn_OwningRole = crf_OwningRole f, fn_Body = crf_Body f\<rparr>) fs"

section \<open>Watching databases\<close>

text \<open>The update predicate of the watch on databases.\<close>

definition database_became_running :: "PostgreSQLDatabase \<Rightarrow> PostgreSQLDatabase \<Rightarrow> bool" where
  "database_became_running oldDB newDB =
     (dst_Phase (db_Status oldDB) \<noteq> PostgreSQLDatabasePhaseRunning \<and>
      dst_Phase (db_Status newDB) = PostgreSQLDatabasePhaseRunning)"

definition mapDatabaseToCustomRoles :: "api \<Rightarrow> PostgreSQLDatabase \<Rightarrow> Request list" where
  "mapDatabaseToCustomRoles api obj =
     (case api_ListCustomRoles api (om_Namespace (db_Meta obj)) of
        Inl err \<Rightarrow> []
      | Inr items \<Rightarrow> map (\<lambda>cr. \<lparr>req_Namespace = om_Namespace (cr_Meta cr), req_Name = om_Name (cr_Meta cr)\<rparr>) items)"

section \<open>One host\<close>

definition resolveTargetDatabases :: "server \<Rightarrow> db \<Rightarrow> string list \<Rightarrow> (string list \<times> string list) act" where
  "resolveTargetDatabases srv adminDB targetDatabases =
     (if targetDatabases \<noteq> [] then
        let databases = filter (\<lambda>db. db \<notin> set ReservedSystemDatabases) targetDatabases
        in onerr (UserDatabases srv adminDB) (Wrapf ''list databases for cleanup: %w'' [])
             (\<lambda>allUserDatabases. ok (databases, allUserDatabases))
      else onerr (UserDatabases srv adminDB) (Wrapf ''list databases: %w'' [])
             (\<lambda>databases. ok (databases, [])))"

definition reconcileRoleOnHost :: "server \<Rightarrow> db \<Rightarrow> string \<Rightarrow> string list \<Rightarrow> unit act" where
  "reconcileRoleOnHost srv adminDB roleName grantRoles =
     onerr (EnsureCustomRole srv adminDB roleName grantRoles) (Wrapf ''ensure role: %w'' []) ok"

definition syncGrantsOnDatabase ::
    "server \<Rightarrow> choices \<Rightarrow> string \<Rightarrow> Credentials \<Rightarrow> string \<Rightarrow> string \<Rightarrow> CustomRoleGrant list \<Rightarrow> unit act" where
  "syncGrantsOnDatabase srv ch host admin roleName dbName grants =
     (let connStr = admin_connection host dbName admin
      in onerr (Connect srv connStr) (Wrapf ''connect to %s: %w'' [String connStr])
           (\<lambda>d. deferring (db_Close srv d)
              (\<lambda>h. SyncDatabaseGrants srv (ch_uni ch) (ch_sync ch h) d roleName grants h)))"

text \<open>The two loops of \<open>reconcileGrantsOnHost\<close> are recursive functions, with the early exits of the
  source's loop bodies.\<close>

fun apply_grants_loop ::
    "server \<Rightarrow> choices \<Rightarrow> string \<Rightarrow> Credentials \<Rightarrow> string \<Rightarrow> CustomRoleGrant list \<Rightarrow> string list \<Rightarrow> unit act" where
  "apply_grants_loop srv ch host creds roleName grants [] = ok ()"
| "apply_grants_loop srv ch host creds roleName grants (dbName # dbs) =
     (if dbName = ''postgres'' then apply_grants_loop srv ch host creds roleName grants dbs
      else onerr (syncGrantsOnDatabase srv ch host creds roleName dbName grants)
             (Wrapf ''sync grants on database %s: %w'' [dbName])
             (\<lambda>_. apply_grants_loop srv ch host creds roleName grants dbs))"

fun cleanup_grants_loop ::
    "server \<Rightarrow> choices \<Rightarrow> string \<Rightarrow> Credentials \<Rightarrow> string \<Rightarrow> string list \<Rightarrow> string list \<Rightarrow> unit act" where
  "cleanup_grants_loop srv ch host creds roleName targetSet [] = ok ()"
| "cleanup_grants_loop srv ch host creds roleName targetSet (dbName # dbs) =
     (if dbName \<in> set targetSet then cleanup_grants_loop srv ch host creds roleName targetSet dbs
      else onerr (syncGrantsOnDatabase srv ch host creds roleName dbName [])
             (Wrapf ''cleanup grants on database %s: %w'' [dbName])
             (\<lambda>_. cleanup_grants_loop srv ch host creds roleName targetSet dbs))"

definition reconcileGrantsOnHost ::
    "server \<Rightarrow> choices \<Rightarrow> string \<Rightarrow> Credentials \<Rightarrow> string \<Rightarrow> string list \<Rightarrow> string list \<Rightarrow> CustomRoleGrant list \<Rightarrow> unit act" where
  "reconcileGrantsOnHost srv ch host creds roleName databases allUserDatabases grants =
     onerr (apply_grants_loop srv ch host creds roleName grants databases) id
     (\<lambda>_. if allUserDatabases = [] then ok ()
          else cleanup_grants_loop srv ch host creds roleName databases allUserDatabases)"

definition sync_functions ::
    "server \<Rightarrow> choices \<Rightarrow> db \<Rightarrow> string \<Rightarrow> CustomRoleFunction list \<Rightarrow> unit act" where
  "sync_functions srv ch d roleName fs h = SyncDatabaseFunctions srv (ch_uni ch) (ch_rnd ch h) d roleName fs h"

definition syncFunctionsOnDatabase ::
    "server \<Rightarrow> choices \<Rightarrow> string \<Rightarrow> Credentials \<Rightarrow> string \<Rightarrow> string \<Rightarrow> CustomRoleFunction list \<Rightarrow> unit act" where
  "syncFunctionsOnDatabase srv ch host admin roleName dbName fs =
     (let connStr = admin_connection host dbName admin
      in onerr (Connect srv connStr) (Wrapf ''connect to %s: %w'' [String connStr])
           (\<lambda>d. deferring (db_Close srv d) (sync_functions srv ch d roleName fs)))"

fun apply_functions_loop ::
    "server \<Rightarrow> choices \<Rightarrow> string \<Rightarrow> Credentials \<Rightarrow> db \<Rightarrow> string \<Rightarrow> CustomRoleFunction list \<Rightarrow> string list \<Rightarrow> unit act" where
  "apply_functions_loop srv ch host creds adminDB roleName fs [] = ok ()"
| "apply_functions_loop srv ch host creds adminDB roleName fs (dbName # dbs) =
     (if dbName = ''postgres'' then
        onerr (sync_functions srv ch adminDB roleName fs) (Wrapf ''sync functions on database postgres: %w'' [])
          (\<lambda>_. apply_functions_loop srv ch host creds adminDB roleName fs dbs)
      else onerr (syncFunctionsOnDatabase srv ch host creds roleName dbName fs)
             (Wrapf ''sync functions on database %s: %w'' [dbName])
             (\<lambda>_. apply_functions_loop srv ch host creds adminDB roleName fs dbs))"

fun cleanup_functions_loop ::
    "server \<Rightarrow> choices \<Rightarrow> string \<Rightarrow> Credentials \<Rightarrow> string \<Rightarrow> string list \<Rightarrow> string list \<Rightarrow> unit act" where
  "cleanup_functions_loop srv ch host creds roleName targetSet [] = ok ()"
| "cleanup_functions_loop srv ch host creds roleName targetSet (dbName # dbs) =
     (if dbName \<in> set targetSet then cleanup_functions_loop srv ch host creds roleName targetSet dbs
      else onerr (syncFunctionsOnDatabase srv ch host creds roleName dbName [])
             (Wrapf ''cleanup functions on database %s: %w'' [dbName])
             (\<lambda>_. cleanup_functions_loop srv ch host creds roleName targetSet dbs))"

definition cleanup_postgres_functions :: "server \<Rightarrow> choices \<Rightarrow> db \<Rightarrow> string \<Rightarrow> unit act" where
  "cleanup_postgres_functions srv ch adminDB roleName =
     onerr (sync_functions srv ch adminDB roleName []) (Wrapf ''cleanup functions on database postgres: %w'' []) ok"

definition reconcileFunctionsOnHost ::
    "server \<Rightarrow> choices \<Rightarrow> string \<Rightarrow> Credentials \<Rightarrow> db \<Rightarrow> string \<Rightarrow> string list \<Rightarrow> string list \<Rightarrow> CustomRoleFunction list \<Rightarrow> unit act" where
  "reconcileFunctionsOnHost srv ch host creds adminDB roleName databases allUserDatabases fs =
     onerr (if allUserDatabases = [] then cleanup_postgres_functions srv ch adminDB roleName else ok ()) id
     (\<lambda>_. onerr (apply_functions_loop srv ch host creds adminDB roleName fs databases) id
     (\<lambda>_. if allUserDatabases = [] then ok ()
          else onerr (if ''postgres'' \<notin> set databases then cleanup_postgres_functions srv ch adminDB roleName else ok ()) id
            (\<lambda>_. cleanup_functions_loop srv ch host creds roleName databases allUserDatabases)))"

definition reconcileOnHost ::
    "server \<Rightarrow> choices \<Rightarrow> CustomRoleReconciler \<Rightarrow> string \<Rightarrow> Credentials \<Rightarrow> string \<Rightarrow> string list \<Rightarrow> string list
     \<Rightarrow> CustomRoleGrant list \<Rightarrow> CustomRoleFunction list \<Rightarrow> unit act" where
  "reconcileOnHost srv ch r host creds roleName grantRoles targetDatabases grants fs =
     onerr (Connect srv (admin_connection host ''postgres'' creds)) (Wrapf ''connect to host: %w'' [])
     (\<lambda>adminDB. deferring (db_Close srv adminDB)
        (onerr (Preflight srv adminDB (crr_SuperuserRoleName r)) id
        (\<lambda>_. onerr (resolveTargetDatabases srv adminDB targetDatabases) id
        (\<lambda>(databases, allUserDatabases). onerr (reconcileRoleOnHost srv adminDB roleName grantRoles) id
        (\<lambda>_. onerr (reconcileGrantsOnHost srv ch host creds roleName databases allUserDatabases grants) id
        (\<lambda>_. onerr (reconcileFunctionsOnHost srv ch host creds adminDB roleName databases allUserDatabases fs) id ok))))))"

section \<open>Cleaning up\<close>

text \<open>One database of the loop: the functions, then the grants; the connection is closed on every
  way out.\<close>

definition cleanup_database ::
    "server \<Rightarrow> choices \<Rightarrow> string \<Rightarrow> Credentials \<Rightarrow> string \<Rightarrow> string \<Rightarrow> unit act" where
  "cleanup_database srv ch host creds roleName dbName =
     onerr (Connect srv (admin_connection host dbName creds)) (Wrapf ''connect to %s: %w'' [dbName])
     (\<lambda>d. deferring (db_Close srv d)
        (onerr (DropManagedFunctions srv d roleName) (Wrapf ''drop functions in database %s: %w'' [dbName])
        (\<lambda>_. onerr (\<lambda>h. RevokeAllDatabaseGrants srv (ch_revoke ch h) d roleName h)
               (Wrapf ''revoke grants in database %s: %w'' [dbName]) ok)))"

definition cleanupRoleOnHost ::
    "server \<Rightarrow> choices \<Rightarrow> string \<Rightarrow> Credentials \<Rightarrow> string \<Rightarrow> unit act" where
  "cleanupRoleOnHost srv ch host creds roleName =
     onerr (Connect srv (admin_connection host ''postgres'' creds)) (Wrapf ''connect to host: %w'' [])
     (\<lambda>adminDB. deferring (db_Close srv adminDB)
        (onerr (UserDatabases srv adminDB) (Wrapf ''list databases: %w'' [])
        (\<lambda>databases. onerr (for_each (cleanup_database srv ch host creds roleName) databases) id
        (\<lambda>_. onerr (DropManagedFunctions srv adminDB roleName) (Wrapf ''drop functions in postgres database: %w'' [])
        (\<lambda>_. DropCustomRole srv adminDB roleName)))))"

definition cleanupRole :: "server \<Rightarrow> choices \<Rightarrow> CustomRoleReconciler \<Rightarrow> string \<Rightarrow> unit act" where
  "cleanupRole srv ch r roleName =
     for_each (\<lambda>(host, creds). onerr (cleanupRoleOnHost srv ch host creds roleName) (Wrapf ''cleanup on host %s: %w'' [host]) ok)
       (ch_hosts ch (crr_HostCredentials r))"

section \<open>Status and reconciling\<close>

text \<open>Phase, message and failing host of an outcome.\<close>

definition role_outcome ::
    "(goerr \<Rightarrow> string) \<Rightarrow> string \<Rightarrow> goerr option \<Rightarrow> CustomRolePhase \<times> string \<times> string" where
  "role_outcome render failingHost reconcileErr =
     (case reconcileErr of
        None \<Rightarrow> (CustomRolePhaseRunning, [], [])
      | Some e \<Rightarrow>
          if IsInvalid e then (CustomRolePhaseInvalid, render e, [])
          else (CustomRolePhaseFailed, render e, failingHost))"

definition persistStatus ::
    "api \<Rightarrow> (goerr \<Rightarrow> string) \<Rightarrow> gotime \<Rightarrow> CustomRole \<Rightarrow> string \<Rightarrow> goerr option \<Rightarrow> world \<Rightarrow> world" where
  "persistStatus api render now customRole failingHost reconcileErr w =
     (case role_outcome render failingHost reconcileErr of
        (phase, errorMessage, failing) \<Rightarrow>
          if IsUnchanged (cr_Status customRole) phase errorMessage failing then w
          else snd (kube_write (api_StatusUpdateCustomRole api) StatusUpdateCustomRole
                 (customRole\<lparr>cr_Status := \<lparr>crst_Phase = phase, crst_PhaseUpdated = now,
                                         crst_Error = errorMessage, crst_FailingHost = failing\<rparr>\<rparr>) w))"

definition customRoleRequeueStrategy :: "goerr option \<Rightarrow> Result \<times> goerr option" where
  "customRoleRequeueStrategy err =
     (case err of
        None \<Rightarrow> (no_requeue, None)
      | Some e \<Rightarrow>
          if IsInvalid e then (no_requeue, None)
          else if IsTemporary e then (\<lparr>res_Requeue = False, res_RequeueAfter = 10 * time_Second\<rparr>, None)
          else (\<lparr>res_Requeue = False, res_RequeueAfter = 10 * time_Second\<rparr>, None))"

definition update_role_meta :: "api \<Rightarrow> (ObjectMeta \<Rightarrow> ObjectMeta) \<Rightarrow> CustomRole \<Rightarrow> (world, unit) step" where
  "update_role_meta api f cr = kube_write (api_UpdateCustomRole api) UpdateCustomRole (cr\<lparr>cr_Meta := f (cr_Meta cr)\<rparr>)"

text \<open>The loop over the hosts: the first failing host ends it and is reported.\<close>

fun hosts_loop ::
    "server \<Rightarrow> api \<Rightarrow> (goerr \<Rightarrow> string) \<Rightarrow> gotime \<Rightarrow> choices \<Rightarrow> CustomRoleReconciler \<Rightarrow> CustomRole
     \<Rightarrow> (string \<times> Credentials) list \<Rightarrow> world \<Rightarrow> goerr option \<times> world" where
  "hosts_loop srv api render now ch r cr [] w = (None, persistStatus api render now cr [] None w)"
| "hosts_loop srv api render now ch r cr ((host, creds) # hosts) w =
     (let spec = cr_Spec cr in
      case on_sql (reconcileOnHost srv ch r host creds (crs_RoleName spec) (crs_GrantRoles spec) (crs_Databases spec)
             (toPostgresGrants (crs_Grants spec)) (toPostgresFunctions (crs_Functions spec))) w of
        (Inl err, w1) \<Rightarrow> (Some (Wrapf ''reconcile on host %s: %w'' [host] err), persistStatus api render now cr host (Some err) w1)
      | (Inr _, w1) \<Rightarrow> hosts_loop srv api render now ch r cr hosts w1)"

definition customrole_reconcile ::
    "server \<Rightarrow> api \<Rightarrow> (goerr \<Rightarrow> string) \<Rightarrow> gotime \<Rightarrow> choices \<Rightarrow> CustomRoleReconciler \<Rightarrow> Request \<Rightarrow> world
     \<Rightarrow> goerr option \<times> world" where
  "customrole_reconcile srv api render now ch r req w =
     (case api_GetCustomRole api (req_Namespace req) (req_Name req) of
        Inl err \<Rightarrow> (if IsNotFound err then None else Some err, w)
      | Inr cr \<Rightarrow>
          if \<not> IsZero (om_DeletionTimestamp (cr_Meta cr)) then
            if ContainsFinalizer (cr_Meta cr) customRoleFinalizer then
              (case on_sql (cleanupRole srv ch r (crs_RoleName (cr_Spec cr))) w of
                 (Inl err, w1) \<Rightarrow> (Some (Wrapf ''cleanup role: %w'' [] err), w1)
               | (Inr _, w1) \<Rightarrow>
                   (case update_role_meta api (RemoveFinalizer customRoleFinalizer) cr w1 of
                      (Inl err, w2) \<Rightarrow> (Some (Wrapf ''remove finalizer: %w'' [] err), w2)
                    | (Inr _, w2) \<Rightarrow> (None, w2)))
            else (None, w)
          else if \<not> ContainsFinalizer (cr_Meta cr) customRoleFinalizer then
            (case update_role_meta api (AddFinalizer customRoleFinalizer) cr w of
               (Inl err, w1) \<Rightarrow> (Some (Wrapf ''add finalizer: %w'' [] err), w1)
             | (Inr _, w1) \<Rightarrow> (None, w1))
          else hosts_loop srv api render now ch r cr (ch_hosts ch (crr_HostCredentials r)) w)"

definition customrole_Reconcile ::
    "server \<Rightarrow> api \<Rightarrow> (goerr \<Rightarrow> string) \<Rightarrow> gotime \<Rightarrow> choices \<Rightarrow> CustomRoleReconciler \<Rightarrow> Request \<Rightarrow> world
     \<Rightarrow> (Result \<times> goerr option) \<times> world" where
  "customrole_Reconcile srv api render now ch r req w =
     (case customrole_reconcile srv api render now ch r req w of (err, w1) \<Rightarrow> (customRoleRequeueStrategy err, w1))"

end
