(* ===== verification/CustomRole_Laws.thy ===== *)
theory CustomRole_Laws
  imports CustomRole_Controller
begin

text \<open>
  Lemmas and properties of the custom role controller: no connection is left open, which
  databases get which grants, and when the finalizer is dropped.
\<close>

section \<open>Operations on one connection\<close>

lemma local_execWithRole:
  assumes "\<And>t. local_op (fn t)"
  shows "local_op (execWithRole srv d owner fn)"
proof -
  have step: "only local_event (\<lambda>h. case tx_Exec srv t (set_role srv owner) h of
          (Inl err, h1) \<Rightarrow> (Inl (Wrapf ''set role %s: %w'' [owner] err), snd (tx_Rollback srv t h1))
        | (Inr _, h1) \<Rightarrow>
           (case fn t h1 of
              (Inl err, h2) \<Rightarrow> (Inl err, snd (tx_Rollback srv t h2))
            | (Inr _, h2) \<Rightarrow> tx_Commit srv t h2))" for t
  proof (rule onlyI)
    fix h
    obtain r1 h1 where e: "tx_Exec srv t (set_role srv owner) h = (r1, h1)" by (cases "tx_Exec srv t (set_role srv owner) h")
    obtain r2 h2 where f: "fn t h1 = (r2, h2)" by (cases "fn t h1")
    obtain n1 where n1: "h1 = h @ n1" "list_all local_event n1" using onlyD [OF local_calls(5) e] by blast
    obtain n2 where n2: "h2 = h1 @ n2" "list_all local_event n2" using onlyD [OF assms f] by blast
    show "\<exists>new. snd (case tx_Exec srv t (set_role srv owner) h of
          (Inl err, h1) \<Rightarrow> (Inl (Wrapf ''set role %s: %w'' [owner] err), snd (tx_Rollback srv t h1))
        | (Inr _, h1) \<Rightarrow>
           (case fn t h1 of
              (Inl err, h2) \<Rightarrow> (Inl err, snd (tx_Rollback srv t h2))
            | (Inr _, h2) \<Rightarrow> tx_Commit srv t h2)) = h @ new \<and> list_all local_event new"
      using e f n1 n2 by (cases r1; cases r2) (auto simp: tx_Rollback_def tx_Commit_def Let_def)
  qed
  show ?thesis unfolding execWithRole_def by (intro only_steps local_calls step)
qed

lemma local_exec_as: "local_op (exec_as srv d owner q)"
  unfolding exec_as_def by (intro local_execWithRole local_calls)

lemma local_skip_denied: "local_op m \<Longrightarrow> local_op (skip_denied w m)"
  by (rule only_same_history [of _ m]) (auto simp: skip_denied_def split: prod.split sum.split)

lemma local_query_string: "local_op (query_string srv d q as)" "local_op (query_bool srv d q as)"
  unfolding query_string_def query_bool_def by (intro local_rules)+

lemma local_catalog:
  "local_op (UserDatabases srv d)" "local_op (schemaOwnerMap srv d)" "local_op (tableOwnerMap srv d)"
  "local_op (currentTableGrants srv d role)" "local_op (currentGrantedSchemas srv d role)"
  "local_op (managedFunctions srv d role)" "local_op (databaseOwner srv d)" "local_op (currentUser srv d)"
  unfolding UserDatabases_def schemaOwnerMap_def tableOwnerMap_def currentTableGrants_def currentGrantedSchemas_def
    managedFunctions_def databaseOwner_def currentUser_def
  by (intro local_rules local_query_string)+

lemma local_expandGrants: "local_op (expandGrants srv uni d gs)"
  unfolding expandGrants_def expand_grant_def expand_schema_def resolveSchemas_def resolveTables_def
  by (intro local_rules local_query_string)

lemma local_SyncDatabaseGrants: "local_op (SyncDatabaseGrants srv uni so d role gs)"
  unfolding SyncDatabaseGrants_def apply_grants_def grant_usage_def revoke_usage_def grant_table_def revoke_table_def Let_def
  by (intro local_rules local_catalog local_expandGrants local_skip_denied local_exec_as)

lemma local_RevokeAll: "local_op (RevokeAllDatabaseGrants srv order d role)"
  unfolding RevokeAllDatabaseGrants_def revoke_schema_def Let_def
  by (intro local_rules local_catalog local_skip_denied local_exec_as)

lemma local_drop_function: "local_op (drop_function srv d f)"
  unfolding drop_function_def by (intro local_rules local_exec_as)

lemma local_sync_functions_loop: "local_op (sync_functions_loop srv d rnd role owner cur n fs)"
  by (induction fs arbitrary: n)
    (auto simp: sync_function_def Let_def intro!: local_rules local_exec_as local_query_string)

lemma local_SyncDatabaseFunctions: "local_op (SyncDatabaseFunctions srv uni rnd d role fs)"
  unfolding SyncDatabaseFunctions_def
  by (intro local_rules local_catalog local_sync_functions_loop local_drop_function)

lemma local_DropManagedFunctions: "local_op (DropManagedFunctions srv d role)"
  unfolding DropManagedFunctions_def by (intro local_rules local_catalog local_drop_function)

lemma local_EnsureCustomRole: "local_op (EnsureCustomRole srv d role roles)"
  unfolding EnsureCustomRole_def currentGrantedRoles_def revoke_members_def Let_def by (intro local_rules)

lemma local_DropCustomRole: "local_op (DropCustomRole srv d role)"
  unfolding DropCustomRole_def by (intro local_rules)

lemma local_Preflight: "local_op (Preflight srv d role)"
proof -
  have "local_op (\<lambda>h. case db_QueryRow srv d superuser_membership_sql [role] h of
              (Inl e, h1) \<Rightarrow> (Inl e, h1) | (Inr cols, h1) \<Rightarrow> (scan2 cols, h1))"
    by (rule only_same_history [OF local_QueryRow [of srv d superuser_membership_sql "[role]"]])
      (simp split: prod.split sum.split)
  then show ?thesis
    unfolding Preflight_def assertSuperuserRoleMembership_def by (intro local_rules)
qed

section \<open>Connections are closed\<close>

lemmas role_locals = local_SyncDatabaseGrants local_RevokeAll local_SyncDatabaseFunctions local_DropManagedFunctions
  local_EnsureCustomRole local_DropCustomRole local_catalog local_Preflight

lemmas role_balanced = role_locals [THEN local_balanced]

lemma balanced_sync_functions: "balanced (sync_functions srv ch d role fs)"
  using only_choice [of local_event "\<lambda>c. SyncDatabaseFunctions srv (ch_uni ch) c d role fs" "ch_rnd ch"] local_SyncDatabaseFunctions
  by (intro local_balanced) (simp add: sync_functions_def [abs_def])

lemma balanced_syncGrantsOnDatabase [balanced_intros]: "balanced (syncGrantsOnDatabase srv ch host creds role db gs)"
  unfolding syncGrantsOnDatabase_def Let_def
  by (intro balanced_connection local_balanced local_SyncDatabaseGrants
      only_choice [of local_event "\<lambda>c. SyncDatabaseGrants srv (ch_uni ch) c d role gs" "ch_sync ch" for d])

lemma balanced_syncFunctionsOnDatabase [balanced_intros]: "balanced (syncFunctionsOnDatabase srv ch host creds role db fs)"
  unfolding syncFunctionsOnDatabase_def Let_def by (intro balanced_connection balanced_sync_functions)

lemma balanced_grants_loops [balanced_intros]:
  "balanced (apply_grants_loop srv ch host creds role gs dbs)"
  "balanced (cleanup_grants_loop srv ch host creds role targets dbs)"
  by (induction dbs) (auto intro!: balanced_intros)

lemma balanced_functions_loops [balanced_intros]:
  "balanced (apply_functions_loop srv ch host creds d role fs dbs)"
  "balanced (cleanup_functions_loop srv ch host creds role targets dbs)"
  by (induction dbs) (auto intro!: balanced_intros balanced_sync_functions)

lemma balanced_reconcileOnHost: "balanced (reconcileOnHost srv ch r host creds role roles dbs gs fs)"
  unfolding reconcileOnHost_def resolveTargetDatabases_def reconcileRoleOnHost_def reconcileGrantsOnHost_def
    reconcileFunctionsOnHost_def cleanup_postgres_functions_def Let_def
  by (auto intro!: balanced_intros balanced_sync_functions role_balanced split: prod.split)

lemma balanced_cleanupRole: "balanced (cleanupRole srv ch r role)"
proof -
  have revoke: "balanced (\<lambda>h. RevokeAllDatabaseGrants srv (ch_revoke ch h) d role h)" for d
    by (intro local_balanced only_choice [of local_event "\<lambda>c. RevokeAllDatabaseGrants srv c d role" "ch_revoke ch"] local_RevokeAll)
  show ?thesis
    unfolding cleanupRole_def cleanupRoleOnHost_def cleanup_database_def
    by (auto intro!: balanced_intros role_balanced revoke split: prod.split)
qed

section \<open>Which databases get which grants\<close>

text \<open>The databases in the order in which they are visited, each with the grants it gets.\<close>

definition grants_plan :: "string list \<Rightarrow> string list \<Rightarrow> CustomRoleGrant list \<Rightarrow> (string \<times> CustomRoleGrant list) list" where
  "grants_plan databases allUserDatabases grants =
     map (\<lambda>d. (d, grants)) (filter (\<lambda>d. d \<noteq> ''postgres'') databases)
     @ map (\<lambda>d. (d, [])) (filter (\<lambda>d. d \<notin> set databases) allUserDatabases)"

text \<open>Two operations that make the same calls and fail together; only their error messages may
  differ.\<close>

definition same :: "unit act \<Rightarrow> unit act \<Rightarrow> bool" where
  "same m n \<longleftrightarrow> (\<forall>h. snd (m h) = snd (n h) \<and> isl (fst (m h)) = isl (fst (n h)))"

lemma same_refl [simp]: "same m m"
  by (simp add: same_def)

lemma same_onerr:
  assumes "same m m'" and "same (k ()) (k' ())"
  shows "same (onerr m w k) (onerr m' w' k')"
  unfolding same_def
proof
  fix h
  obtain r h1 where m: "m h = (r, h1)" by (cases "m h")
  obtain r' h1' where m': "m' h = (r', h1')" by (cases "m' h")
  have "h1 = h1'" "isl r = isl r'" using assms(1) m m' by (auto simp: same_def dest: spec [of _ h])
  with m m' assms(2) show "snd (onerr m w k h) = snd (onerr m' w' k' h) \<and> isl (fst (onerr m w k h)) = isl (fst (onerr m' w' k' h))"
    by (cases r; cases r') (auto simp: same_def)
qed

lemma same_trans: "same a b \<Longrightarrow> same b c \<Longrightarrow> same a c"
  by (simp add: same_def)

lemma for_each_append: "for_each b (xs @ ys) = onerr (for_each b xs) id (\<lambda>_. for_each b ys)"
proof (induction xs)
  case Nil
  show ?case by (simp add: fun_eq_iff onerr_def)
next
  case (Cons x xs)
  then show ?case by (auto simp: fun_eq_iff onerr_def split: prod.splits sum.splits)
qed

abbreviation sync_entry :: "server \<Rightarrow> choices \<Rightarrow> string \<Rightarrow> Credentials \<Rightarrow> string \<Rightarrow> string \<times> CustomRoleGrant list \<Rightarrow> unit act" where
  "sync_entry srv ch host creds role entry \<equiv> syncGrantsOnDatabase srv ch host creds role (fst entry) (snd entry)"

lemma apply_grants_loop_plan:
  "same (apply_grants_loop srv ch host creds role gs dbs)
     (for_each (sync_entry srv ch host creds role) (map (\<lambda>d. (d, gs)) (filter (\<lambda>d. d \<noteq> ''postgres'') dbs)))"
  by (induction dbs) (auto intro: same_onerr)

lemma cleanup_grants_loop_plan:
  "same (cleanup_grants_loop srv ch host creds role targets dbs)
     (for_each (sync_entry srv ch host creds role) (map (\<lambda>d. (d, [])) (filter (\<lambda>d. d \<notin> set targets) dbs)))"
  by (induction dbs) (auto intro: same_onerr)

lemma grants_plan_run:
  "same (reconcileGrantsOnHost srv ch host creds role dbs all gs)
     (for_each (sync_entry srv ch host creds role) (grants_plan dbs all gs))"
  unfolding reconcileGrantsOnHost_def grants_plan_def for_each_append
  by (rule same_onerr [OF apply_grants_loop_plan]) (use cleanup_grants_loop_plan in simp)

text \<open>The same for the functions. The first component is the database, or \<open>None\<close> for the administrator's
  connection, which leads to the \<open>postgres\<close> database. Without explicit targets that database is
  cleaned first.\<close>

definition functions_plan ::
    "string list \<Rightarrow> string list \<Rightarrow> CustomRoleFunction list \<Rightarrow> (string option \<times> CustomRoleFunction list) list" where
  "functions_plan databases allUserDatabases fs =
     (if allUserDatabases = [] then [(None, [])] else [])
     @ map (\<lambda>d. (if d = ''postgres'' then None else Some d, fs)) databases
     @ (if allUserDatabases \<noteq> [] \<and> ''postgres'' \<notin> set databases then [(None, [])] else [])
     @ map (\<lambda>d. (Some d, [])) (filter (\<lambda>d. d \<notin> set databases) allUserDatabases)"

definition sync_functions_entry ::
    "server \<Rightarrow> choices \<Rightarrow> string \<Rightarrow> Credentials \<Rightarrow> db \<Rightarrow> string \<Rightarrow> string option \<times> CustomRoleFunction list \<Rightarrow> unit act" where
  "sync_functions_entry srv ch host creds adminDB role entry =
     (case fst entry of
        None \<Rightarrow> sync_functions srv ch adminDB role (snd entry)
      | Some d \<Rightarrow> syncFunctionsOnDatabase srv ch host creds role d (snd entry))"

lemma apply_functions_loop_plan:
  "same (apply_functions_loop srv ch host creds adminDB role fs dbs)
     (for_each (sync_functions_entry srv ch host creds adminDB role)
        (map (\<lambda>d. (if d = ''postgres'' then None else Some d, fs)) dbs))"
  by (induction dbs) (auto simp: sync_functions_entry_def intro: same_onerr)

lemma cleanup_functions_loop_plan:
  "same (cleanup_functions_loop srv ch host creds role targets dbs)
     (for_each (sync_functions_entry srv ch host creds adminDB role)
        (map (\<lambda>d. (Some d, [])) (filter (\<lambda>d. d \<notin> set targets) dbs)))"
  by (induction dbs) (auto simp: sync_functions_entry_def intro: same_onerr)

lemma cleanup_postgres_plan:
  "same (if b then cleanup_postgres_functions srv ch adminDB role else ok ())
     (for_each (sync_functions_entry srv ch host creds adminDB role) (if b then [(None, [])] else []))"
  by (auto simp: cleanup_postgres_functions_def sync_functions_entry_def intro: same_onerr)

lemma functions_plan_run:
  "same (reconcileFunctionsOnHost srv ch host creds adminDB role dbs all fs)
     (for_each (sync_functions_entry srv ch host creds adminDB role) (functions_plan dbs all fs))"
proof -
  let ?run = "for_each (sync_functions_entry srv ch host creds adminDB role)"
  have rest: "same (if all = [] then ok ()
        else onerr (if ''postgres'' \<notin> set dbs then cleanup_postgres_functions srv ch adminDB role else ok ()) id
          (\<lambda>_. cleanup_functions_loop srv ch host creds role dbs all))
      (onerr (?run (if all \<noteq> [] \<and> ''postgres'' \<notin> set dbs then [(None, [])] else [])) id
        (\<lambda>_. ?run (map (\<lambda>d. (Some d, [])) (filter (\<lambda>d. d \<notin> set dbs) all))))"
  proof (cases "all = []")
    case True
    then show ?thesis by (simp add: same_def onerr_def)
  next
    case False
    then have guards: "(all = []) = False" "(\<not> False \<and> ''postgres'' \<notin> set dbs) = (''postgres'' \<notin> set dbs)" by simp_all
    show ?thesis
      unfolding guards if_False by (intro same_onerr cleanup_postgres_plan cleanup_functions_loop_plan)
  qed
  show ?thesis
    unfolding reconcileFunctionsOnHost_def functions_plan_def for_each_append
    by (intro same_onerr cleanup_postgres_plan apply_functions_loop_plan rest)
qed

section \<open>What a successful cleanup has done\<close>

text \<open>After the first \<open>n\<close> calls, a connection to the host's \<open>postgres\<close> database was opened and the
  role was dropped on it.\<close>

definition dropped :: "server \<Rightarrow> string \<Rightarrow> nat \<Rightarrow> string \<times> Credentials \<Rightarrow> history \<Rightarrow> bool" where
  "dropped srv role n hc h \<longleftrightarrow>
     (\<exists>d. EvOpen (Raw (admin_connection (fst hc) ''postgres'' (snd hc))) (Inr d) \<in> set (drop n h) \<and>
          EvExec d (''DROP ROLE IF EXISTS '' @ QuoteIdentifier srv role) None \<in> set (drop n h))"

lemma dropped_appends: "appends m \<Longrightarrow> preserves (dropped srv role n hc) m"
proof -
  assume "appends m"
  have "set (drop n h) \<subseteq> set (drop n (snd (m h)))" for h
    using \<open>appends m\<close> unfolding appends_def prefix_def by (metis drop_append set_append Un_upper1)
  then show ?thesis unfolding preserves_def dropped_def by blast
qed

lemma length_appends: "appends m \<Longrightarrow> preserves (\<lambda>h. n \<le> length h) m"
  unfolding preserves_def appends_def by (meson le_trans prefix_length_le)

lemmas role_appends = role_locals [THEN only_appends]

lemma appends_cleanup_database: "appends (cleanup_database srv ch host creds role db)"
proof -
  have "appends (\<lambda>h. RevokeAllDatabaseGrants srv (ch_revoke ch h) d role h)" for d
    by (rule only_appends [OF only_choice [of local_event "\<lambda>c. RevokeAllDatabaseGrants srv c d role"]]) (rule local_RevokeAll)
  then show ?thesis unfolding cleanup_database_def by (intro appends_intros role_appends)
qed

lemma appends_cleanupRoleOnHost: "appends (cleanupRoleOnHost srv ch host creds role)"
  unfolding cleanupRoleOnHost_def by (intro appends_intros appends_cleanup_database role_appends)

lemma in_drop_append: "n \<le> length h \<Longrightarrow> e \<in> set new \<Longrightarrow> e \<in> set (drop n (h @ new))"
  by simp

lemma deferring_InrE:
  assumes "deferring c m h = (Inr x, h')"
  obtains h1 where "m h = (Inr x, h1)" and "h' = snd (c h1)"
  using assms by (cases "m h") (auto simp: deferring_def)

lemma cleanupRoleOnHost_dropped:
  assumes run: "cleanupRoleOnHost srv ch host creds role h = (Inr u, h')" and n: "n \<le> length h"
  shows "dropped srv role n (host, creds) h'"
proof -
  let ?q = "''DROP ROLE IF EXISTS '' @ QuoteIdentifier srv role" and ?dsn = "Raw (admin_connection host ''postgres'' creds)"
  let ?rest = "\<lambda>d. onerr (UserDatabases srv d) (Wrapf ''list databases: %w'' [])
        (\<lambda>databases. onerr (for_each (cleanup_database srv ch host creds role) databases) id
        (\<lambda>_. DropManagedFunctions srv d role))"
  from run obtain d h1 where c: "Connect srv (admin_connection host ''postgres'' creds) h = (Inr d, h1)"
    and body: "deferring (db_Close srv d) (onerr (UserDatabases srv d) (Wrapf ''list databases: %w'' [])
        (\<lambda>databases. onerr (for_each (cleanup_database srv ch host creds role) databases) id
        (\<lambda>_. onerr (DropManagedFunctions srv d role) (Wrapf ''drop functions in postgres database: %w'' [])
        (\<lambda>_. DropCustomRole srv d role)))) h1 = (Inr u, h')"
    by (auto simp: cleanupRoleOnHost_def elim!: onerr_InrE)
  from c have h1: "h1 = h @ [EvOpen ?dsn (Inr d), EvPing d None]"
    by (auto simp: Connect_def sql_calls Let_def elim!: onerr_InrE)
  from body obtain h4 where h4: "onerr (UserDatabases srv d) (Wrapf ''list databases: %w'' [])
        (\<lambda>databases. onerr (for_each (cleanup_database srv ch host creds role) databases) id
        (\<lambda>_. onerr (DropManagedFunctions srv d role) (Wrapf ''drop functions in postgres database: %w'' [])
        (\<lambda>_. DropCustomRole srv d role))) h1 = (Inr u, h4)" and close: "h' = snd (db_Close srv d h4)"
    by (rule deferring_InrE)
  from h4 obtain h3 where mid: "\<exists>x. ?rest d h1 = (Inr x, h3)" and last: "h4 = h3 @ [EvExec d ?q None]"
    by (fastforce simp: DropCustomRole_def elim!: onerr_InrE dest: db_Exec_InrD)
  have "appends (?rest d)" by (intro appends_intros appends_cleanup_database role_appends)
  with mid obtain new where h3: "h3 = h1 @ new" by (meson appendsD)
  have h': "h' = h @ ([EvOpen ?dsn (Inr d), EvPing d None] @ new @ [EvExec d ?q None] @ [EvClose d (srv_Close srv h4 d)])"
    by (simp add: close last h3 h1 db_Close_def Let_def)
  show ?thesis
    unfolding dropped_def h' fst_conv snd_conv by (intro exI [of _ d] conjI in_drop_append [OF n]) simp_all
qed

lemma cleanupRole_dropped:
  assumes run: "cleanupRole srv ch r role h = (Inr u, h')" and rng: "is_range (ch_hosts ch)"
    and hc: "hc \<in> set (crr_HostCredentials r)"
  shows "dropped srv role (length h) hc h'"
proof (rule for_each_establishes [where I = "\<lambda>h'. length h \<le> length h'", OF _ _ _ _ run [unfolded cleanupRole_def]])
  have app: "appends (case hc of (host, creds) \<Rightarrow> onerr (cleanupRoleOnHost srv ch host creds role) (w host) ok)" for hc w
    by (cases hc) (auto intro!: appends_intros appends_cleanupRoleOnHost)
  show "preserves (dropped srv role (length h) x)
      (case y of (host, creds) \<Rightarrow> onerr (cleanupRoleOnHost srv ch host creds role) (Wrapf ''cleanup on host %s: %w'' [host]) ok)" for x y
    by (intro dropped_appends app)
  show "preserves (\<lambda>h'. length h \<le> length h')
      (case y of (host, creds) \<Rightarrow> onerr (cleanupRoleOnHost srv ch host creds role) (Wrapf ''cleanup on host %s: %w'' [host]) ok)" for y
    by (intro length_appends app)
  show "hc \<in> set (ch_hosts ch (crr_HostCredentials r))" using hc is_range_set [OF rng] by simp
  fix x h2 h3 u
  assume "length h \<le> length h2"
    and "(case x of (host, creds) \<Rightarrow> onerr (cleanupRoleOnHost srv ch host creds role) (Wrapf ''cleanup on host %s: %w'' [host]) ok) h2 = (Inr u, h3)"
  then show "dropped srv role (length h) x h3"
    by (cases x) (auto elim!: onerr_InrE dest: cleanupRoleOnHost_dropped)
qed simp

section \<open>The reconciliation\<close>

lemma on_sql_kube: "on_sql m w = (x, w1) \<Longrightarrow> w_kube w1 = w_kube w"
  using on_sql_world(2) [of m w] by simp

lemma persistStatus_sql [simp]: "w_sql (persistStatus api render now cr fh err w) = w_sql w"
  by (simp add: persistStatus_def split: prod.split)

lemma persistStatus_kube:
  "w_kube (persistStatus api render now cr fh err w) = w_kube w \<or>
   (\<exists>cr' a. w_kube (persistStatus api render now cr fh err w) = w_kube w @ [StatusUpdateCustomRole cr' a])"
  by (auto simp: persistStatus_def kube_write_def Let_def split: prod.split)

lemma hosts_loop_kube:
  "w_kube (snd (hosts_loop srv api render now ch r cr hosts w)) = w_kube w \<or>
   (\<exists>cr' a. w_kube (snd (hosts_loop srv api render now ch r cr hosts w)) = w_kube w @ [StatusUpdateCustomRole cr' a])"
proof (induction hosts arbitrary: w)
  case Nil
  show ?case using persistStatus_kube by simp
next
  case (Cons hc hosts)
  obtain host creds where hc: "hc = (host, creds)" by (cases hc)
  let ?m = "reconcileOnHost srv ch r host creds (crs_RoleName (cr_Spec cr)) (crs_GrantRoles (cr_Spec cr)) (crs_Databases (cr_Spec cr))
             (toPostgresGrants (crs_Grants (cr_Spec cr))) (toPostgresFunctions (crs_Functions (cr_Spec cr)))"
  obtain x w1 where m: "on_sql ?m w = (x, w1)" by (cases "on_sql ?m w")
  have "w_kube w1 = w_kube w" using on_sql_world(2) [of ?m w] m by simp
  with Cons.IH [of w1] persistStatus_kube [of api render now cr host _ w1] m show ?case
    by (cases x) (auto simp: hc Let_def)
qed

lemma hosts_loop_conns:
  "settled (w_sql w) \<Longrightarrow> conns (w_sql (snd (hosts_loop srv api render now ch r cr hosts w))) = conns (w_sql w)"
proof (induction hosts arbitrary: w)
  case Nil
  then show ?case by simp
next
  case (Cons hc hosts)
  obtain host creds where hc: "hc = (host, creds)" by (cases hc)
  let ?m = "reconcileOnHost srv ch r host creds (crs_RoleName (cr_Spec cr)) (crs_GrantRoles (cr_Spec cr)) (crs_Databases (cr_Spec cr))
             (toPostgresGrants (crs_Grants (cr_Spec cr))) (toPostgresFunctions (crs_Functions (cr_Spec cr)))"
  obtain x w1 where m: "on_sql ?m w = (x, w1)" by (cases "on_sql ?m w")
  from on_sql_conn [OF balanced_reconcileOnHost m Cons.prems] Cons.IH [of w1] m show ?case
    by (cases x) (simp_all add: hc Let_def)
qed

lemma customrole_reconcile_conns:
  assumes "settled (w_sql w)"
  shows "conns (w_sql (snd (customrole_reconcile srv api render now ch r req w))) = conns (w_sql w)"
proof -
  have up: "w_sql (snd (update_role_meta api f cr w)) = w_sql w" for f cr w
    by (simp add: update_role_meta_def)
  have clean: "conns (w_sql w1) = conns (w_sql w)" if "on_sql (cleanupRole srv ch r role) w = (x, w1)" for x w1 role
    using on_sql_conn [OF balanced_cleanupRole that assms] by simp
  show ?thesis
    using hosts_loop_conns [OF assms] up clean
    by (auto simp: customrole_reconcile_def split: sum.splits prod.splits) (metis snd_conv)+
qed

section \<open>Properties\<close>

text \<open>C33. Grants follow a plan: \<open>reconcileGrantsOnHost\<close> makes exactly the calls of visiting the plan
  in order, one synchronisation per entry, and fails where that fails. The plan gives the desired
  grants to every targeted database and, when the targets were listed explicitly, no grants to every
  other user database; the \<open>postgres\<close> database never gets any.\<close>

theorem reconcileGrantsOnHost_plan:
  fixes dbs all :: "string list" and gs :: "CustomRoleGrant list"
  defines "plan \<equiv> grants_plan dbs all gs"
  shows "snd (reconcileGrantsOnHost srv ch host creds role dbs all gs h) = snd (for_each (sync_entry srv ch host creds role) plan h)
    \<and> isl (fst (reconcileGrantsOnHost srv ch host creds role dbs all gs h)) = isl (fst (for_each (sync_entry srv ch host creds role) plan h))
    \<and> (\<forall>d\<in>set dbs. d \<noteq> ''postgres'' \<longrightarrow> (d, gs) \<in> set plan)
    \<and> (\<forall>d\<in>set all. d \<notin> set dbs \<longrightarrow> (d, []) \<in> set plan)
    \<and> (\<forall>(d, g)\<in>set plan. if d \<in> set dbs then g = gs \<and> d \<noteq> ''postgres'' else g = [] \<and> d \<in> set all)"
proof -
  have "(\<forall>(d, g)\<in>set plan. if d \<in> set dbs then g = gs \<and> d \<noteq> ''postgres'' else g = [] \<and> d \<in> set all)"
    by (auto simp: plan_def grants_plan_def)
  moreover have "(\<forall>d\<in>set dbs. d \<noteq> ''postgres'' \<longrightarrow> (d, gs) \<in> set plan) \<and> (\<forall>d\<in>set all. d \<notin> set dbs \<longrightarrow> (d, []) \<in> set plan)"
    by (auto simp: plan_def grants_plan_def)
  ultimately show ?thesis
    using grants_plan_run [of srv ch host creds role dbs all gs] unfolding plan_def same_def by blast
qed

text \<open>C34. Functions follow a plan too: \<open>reconcileFunctionsOnHost\<close> makes exactly the calls of visiting its plan
  in order and fails where that fails. Every targeted database is visited with the desired functions, the
  \<open>postgres\<close> database on the administrator's connection. Every other user database, and the
  \<open>postgres\<close> database if it is no target, is visited with no functions, so that those of the role are
  dropped there. Without explicit targets the \<open>postgres\<close> database is cleaned first; apart from that no
  target is ever visited with anything but the desired functions.\<close>

theorem reconcileFunctionsOnHost_plan:
  fixes dbs all :: "string list" and fs :: "CustomRoleFunction list"
  defines "plan \<equiv> functions_plan dbs all fs" and "place \<equiv> \<lambda>d. if d = ''postgres'' then None else Some d"
  shows "snd (reconcileFunctionsOnHost srv ch host creds adminDB role dbs all fs h)
        = snd (for_each (sync_functions_entry srv ch host creds adminDB role) plan h)
    \<and> isl (fst (reconcileFunctionsOnHost srv ch host creds adminDB role dbs all fs h))
        = isl (fst (for_each (sync_functions_entry srv ch host creds adminDB role) plan h))
    \<and> (\<forall>d\<in>set dbs. (place d, fs) \<in> set plan)
    \<and> (\<forall>d\<in>set all. d \<notin> set dbs \<longrightarrow> (Some d, []) \<in> set plan)
    \<and> (''postgres'' \<notin> set dbs \<longrightarrow> (None, []) \<in> set plan)
    \<and> (\<forall>e\<in>set (if all = [] then tl plan else plan). snd e = (if fst e \<in> place ` set dbs then fs else []))
    \<and> (all = [] \<longrightarrow> hd plan = (None, []))"
proof -
  have "\<forall>e\<in>set (if all = [] then tl plan else plan). snd e = (if fst e \<in> place ` set dbs then fs else [])"
    by (auto simp: plan_def place_def functions_plan_def split: if_splits)
  moreover have "(\<forall>d\<in>set dbs. (place d, fs) \<in> set plan) \<and> (\<forall>d\<in>set all. d \<notin> set dbs \<longrightarrow> (Some d, []) \<in> set plan)"
    by (auto simp: plan_def place_def functions_plan_def)
  moreover have "(''postgres'' \<notin> set dbs \<longrightarrow> (None, []) \<in> set plan) \<and> (all = [] \<longrightarrow> hd plan = (None, []))"
    by (auto simp: plan_def functions_plan_def)
  ultimately show ?thesis
    using functions_plan_run [of srv ch host creds adminDB role dbs all fs] unfolding plan_def same_def by blast
qed

text \<open>C36. The finalizer is dropped only after the cleanup: when a reconciliation sends an update of
  a custom role without the controller's finalizer, it has dropped the PostgreSQL role, on a
  connection it opened itself, on every host of the configuration.\<close>

theorem customrole_finalizer_dropped_last:
  assumes run: "customrole_reconcile srv api render now ch r req w = (err, w')" and rng: "is_range (ch_hosts ch)"
    and ev: "w_kube w' = w_kube w @ [UpdateCustomRole cr' a]" "customRoleFinalizer \<notin> set (om_Finalizers (cr_Meta cr'))"
    and hc: "hc \<in> set (crr_HostCredentials r)"
  shows "dropped srv (crs_RoleName (cr_Spec cr')) (length (w_sql w)) hc (w_sql w')"
proof -
  obtain cr where get: "api_GetCustomRole api (req_Namespace req) (req_Name req) = Inr cr"
    using run ev(1) by (cases "api_GetCustomRole api (req_Namespace req) (req_Name req)") (auto simp: customrole_reconcile_def)
  have no_loop: "hosts_loop srv api render now ch r cr (ch_hosts ch (crr_HostCredentials r)) w \<noteq> (err, w')"
    using hosts_loop_kube [of srv api render now ch r cr "ch_hosts ch (crr_HostCredentials r)" w] ev(1) by auto
  have no_add: "fst (update_role_meta api (AddFinalizer customRoleFinalizer) cr w) = x \<Longrightarrow>
      snd (update_role_meta api (AddFinalizer customRoleFinalizer) cr w) \<noteq> w'" for x
    using ev by (auto simp: update_role_meta_def kube_write_def Let_def AddFinalizer_def split: if_splits)
  obtain x w1 where c: "on_sql (cleanupRole srv ch r (crs_RoleName (cr_Spec cr))) w = (Inr x, w1)"
    and u: "snd (update_role_meta api (RemoveFinalizer customRoleFinalizer) cr w1) = w'"
    using run get no_loop no_add ev(1)
    by (auto simp: customrole_reconcile_def split: if_splits prod.splits sum.splits dest: on_sql_kube)
  from c have run': "cleanupRole srv ch r (crs_RoleName (cr_Spec cr)) (w_sql w) = (Inr x, w_sql w1)" and k: "w_kube w1 = w_kube w"
    by (auto simp: on_sql_def split: prod.splits)
  from u k ev(1) have "cr_Spec cr' = cr_Spec cr" and "w_sql w' = w_sql w1"
    by (auto simp: update_role_meta_def kube_write_def Let_def)
  with cleanupRole_dropped [OF run' rng hc] show ?thesis by simp
qed

text \<open>C35. Status updates settle: the object a reconciler writes already says what the reconciler
  would write after the same outcome, at any later time and through any API server, so the event that
  the write causes leads to no further write. Both for databases and for custom roles.\<close>

theorem status_updates_settle:
  assumes "w_kube (Persist api render now err s w) = w_kube w @ [StatusUpdateDatabase db a]"
    and "w_kube (persistStatus api render now cr host err w) = w_kube w @ [StatusUpdateCustomRole cr' a']"
  shows "Persist api2 render later err (s\<lparr>st_database := Some db\<rparr>) w2 = w2
    \<and> persistStatus api2 render later cr' host err w2 = w2"
proof
  show "Persist api2 render later err (s\<lparr>st_database := Some db\<rparr>) w2 = w2"
    using assms(1)
    by (auto simp: Persist_def status_update_def kube_write_def Let_def split: option.splits prod.splits if_splits)
  show "persistStatus api2 render later cr' host err w2 = w2"
    using assms(2) by (auto simp: persistStatus_def IsUnchanged_def kube_write_def Let_def split: prod.splits if_splits)
qed

section \<open>Witnesses\<close>

definition demo_choices :: choices where
  "demo_choices = \<lparr>ch_hosts = id, ch_uni = id,
     ch_sync = (\<lambda>_. \<lparr>so_schemas = id, so_desired = id, so_toGrant = id, so_current = id, so_toRevoke = id\<rparr>),
     ch_rnd = (\<lambda>_ _. []), ch_revoke = (\<lambda>_ _. id)\<rparr>"

definition demo_role :: CustomRole where
  "demo_role = \<lparr>
     cr_Meta = \<lparr>om_Name = ''auditor'', om_Namespace = ''ns'', om_Finalizers = [customRoleFinalizer], om_DeletionTimestamp = Some 5\<rparr>,
     cr_Spec = \<lparr>crs_RoleName = ''auditor'', crs_GrantRoles = [], crs_Databases = [], crs_Grants = [], crs_Functions = []\<rparr>,
     cr_Status = \<lparr>crst_Phase = CustomRolePhaseRunning, crst_PhaseUpdated = 0, crst_Error = [], crst_FailingHost = []\<rparr>\<rparr>"

definition demo_role_api :: api where
  "demo_role_api = demo_api\<lparr>api_GetCustomRole := (\<lambda>_ _. Inr demo_role)\<rparr>"

definition demo_role_reconciler :: CustomRoleReconciler where
  "demo_role_reconciler = \<lparr>crr_SuperuserRoleName = ''rds_superuser'',
     crr_HostCredentials = [(''db'', no_credentials\<lparr>c_User := ''admin''\<rparr>)]\<rparr>"

definition demo_deleted :: CustomRole where
  "demo_deleted = demo_role\<lparr>cr_Meta := RemoveFinalizer customRoleFinalizer (cr_Meta demo_role)\<rparr>"

definition demo_deletion :: "goerr option \<times> world" where
  "demo_deletion = customrole_reconcile (ref_server id (\<lambda>_. [])) demo_role_api (\<lambda>_. []) 7 demo_choices demo_role_reconciler
     \<lparr>req_Namespace = ''ns'', req_Name = ''auditor''\<rparr> empty_world"

lemma demo_deletion_log: "w_kube (snd demo_deletion) = [UpdateCustomRole demo_deleted None]"
  by code_simp

theorem reconcileGrantsOnHost_plan_witness:
  "(''other'', []) \<in> set (grants_plan [''app'', ''postgres''] [''app'', ''other''] [\<lparr>gr_Schema = ''s'', gr_Table = ''t'', gr_Privileges = [''SELECT'']\<rparr>])"
  using reconcileGrantsOnHost_plan [of "ref_server id (\<lambda>_. [])" demo_choices "''db''" no_credentials "''auditor''"
      "[''app'', ''postgres'']" "[''app'', ''other'']" "[\<lparr>gr_Schema = ''s'', gr_Table = ''t'', gr_Privileges = [''SELECT'']\<rparr>]" "[]"]
  by simp

theorem reconcileFunctionsOnHost_plan_witness:
  "(Some ''other'', []) \<in> set (functions_plan [''app'', ''postgres''] [''app'', ''other'']
     [\<lparr>fn_Name = ''f'', fn_Args = [], fn_Returns = ''void'', fn_OwningRole = [], fn_Body = []\<rparr>])"
  using reconcileFunctionsOnHost_plan [of "ref_server id (\<lambda>_. [])" demo_choices "''db''" no_credentials 0 "''auditor''"
      "[''app'', ''postgres'']" "[''app'', ''other'']"
      "[\<lparr>fn_Name = ''f'', fn_Args = [], fn_Returns = ''void'', fn_OwningRole = [], fn_Body = []\<rparr>]" "[]"]
  by simp

theorem customrole_finalizer_dropped_last_witness:
  "dropped (ref_server id (\<lambda>_. [])) ''auditor'' 0 (''db'', no_credentials\<lparr>c_User := ''admin''\<rparr>) (w_sql (snd demo_deletion))"
proof -
  have run: "customrole_reconcile (ref_server id (\<lambda>_. [])) demo_role_api (\<lambda>_. []) 7 demo_choices demo_role_reconciler
     \<lparr>req_Namespace = ''ns'', req_Name = ''auditor''\<rparr> empty_world = (fst demo_deletion, snd demo_deletion)"
    by (simp add: demo_deletion_def)
  have e: "w_kube (snd demo_deletion) = w_kube empty_world @ [UpdateCustomRole demo_deleted None]"
    by (simp add: demo_deletion_log empty_world_def)
  have "dropped (ref_server id (\<lambda>_. [])) (crs_RoleName (cr_Spec demo_deleted)) (length (w_sql empty_world))
      (''db'', no_credentials\<lparr>c_User := ''admin''\<rparr>) (w_sql (snd demo_deletion))"
    by (rule customrole_finalizer_dropped_last [OF run _ e])
      (simp_all add: demo_choices_def is_range_def demo_deleted_def RemoveFinalizer_def demo_role_reconciler_def)
  then show ?thesis by (simp add: demo_deleted_def demo_role_def empty_world_def)
qed

theorem status_updates_settle_witness:
  "\<exists>db cr'. Persist demo_api (\<lambda>_. ''failed'') 9 (Some (ExtError [])) (no_status\<lparr>st_database := Some db\<rparr>) empty_world = empty_world
    \<and> persistStatus demo_api (\<lambda>_. ''failed'') 9 cr' ''db'' (Some (ExtError [])) empty_world = empty_world"
proof -
  let ?e = "Some (ExtError [])" and ?r = "\<lambda>_ :: goerr. ''failed''"
  have d: "\<exists>db. w_kube (Persist demo_api ?r 7 ?e (no_status\<lparr>st_database := Some demo_database\<rparr>) empty_world)
      = w_kube empty_world @ [StatusUpdateDatabase db None]"
    by (simp add: Persist_def status_update_def outcome_phase_def kube_write_def no_status_def demo_api_def
        demo_database_def empty_world_def)
  have c: "\<exists>cr'. w_kube (persistStatus demo_api ?r 7 demo_role ''db'' ?e empty_world)
      = w_kube empty_world @ [StatusUpdateCustomRole cr' None]"
    by (simp add: persistStatus_def role_outcome_def IsUnchanged_def kube_write_def demo_api_def demo_role_def empty_world_def)
  from d c obtain db cr' where "w_kube (Persist demo_api ?r 7 ?e (no_status\<lparr>st_database := Some demo_database\<rparr>) empty_world)
      = w_kube empty_world @ [StatusUpdateDatabase db None]"
    and "w_kube (persistStatus demo_api ?r 7 demo_role ''db'' ?e empty_world) = w_kube empty_world @ [StatusUpdateCustomRole cr' None]"
    by blast
  from status_updates_settle [OF this, of demo_api 9 empty_world] show ?thesis by (auto simp: no_status_def)
qed

end
