(* ===== verification/Wiring.thy ===== *)
theory Wiring
  imports Config Go_Flag User_Controller CustomRole_Laws
begin

text \<open>
  \<open>cmd/main.go\<close>: how \<open>main\<close> reads its arguments, builds the reconcilers from the configuration,
  registers them with the manager and starts it. The manager, its caches and its web servers are
  outside the repository: a run is the list of calls made to controller-runtime, whose answer to
  each call is a function of the calls before it. \<open>SetupWithManager\<close> of each reconciler gives what it
  asks for as a \<open>controller\<close>. The flags that the logger adds to the set are a parameter too.
\<close>

section \<open>The configuration of a run\<close>

definition zero_config :: ControllerConfiguration where
  "zero_config = \<lparr>cfg_MetricsAddress = [], cfg_ProbeAddress = [], cfg_EnableLeaderElection = False,
     cfg_ResyncPeriod = 0, cfg_UserRoles = [], cfg_UserRolePrefix = [],
     cfg_AWS = \<lparr>aws_PolicyName = [], aws_Region = [], aws_AccountID = [], aws_Profile = [], aws_AccessKeyID = [],
       aws_SecretAccessKey = [], aws_LoginRoles = []\<rparr>,
     cfg_HostCredentials = [], cfg_ManagerRoleName = [], cfg_SuperuserRoleName = [],
     cfg_AllDatabasesReadEnabled = False, cfg_AllDatabasesWriteEnabled = False, cfg_ExtendedWriteEnabled = False,
     cfg_IAMPolicyPrefix = [], cfg_SecureMetrics = False, cfg_EnableHTTP2 = False\<rparr>"

text \<open>The flags of the logger (\<open>loggerOptions.BindFlags\<close>): which there are, and whether a value is accepted.\<close>

record logger_flags =
  lf_formal :: "string \<Rightarrow> bool option"
  lf_Set :: "string \<Rightarrow> string \<Rightarrow> goerr option"

definition value_flags :: "string list" where
  "value_flags = map fst string_flags @ [''resync-period'', ''host-credentials'']"

definition main_flags :: "(string \<Rightarrow> goerr + duration) \<Rightarrow> logger_flags \<Rightarrow> ControllerConfiguration flag_set" where
  "main_flags dur lf =
     \<lparr>fs_formal = (\<lambda>name.
        if name \<in> set (map fst bool_flags) then Some True
        else if name \<in> set value_flags then Some False
        else lf_formal lf name),
      fs_Set = (\<lambda>name v c.
        if name \<in> set (map fst bool_flags) \<or> name \<in> set value_flags then flag_Set dur name v c
        else case lf_Set lf name v of None \<Rightarrow> Inr c | Some err \<Rightarrow> Inl err)\<rparr>"

definition main_config ::
    "(string \<Rightarrow> goerr + duration) \<Rightarrow> logger_flags \<Rightarrow> string list \<Rightarrow> flag_error + (ControllerConfiguration \<times> string list)" where
  "main_config dur lf args = Parse (main_flags dur lf) args (RegisterFlags zero_config)"

text \<open>What \<open>config.Log\<close> writes: \<open>main\<close> calls it before the flags are parsed.\<close>

definition logged_config ::
    "((string \<times> Credentials) list \<Rightarrow> (string \<times> Credentials) list) \<Rightarrow> (string \<times> logged) list" where
  "logged_config rng = Log rng (RegisterFlags zero_config)"

section \<open>The manager and the reconcilers\<close>

record manager_options =
  mo_MetricsBindAddress :: string
  mo_SecureServing :: bool
  mo_NextProtos :: "string list option"
  mo_WebhookPort :: nat
  mo_HealthProbeBindAddress :: string
  mo_LeaderElection :: bool
  mo_SyncPeriod :: duration
  mo_LeaderElectionID :: string

definition tls_protocols :: "ControllerConfiguration \<Rightarrow> string list option" where
  "tls_protocols config = (if \<not> cfg_EnableHTTP2 config then Some [''http/1.1''] else None)"

definition manager_of :: "ControllerConfiguration \<Rightarrow> manager_options" where
  "manager_of config =
     \<lparr>mo_MetricsBindAddress = cfg_MetricsAddress config, mo_SecureServing = cfg_SecureMetrics config,
      mo_NextProtos = tls_protocols config, mo_WebhookPort = 9443,
      mo_HealthProbeBindAddress = cfg_ProbeAddress config, mo_LeaderElection = cfg_EnableLeaderElection config,
      mo_SyncPeriod = cfg_ResyncPeriod config, mo_LeaderElectionID = ''b64d2659.lunar.tech''\<rparr>"

definition database_reconciler_of :: "ControllerConfiguration \<Rightarrow> PostgreSQLDatabaseReconciler" where
  "database_reconciler_of config =
     \<lparr>dr_ManagerRoleName = cfg_ManagerRoleName config, dr_SuperuserRoleName = cfg_SuperuserRoleName config,
      dr_HostCredentials = cfg_HostCredentials config\<rparr>"

definition granter_of :: "api \<Rightarrow> (pass \<Rightarrow> nat \<Rightarrow> check \<Rightarrow> gotime) \<Rightarrow> ControllerConfiguration \<Rightarrow> Granter" where
  "granter_of api clock config =
     \<lparr>g_AllDatabasesReadEnabled = cfg_AllDatabasesReadEnabled config,
      g_AllDatabasesWriteEnabled = cfg_AllDatabasesWriteEnabled config,
      g_ExtendedWritesEnabled = cfg_ExtendedWriteEnabled config,
      g_AllDatabases = PostgreSQLDatabases (api_client api),
      g_ResourceResolver = ResourceValue (api_client api),
      g_StaticRoles = GetUserRoles config,
      g_HostCredentials = cfg_HostCredentials config,
      g_Now = clock\<rparr>"

definition user_reconciler_of ::
    "aws \<Rightarrow> api \<Rightarrow> (pass \<Rightarrow> nat \<Rightarrow> check \<Rightarrow> gotime) \<Rightarrow> ControllerConfiguration \<Rightarrow> PostgreSQLUserReconciler" where
  "user_reconciler_of aws api clock config =
     \<lparr>ur_Granter = granter_of api clock config,
      ur_EnsureIAMUser = EnsureUser aws,
      ur_RemoveIAMUser = RemoveUser aws,
      ur_RolePrefix = cfg_UserRolePrefix config,
      ur_AWSPolicyName = aws_PolicyName (cfg_AWS config),
      ur_AWSRegion = aws_Region (cfg_AWS config),
      ur_AWSAccountID = aws_AccountID (cfg_AWS config),
      ur_AWSProfile = aws_Profile (cfg_AWS config),
      ur_AWSAccessKeyID = aws_AccessKeyID (cfg_AWS config),
      ur_AWSSecretAccessKey = aws_SecretAccessKey (cfg_AWS config),
      ur_IAMPolicyPrefix = cfg_IAMPolicyPrefix config,
      ur_AWSLoginRoles = GetLoginRoles config\<rparr>"

definition custom_role_reconciler_of :: "ControllerConfiguration \<Rightarrow> CustomRoleReconciler" where
  "custom_role_reconciler_of config =
     \<lparr>crr_SuperuserRoleName = cfg_SuperuserRoleName config, crr_HostCredentials = cfg_HostCredentials config\<rparr>"

section \<open>Registration with the manager\<close>

datatype resource_kind =
    Kind_PostgreSQLDatabase | Kind_PostgreSQLUser | Kind_PostgreSQLHostCredentials
  | Kind_PostgreSQLServiceUser | Kind_CustomRole











text \<open>A second watch of a controller: the events it takes and the requests they are mapped to.\<close>

record database_watch =
  dw_requests :: "PostgreSQLDatabase \<Rightarrow> Request list"
  dw_CreateFunc :: "PostgreSQLDatabase \<Rightarrow> bool"
  dw_UpdateFunc :: "PostgreSQLDatabase \<Rightarrow> PostgreSQLDatabase \<Rightarrow> bool"
  dw_DeleteFunc :: "PostgreSQLDatabase \<Rightarrow> bool"
  dw_GenericFunc :: "PostgreSQLDatabase \<Rightarrow> bool"

datatype reconciler =
    DatabaseReconciler PostgreSQLDatabaseReconciler
  | UserReconciler PostgreSQLUserReconciler
  | HostCredentialsReconciler
  | ServiceUserReconciler
  | RoleReconciler CustomRoleReconciler

record controller =
  ctl_For :: resource_kind
  ctl_Watches :: "database_watch list"
  ctl_MaxConcurrentReconciles :: "nat option"
  ctl_Complete :: reconciler

definition database_SetupWithManager :: "PostgreSQLDatabaseReconciler \<Rightarrow> controller" where
  "database_SetupWithManager r =
     \<lparr>ctl_For = Kind_PostgreSQLDatabase, ctl_Watches = [], ctl_MaxConcurrentReconciles = None,
      ctl_Complete = DatabaseReconciler r\<rparr>"

definition user_SetupWithManager :: "PostgreSQLUserReconciler \<Rightarrow> controller" where
  "user_SetupWithManager r =
     \<lparr>ctl_For = Kind_PostgreSQLUser, ctl_Watches = [], ctl_MaxConcurrentReconciles = Some 1,
      ctl_Complete = UserReconciler r\<rparr>"

definition host_credentials_SetupWithManager :: controller where
  "host_credentials_SetupWithManager =
     \<lparr>ctl_For = Kind_PostgreSQLHostCredentials, ctl_Watches = [], ctl_MaxConcurrentReconciles = None,
      ctl_Complete = HostCredentialsReconciler\<rparr>"

definition service_user_SetupWithManager :: controller where
  "service_user_SetupWithManager =
     \<lparr>ctl_For = Kind_PostgreSQLServiceUser, ctl_Watches = [], ctl_MaxConcurrentReconciles = None,
      ctl_Complete = ServiceUserReconciler\<rparr>"

definition custom_role_SetupWithManager :: "api \<Rightarrow> CustomRoleReconciler \<Rightarrow> controller" where
  "custom_role_SetupWithManager api r =
     \<lparr>ctl_For = Kind_CustomRole,
      ctl_Watches = [\<lparr>dw_requests = mapDatabaseToCustomRoles api, dw_CreateFunc = (\<lambda>_. True),
        dw_UpdateFunc = database_became_running, dw_DeleteFunc = (\<lambda>_. False), dw_GenericFunc = (\<lambda>_. False)\<rparr>],
      ctl_MaxConcurrentReconciles = None, ctl_Complete = RoleReconciler r\<rparr>"

section \<open>The program\<close>

datatype mgr_call =
    GetConfigOrDie
  | NewManager manager_options
  | SetupController controller
  | AddHealthzCheck string
  | AddReadyzCheck string
  | Start

record environment =
  env_ParseDuration :: "string \<Rightarrow> goerr + duration"
  env_logger :: logger_flags
  env_aws :: aws
  env_api :: api
  env_clock :: "pass \<Rightarrow> nat \<Rightarrow> check \<Rightarrow> gotime"
  env_answer :: "mgr_call list \<Rightarrow> mgr_call \<Rightarrow> goerr option"

text \<open>The calls of \<open>main\<close> in order. After each, \<open>main\<close> exits with code 1 if it failed (\<open>GetConfigOrDie\<close>
  does so itself).\<close>

definition main_calls :: "environment \<Rightarrow> ControllerConfiguration \<Rightarrow> mgr_call list" where
  "main_calls env config =
     [GetConfigOrDie,
      NewManager (manager_of config),
      SetupController (database_SetupWithManager (database_reconciler_of config)),
      SetupController (user_SetupWithManager (user_reconciler_of (env_aws env) (env_api env) (env_clock env) config)),
      SetupController host_credentials_SetupWithManager,
      SetupController service_user_SetupWithManager,
      SetupController (custom_role_SetupWithManager (env_api env) (custom_role_reconciler_of config)),
      AddHealthzCheck ''healthz'',
      AddReadyzCheck ''readyz'',
      Start]"

text \<open>Runs the calls until one fails: the exit code and the calls made.\<close>

fun call_all :: "(mgr_call list \<Rightarrow> mgr_call \<Rightarrow> goerr option) \<Rightarrow> mgr_call list \<Rightarrow> mgr_call list \<Rightarrow> nat \<times> mgr_call list" where
  "call_all answer [] h = (0, h)"
| "call_all answer (c # cs) h =
     (case answer h c of
        Some err \<Rightarrow> (1, h @ [c])
      | None \<Rightarrow> call_all answer cs (h @ [c]))"

text \<open>The flag set is created with \<open>ExitOnError\<close>: \<open>Parse\<close> exits with 0 after printing the usage, with 2
  on any other error, and returns no error to \<open>main\<close>.\<close>

definition main :: "environment \<Rightarrow> string list \<Rightarrow> nat \<times> mgr_call list" where
  "main env args =
     (case main_config (env_ParseDuration env) (env_logger env) args of
        Inl ErrHelp \<Rightarrow> (0, [])
      | Inl FlagError \<Rightarrow> (2, [])
      | Inr (config, rest) \<Rightarrow> call_all (env_answer env) (main_calls env config) [])"

section \<open>Lemmas\<close>

text \<open>The log line does not depend on the command line.\<close>

lemma logged_config_hosts: "is_range rng \<Longrightarrow> (''hosts'', LoggedStrings []) \<in> set (logged_config rng)"
proof -
  assume "is_range rng"
  then have "mset (rng []) = {#}" by (simp add: is_range_def)
  then have "rng [] = []" by simp
  then show ?thesis
    by (simp add: logged_config_def Log_def RegisterFlags_def zero_config_def)
qed

text \<open>Without login roles the list of login roles has the empty name as its one element.\<close>

lemma no_login_roles: "aws_LoginRoles (cfg_AWS config) = [] \<Longrightarrow> ur_AWSLoginRoles (user_reconciler_of aws api clock config) = [[]]"
  by (simp add: user_reconciler_of_def GetLoginRoles_def)

lemma call_all_prefix: "\<exists>k\<le>length cs. snd (call_all answer cs h) = h @ take k cs"
proof (induction cs arbitrary: h)
  case Nil
  show ?case by simp
next
  case (Cons c cs)
  show ?case
  proof (cases "answer h c")
    case None
    with Cons.IH [of "h @ [c]"] obtain k where "k \<le> length cs"
      and "snd (call_all answer (c # cs) h) = h @ take (Suc k) (c # cs)" by auto
    then show ?thesis by (intro exI [of _ "Suc k"]) simp
  next
    case (Some e)
    then show ?thesis by (intro exI [of _ 1]) simp
  qed
qed

lemma call_all_code:
  "call_all answer cs h = (n, h') \<Longrightarrow>
     (n = 0 \<and> h' = h @ cs \<and> (\<forall>k<length cs. answer (h @ take k cs) (cs ! k) = None))
     \<or> (n = 1 \<and> (\<exists>k<length cs. h' = h @ take (Suc k) cs \<and> answer (h @ take k cs) (cs ! k) \<noteq> None
          \<and> (\<forall>j<k. answer (h @ take j cs) (cs ! j) = None)))"
proof (induction cs arbitrary: h)
  case Nil
  then show ?case by simp
next
  case (Cons c cs)
  show ?case
  proof (cases "answer h c")
    case (Some e)
    with Cons.prems show ?thesis by (intro disjI2) (auto intro!: exI [of _ 0])
  next
    case None
    let ?a = "\<lambda>k. answer (h @ take k (c # cs)) ((c # cs) ! k)"
    have shift: "?a (Suc k) = answer ((h @ [c]) @ take k cs) (cs ! k)" for k by simp
    have zero: "?a 0 = None" using None by simp
    from None Cons.prems have run: "call_all answer cs (h @ [c]) = (n, h')" by simp
    from Cons.IH [OF run] show ?thesis
    proof
      assume "n = 0 \<and> h' = (h @ [c]) @ cs \<and> (\<forall>k<length cs. answer ((h @ [c]) @ take k cs) (cs ! k) = None)"
      then show ?thesis using zero shift by (auto simp: less_Suc_eq_0_disj)
    next
      assume "n = 1 \<and> (\<exists>k<length cs. h' = (h @ [c]) @ take (Suc k) cs \<and> answer ((h @ [c]) @ take k cs) (cs ! k) \<noteq> None
          \<and> (\<forall>j<k. answer ((h @ [c]) @ take j cs) (cs ! j) = None))"
      then obtain k where k: "n = 1" "k < length cs" "h' = h @ take (Suc (Suc k)) (c # cs)" "?a (Suc k) \<noteq> None"
        and before: "\<forall>j<k. ?a (Suc j) = None" by auto
      have "\<forall>j<Suc k. ?a j = None" using zero before by (simp only: All_less_Suc2)
      with k show ?thesis by (intro disjI2 conjI exI [of _ "Suc k"]) simp_all
    qed
  qed
qed



lemma Start_last: "Start \<in> set (take k (main_calls env config)) \<Longrightarrow> take k (main_calls env config) = main_calls env config"
  by (auto simp: main_calls_def take_Cons' split: if_splits)


text \<open>The names of the controller's own flags can be written as \<open>--name=value\<close>.\<close>

definition config_flags :: "string list" where
  "config_flags = map fst bool_flags @ value_flags"

lemma config_flags_plain: "n \<in> set config_flags \<Longrightarrow> flag_ident n"
proof -
  have "list_all flag_ident config_flags" by code_simp
  then show "n \<in> set config_flags \<Longrightarrow> flag_ident n" by (simp add: list_all_iff)
qed

fun set_config ::
    "(string \<Rightarrow> goerr + duration) \<Rightarrow> (string \<times> string) list \<Rightarrow> ControllerConfiguration \<Rightarrow> goerr + ControllerConfiguration" where
  "set_config dur [] c = Inr c"
| "set_config dur ((name, v) # rest) c =
     (case flag_Set dur name v c of Inl err \<Rightarrow> Inl err | Inr c' \<Rightarrow> set_config dur rest c')"

lemma main_flags_formal: "n \<in> set config_flags \<Longrightarrow> fs_formal (main_flags dur lf) n \<noteq> None"
  by (auto simp: main_flags_def config_flags_def)

lemma set_flags_main:
  "\<forall>nv\<in>set nvs. fst nv \<in> set config_flags \<Longrightarrow> set_flags (main_flags dur lf) nvs c = set_config dur nvs c"
proof (induction nvs arbitrary: c)
  case Nil
  show ?case by simp
next
  case (Cons nv nvs)
  obtain n v where nv: "nv = (n, v)" by (cases nv)
  with Cons.prems have "fs_Set (main_flags dur lf) n v c = flag_Set dur n v c"
    by (auto simp: main_flags_def config_flags_def)
  with Cons show ?case by (simp add: nv split: sum.split)
qed

section \<open>What the settings of a command line are\<close>

text \<open>The flags of the controller and the values that a command line gives to one of them. A setting is
  the last value given for its flag, or its default; the host credentials add up.\<close>

definition flag_names :: "string list" where
  "flag_names =
     [''metrics-addr'', ''health-probe-bind-address'', ''leader-elect'', ''resync-period'', ''host-credentials'',
      ''manager-role-name'', ''superuser-role-name'', ''user-roles'', ''all-databases-enabled-read'',
      ''all-databases-enabled-write'', ''user-role-prefix'', ''aws-policy-name'', ''aws-region'', ''aws-account-id'',
      ''aws-profile'', ''aws-access-key-id'', ''aws-secret-access-key'', ''aws-login-role'', ''extended-write-enabled'',
      ''iam-policy-prefix'', ''secure-metrics'', ''enable-http2'']"

definition switch_names :: "string list" where
  "switch_names = [''leader-elect'', ''all-databases-enabled-read'', ''all-databases-enabled-write'',
     ''extended-write-enabled'', ''secure-metrics'', ''enable-http2'']"

definition switched_on :: "string list" where
  "switched_on = [''1'', ''t'', ''T'', ''true'', ''TRUE'', ''True'']"

definition switched_off :: "string list" where
  "switched_off = [''0'', ''f'', ''F'', ''false'', ''FALSE'', ''False'']"

definition given :: "(string \<times> string) list \<Rightarrow> string \<Rightarrow> string list" where
  "given nvs name = map snd (filter (\<lambda>nv. fst nv = name) nvs)"

definition setting :: "(string \<times> string) list \<Rightarrow> string \<Rightarrow> string \<Rightarrow> string" where
  "setting nvs name dflt = (if given nvs name = [] then dflt else last (given nvs name))"

definition switch :: "(string \<times> string) list \<Rightarrow> string \<Rightarrow> bool" where
  "switch nvs name \<longleftrightarrow> setting nvs name ''false'' \<in> set switched_on"

definition period :: "(string \<Rightarrow> goerr + duration) \<Rightarrow> (string \<times> string) list \<Rightarrow> duration" where
  "period dur nvs =
     (if given nvs ''resync-period'' = [] then 36000000000000 else projr (dur (last (given nvs ''resync-period''))))"

definition hosts :: "(string \<times> string) list \<Rightarrow> (string, Credentials) gomap" where
  "hosts nvs = foldl (\<lambda>m v. the (hcv_value (snd (Set \<lparr>hcv_value = Some m\<rparr> v)))) [] (given nvs ''host-credentials'')"

definition aws_settings :: "(string \<times> string) list \<Rightarrow> AwsConfig" where
  "aws_settings nvs =
     \<lparr>aws_PolicyName = setting nvs ''aws-policy-name'' ''postgres-controller-users'',
      aws_Region = setting nvs ''aws-region'' ''eu-west-1'',
      aws_AccountID = setting nvs ''aws-account-id'' ''660013655494'',
      aws_Profile = setting nvs ''aws-profile'' [],
      aws_AccessKeyID = setting nvs ''aws-access-key-id'' [],
      aws_SecretAccessKey = setting nvs ''aws-secret-access-key'' [],
      aws_LoginRoles = setting nvs ''aws-login-role'' []\<rparr>"

definition settings :: "(string \<Rightarrow> goerr + duration) \<Rightarrow> (string \<times> string) list \<Rightarrow> ControllerConfiguration" where
  "settings dur nvs =
     \<lparr>cfg_MetricsAddress = setting nvs ''metrics-addr'' '':8080'',
      cfg_ProbeAddress = setting nvs ''health-probe-bind-address'' '':8081'',
      cfg_EnableLeaderElection = switch nvs ''leader-elect'',
      cfg_ResyncPeriod = period dur nvs,
      cfg_UserRoles = setting nvs ''user-roles'' ''rds_iam'',
      cfg_UserRolePrefix = setting nvs ''user-role-prefix'' ''iam_developer_'',
      cfg_AWS = aws_settings nvs,
      cfg_HostCredentials = hosts nvs,
      cfg_ManagerRoleName = setting nvs ''manager-role-name'' ''postgres_role_manager'',
      cfg_SuperuserRoleName = setting nvs ''superuser-role-name'' ''rds_superuser'',
      cfg_AllDatabasesReadEnabled = switch nvs ''all-databases-enabled-read'',
      cfg_AllDatabasesWriteEnabled = switch nvs ''all-databases-enabled-write'',
      cfg_ExtendedWriteEnabled = switch nvs ''extended-write-enabled'',
      cfg_IAMPolicyPrefix = setting nvs ''iam-policy-prefix'' ''/'',
      cfg_SecureMetrics = switch nvs ''secure-metrics'',
      cfg_EnableHTTP2 = switch nvs ''enable-http2''\<rparr>"

text \<open>The values that are accepted.\<close>

definition accepted :: "(string \<Rightarrow> goerr + duration) \<Rightarrow> string \<times> string \<Rightarrow> bool" where
  "accepted dur nv =
     (case nv of (name, v) \<Rightarrow>
        (name \<in> set switch_names \<longrightarrow> v \<in> set switched_on \<or> v \<in> set switched_off) \<and>
        (name = ''resync-period'' \<longrightarrow> \<not> isl (dur v)) \<and>
        (name = ''host-credentials'' \<longrightarrow> fst (Set \<lparr>hcv_value = Some []\<rparr> v) = None))"

lemma given_snoc: "given (nvs @ [(n, v)]) name = given nvs name @ (if n = name then [v] else [])"
  by (simp add: given_def)

lemma setting_snoc: "setting (nvs @ [(n, v)]) name dflt = (if n = name then v else setting nvs name dflt)"
  by (simp add: setting_def given_snoc)

lemma switch_snoc: "switch (nvs @ [(n, v)]) name = (if n = name then v \<in> set switched_on else switch nvs name)"
  by (simp add: switch_def setting_snoc)

lemma period_snoc:
  "period dur (nvs @ [(n, v)]) = (if n = ''resync-period'' then projr (dur v) else period dur nvs)"
  by (simp add: period_def given_snoc)

lemma hosts_snoc:
  "hosts (nvs @ [(n, v)]) =
     (if n = ''host-credentials'' then the (hcv_value (snd (Set \<lparr>hcv_value = Some (hosts nvs)\<rparr> v))) else hosts nvs)"
  by (simp add: hosts_def given_snoc)

lemma set_loop_error: "fst (set_loop xs m) = fst (set_loop xs m')"
  by (induction xs arbitrary: m m') (auto split: sum.split)

lemma Set_error: "fst (Set \<lparr>hcv_value = Some m\<rparr> v) = fst (Set \<lparr>hcv_value = Some []\<rparr> v)"
  using set_loop_error [of _ m "[]"] by (simp add: Set_def Let_def case_prod_beta)

lemma ParseBool_switch:
  "ParseBool v = (if v \<in> set switched_on then Inr True else if v \<in> set switched_off then Inr False else Inl (ExtError ''parse error''))"
  by (simp add: ParseBool_def switched_on_def switched_off_def)

lemmas settings_snoc = setting_snoc switch_snoc period_snoc hosts_snoc

lemma flag_Set_settings:
  assumes "n \<in> set flag_names"
  shows "if accepted dur (n, v) then flag_Set dur n v (settings dur nvs) = Inr (settings dur (nvs @ [(n, v)]))
    else isl (flag_Set dur n v (settings dur nvs))"
proof -
  have dur: "(case dur v of Inl e \<Rightarrow> Inl e | Inr d \<Rightarrow> Inr (f d)) =
      (if isl (dur v) then Inl (projl (dur v)) else Inr (f (projr (dur v))))" for f :: "duration \<Rightarrow> ControllerConfiguration"
    by (simp split: sum.split)
  have host: "(case Set \<lparr>hcv_value = Some m\<rparr> v of (Some e, _) \<Rightarrow> Inl e | (None, h) \<Rightarrow> Inr (f h)) =
      (case fst (Set \<lparr>hcv_value = Some []\<rparr> v) of Some e \<Rightarrow> Inl e | None \<Rightarrow> Inr (f (snd (Set \<lparr>hcv_value = Some m\<rparr> v))))"
    for m and f :: "HostCredentials \<Rightarrow> ControllerConfiguration"
    by (simp add: Set_error [of m v, symmetric] case_prod_beta split: option.split)
  show ?thesis
    using assms unfolding flag_names_def list.set insert_iff empty_iff
    by (elim disjE) (simp_all add: flag_Set_def string_flags_def bool_flags_def accepted_def switch_names_def settings_def
        aws_settings_def settings_snoc ParseBool_switch dur host split: option.split)
qed

lemma set_config_snoc:
  "set_config dur (nvs @ [(n, v)]) c = (case set_config dur nvs c of Inl err \<Rightarrow> Inl err | Inr c' \<Rightarrow> flag_Set dur n v c')"
  by (induction nvs arbitrary: c) (auto split: sum.split)

lemma set_config_settings:
  assumes "\<forall>nv\<in>set nvs. fst nv \<in> set flag_names"
  shows "if list_all (accepted dur) nvs then set_config dur nvs (RegisterFlags zero_config) = Inr (settings dur nvs)
    else isl (set_config dur nvs (RegisterFlags zero_config))"
  using assms
proof (induction nvs rule: rev_induct)
  case Nil
  show ?case
    by (simp add: RegisterFlags_def zero_config_def settings_def aws_settings_def setting_def switch_def period_def hosts_def
        given_def switched_on_def time_Hour_def)
next
  case (snoc nv nvs)
  obtain n v where nv: "nv = (n, v)" by (cases nv)
  with snoc.prems have n: "n \<in> set flag_names" by simp
  show ?case
    using snoc.IH snoc.prems flag_Set_settings [OF n, of dur v nvs]
    by (cases "list_all (accepted dur) nvs") (auto simp: nv set_config_snoc split: sum.split)
qed

lemma main_config_settings:
  assumes "\<forall>nv\<in>set nvs. fst nv \<in> set flag_names"
  shows "main_config dur lf (map long_arg nvs) =
    (if list_all (accepted dur) nvs then Inr (settings dur nvs, []) else Inl FlagError)"
proof -
  have "list_all (\<lambda>n. n \<in> set config_flags) flag_names" by code_simp
  then have names: "\<forall>nv\<in>set nvs. fst nv \<in> set config_flags" using assms by (auto simp: list_all_iff)
  then have "\<forall>nv\<in>set nvs. flag_ident (fst nv) \<and> fs_formal (main_flags dur lf) (fst nv) \<noteq> None"
    using config_flags_plain main_flags_formal by blast
  from Parse_long_args [OF this] show ?thesis
    using set_config_settings [OF assms, of dur]
    by (auto simp: main_config_def set_flags_main [OF names] isl_def split: if_splits)
qed

text \<open>A run that reaches \<open>Start\<close> has made all calls.\<close>

lemma main_started:
  assumes "Start \<in> set (snd (main env args))"
  obtains config rest n where "main_config (env_ParseDuration env) (env_logger env) args = Inr (config, rest)"
    "call_all (env_answer env) (main_calls env config) [] = (n, main_calls env config)"
    "snd (main env args) = main_calls env config"
proof -
  from assms obtain config rest where p: "main_config (env_ParseDuration env) (env_logger env) args = Inr (config, rest)"
    by (auto simp: main_def split: sum.splits flag_error.splits)
  let ?cs = "main_calls env config"
  obtain n h where run: "call_all (env_answer env) ?cs [] = (n, h)" by (cases "call_all (env_answer env) ?cs []")
  have h: "snd (main env args) = h" using p run by (simp add: main_def)
  from call_all_prefix [of ?cs "env_answer env" "[]"] run obtain k where "h = take k ?cs" by auto
  with Start_last assms h have "h = ?cs" by metis
  with p run h show thesis by (intro that) simp_all
qed

section \<open>What is started\<close>

text \<open>The calls of \<open>main\<close> for a command line, with every option of the manager and every field of the
  reconcilers written as the setting it takes.\<close>

definition granter_setting :: "environment \<Rightarrow> (string \<times> string) list \<Rightarrow> Granter" where
  "granter_setting env nvs =
     \<lparr>g_AllDatabasesReadEnabled = switch nvs ''all-databases-enabled-read'',
      g_AllDatabasesWriteEnabled = switch nvs ''all-databases-enabled-write'',
      g_ExtendedWritesEnabled = switch nvs ''extended-write-enabled'',
      g_AllDatabases = PostgreSQLDatabases (api_client (env_api env)),
      g_ResourceResolver = ResourceValue (api_client (env_api env)),
      g_StaticRoles = Split (setting nvs ''user-roles'' ''rds_iam'') (CHR '',''),
      g_HostCredentials = hosts nvs,
      g_Now = env_clock env\<rparr>"

definition user_reconciler_setting :: "environment \<Rightarrow> (string \<times> string) list \<Rightarrow> PostgreSQLUserReconciler" where
  "user_reconciler_setting env nvs =
     \<lparr>ur_Granter = granter_setting env nvs,
      ur_EnsureIAMUser = EnsureUser (env_aws env),
      ur_RemoveIAMUser = RemoveUser (env_aws env),
      ur_RolePrefix = setting nvs ''user-role-prefix'' ''iam_developer_'',
      ur_AWSPolicyName = setting nvs ''aws-policy-name'' ''postgres-controller-users'',
      ur_AWSRegion = setting nvs ''aws-region'' ''eu-west-1'',
      ur_AWSAccountID = setting nvs ''aws-account-id'' ''660013655494'',
      ur_AWSProfile = setting nvs ''aws-profile'' [],
      ur_AWSAccessKeyID = setting nvs ''aws-access-key-id'' [],
      ur_AWSSecretAccessKey = setting nvs ''aws-secret-access-key'' [],
      ur_IAMPolicyPrefix = setting nvs ''iam-policy-prefix'' ''/'',
      ur_AWSLoginRoles = Split (setting nvs ''aws-login-role'' []) (CHR '','')\<rparr>"

definition manager_setting :: "environment \<Rightarrow> (string \<times> string) list \<Rightarrow> manager_options" where
  "manager_setting env nvs =
     \<lparr>mo_MetricsBindAddress = setting nvs ''metrics-addr'' '':8080'', mo_SecureServing = switch nvs ''secure-metrics'',
      mo_NextProtos = (if switch nvs ''enable-http2'' then None else Some [''http/1.1'']), mo_WebhookPort = 9443,
      mo_HealthProbeBindAddress = setting nvs ''health-probe-bind-address'' '':8081'',
      mo_LeaderElection = switch nvs ''leader-elect'',
      mo_SyncPeriod = period (env_ParseDuration env) nvs, mo_LeaderElectionID = ''b64d2659.lunar.tech''\<rparr>"

abbreviation reconciles :: "resource_kind \<Rightarrow> database_watch list \<Rightarrow> nat option \<Rightarrow> reconciler \<Rightarrow> mgr_call" where
  "reconciles kind watches workers r \<equiv>
     SetupController \<lparr>ctl_For = kind, ctl_Watches = watches, ctl_MaxConcurrentReconciles = workers, ctl_Complete = r\<rparr>"

definition calls_setting :: "environment \<Rightarrow> (string \<times> string) list \<Rightarrow> mgr_call list" where
  "calls_setting env nvs =
     [GetConfigOrDie,
      NewManager (manager_setting env nvs),
      reconciles Kind_PostgreSQLDatabase [] None (DatabaseReconciler
        \<lparr>dr_ManagerRoleName = setting nvs ''manager-role-name'' ''postgres_role_manager'',
         dr_SuperuserRoleName = setting nvs ''superuser-role-name'' ''rds_superuser'', dr_HostCredentials = hosts nvs\<rparr>),
      reconciles Kind_PostgreSQLUser [] (Some 1) (UserReconciler (user_reconciler_setting env nvs)),
      reconciles Kind_PostgreSQLHostCredentials [] None HostCredentialsReconciler,
      reconciles Kind_PostgreSQLServiceUser [] None ServiceUserReconciler,
      reconciles Kind_CustomRole
        [\<lparr>dw_requests = mapDatabaseToCustomRoles (env_api env), dw_CreateFunc = (\<lambda>_. True),
          dw_UpdateFunc = database_became_running, dw_DeleteFunc = (\<lambda>_. False), dw_GenericFunc = (\<lambda>_. False)\<rparr>] None
        (RoleReconciler \<lparr>crr_SuperuserRoleName = setting nvs ''superuser-role-name'' ''rds_superuser'', crr_HostCredentials = hosts nvs\<rparr>),
      AddHealthzCheck ''healthz'',
      AddReadyzCheck ''readyz'',
      Start]"

lemmas wiring_defs = main_calls_def manager_of_def tls_protocols_def database_reconciler_of_def granter_of_def user_reconciler_of_def
  custom_role_reconciler_of_def database_SetupWithManager_def user_SetupWithManager_def host_credentials_SetupWithManager_def
  service_user_SetupWithManager_def custom_role_SetupWithManager_def GetUserRoles_def GetLoginRoles_def

lemma main_calls_settings: "main_calls env (settings (env_ParseDuration env) nvs) = calls_setting env nvs"
  unfolding wiring_defs calls_setting_def manager_setting_def user_reconciler_setting_def granter_setting_def settings_def aws_settings_def
  by simp

section \<open>Properties\<close>

text \<open>C39. The settings of a command line. A command line that gives any of the flags of the controller as
  \<open>--name=value\<close>, in any order and any number of times, is refused exactly if one of the values is not
  accepted: a switch that is not one of the twelve words for true and false, a resync period
  that is no duration, or host credentials that are not well formed. Otherwise each field of the
  configuration is the last value given for its flag or its documented default, and the host
  credentials are those of all values together.\<close>

theorem command_line_flags:
  assumes "\<forall>nv\<in>set nvs. fst nv \<in> set flag_names"
  shows "main_config dur lf (map long_arg nvs) =
    (if list_all (accepted dur) nvs then Inr (settings dur nvs, []) else Inl FlagError)"
  using assms by (rule main_config_settings)

theorem command_line_flags_witness:
  "main_config (\<lambda>_. Inr 0) \<lparr>lf_formal = (\<lambda>_. None), lf_Set = (\<lambda>_ _. None)\<rparr>
     [long_arg (''aws-region'', ''a=b''), long_arg (''leader-elect'', ''maybe'')] = Inl FlagError
   \<and> map_sum id (\<lambda>x. (aws_Region (cfg_AWS (fst x)), aws_AccountID (cfg_AWS (fst x)), cfg_EnableLeaderElection (fst x)))
        (main_config (\<lambda>_. Inr 0) \<lparr>lf_formal = (\<lambda>_. None), lf_Set = (\<lambda>_ _. None)\<rparr>
           [long_arg (''aws-region'', ''x''), long_arg (''leader-elect'', ''T''), long_arg (''aws-region'', ''a=b'')])
      = Inr (''a=b'', ''660013655494'', True)"
proof -
  let ?bad = "[(''aws-region'', ''a=b''), (''leader-elect'', ''maybe'')]"
  let ?good = "[(''aws-region'', ''x''), (''leader-elect'', ''T''), (''aws-region'', ''a=b'')]"
  have "\<forall>nv\<in>set ?bad. fst nv \<in> set flag_names" "\<forall>nv\<in>set ?good. fst nv \<in> set flag_names" by code_simp+
  note run = this [THEN command_line_flags [of _ "\<lambda>_. Inr 0" "\<lparr>lf_formal = (\<lambda>_. None), lf_Set = (\<lambda>_ _. None)\<rparr>"]]
  have "\<not> list_all (accepted (\<lambda>_. Inr 0)) ?bad" "list_all (accepted (\<lambda>_. Inr 0)) ?good"
    by (simp_all add: accepted_def switch_names_def switched_on_def switched_off_def)
  with run show ?thesis
    by (simp add: settings_def aws_settings_def setting_def given_def switch_def switched_on_def)
qed
text \<open>C25. Every flag reaches the field it is documented for. When \<open>main\<close> starts the manager after a
  command line of the controller's own flags, the calls it has made are these ten: the manager with its
  addresses, leader election, resync period and protocols, and the five reconcilers in order with their
  watches and numbers of workers, in which each field is the last value given for its flag or the flag's
  default.\<close>

theorem main_wires_settings:
  assumes "\<forall>nv\<in>set nvs. fst nv \<in> set flag_names" and "Start \<in> set (snd (main env (map long_arg nvs)))"
  shows "snd (main env (map long_arg nvs)) = calls_setting env nvs"
  using assms(2)
proof (rule main_started)
  fix config rest n
  assume "main_config (env_ParseDuration env) (env_logger env) (map long_arg nvs) = Inr (config, rest)"
  then have "config = settings (env_ParseDuration env) nvs"
    by (simp add: main_config_settings [OF assms(1)] split: if_splits)
  then show "snd (main env (map long_arg nvs)) = main_calls env config \<Longrightarrow> ?thesis" by (simp add: main_calls_settings)
qed


definition demo_env :: "aws \<Rightarrow> environment" where
  "demo_env aws = \<lparr>env_ParseDuration = (\<lambda>_. Inr 0), env_logger = \<lparr>lf_formal = (\<lambda>_. None), lf_Set = (\<lambda>_ _. None)\<rparr>,
     env_aws = aws, env_api = demo_role_api, env_clock = (\<lambda>_ _ _. 0), env_answer = (\<lambda>_ _. None)\<rparr>"



theorem main_wires_settings_witness:
  "\<forall>aws. \<exists>r. UserReconciler r \<in> ctl_Complete ` {c. SetupController c \<in> set (snd (main (demo_env aws)
       [long_arg (''leader-elect'', ''true''), long_arg (''aws-region'', ''eu-north-1'')]))}
     \<and> ur_AWSRegion r = ''eu-north-1'' \<and> ur_AWSAccountID r = ''660013655494''"
proof
  fix aws
  let ?nvs = "[(''leader-elect'', ''true''), (''aws-region'', ''eu-north-1'')]"
  have names: "\<forall>nv\<in>set ?nvs. fst nv \<in> set flag_names" by code_simp
  have "list_all (accepted (\<lambda>_. Inr 0)) ?nvs"
    by (simp add: accepted_def switch_names_def switched_on_def)
  then have "Start \<in> set (snd (main (demo_env aws) (map long_arg ?nvs)))"
    using main_config_settings [OF names, of "\<lambda>_. Inr 0"]
    by (simp only: main_def demo_env_def environment.simps if_True sum.case prod.case) (simp add: main_calls_def)
  from main_wires_settings [OF names this]
  have "reconciles Kind_PostgreSQLUser [] (Some 1) (UserReconciler (user_reconciler_setting (demo_env aws) ?nvs))
      \<in> set (snd (main (demo_env aws) (map long_arg ?nvs)))"
    by (simp add: calls_setting_def)
  then have "UserReconciler (user_reconciler_setting (demo_env aws) ?nvs)
      \<in> ctl_Complete ` {c. SetupController c \<in> set (snd (main (demo_env aws) (map long_arg ?nvs)))}"
    by (intro image_eqI [OF _ CollectI]) simp_all
  then show "\<exists>r. UserReconciler r \<in> ctl_Complete ` {c. SetupController c \<in> set (snd (main (demo_env aws)
       [long_arg (''leader-elect'', ''true''), long_arg (''aws-region'', ''eu-north-1'')]))}
     \<and> ur_AWSRegion r = ''eu-north-1'' \<and> ur_AWSAccountID r = ''660013655494''"
    by (intro exI [of _ "user_reconciler_setting (demo_env aws) ?nvs"]) (simp add: user_reconciler_setting_def setting_def given_def)
qed

text \<open>The exit code of the program: 0 after a request for help and after the manager has ended without
  an error, 2 when the command line is not accepted, in both cases of the command line
  without any call of the manager, and 1 when a call fails, which is then the last one.\<close>

theorem main_exit_code:
  "(case main_config (env_ParseDuration env) (env_logger env) args of
      Inl ErrHelp \<Rightarrow> main env args = (0, [])
    | Inl FlagError \<Rightarrow> main env args = (2, [])
    | Inr (config, rest) \<Rightarrow>
        let cs = main_calls env config; failed = (\<lambda>k. env_answer env (take k cs) (cs ! k) \<noteq> None)
        in if \<exists>k<length cs. failed k
           then main env args = (1, take (Suc (LEAST k. failed k)) cs)
           else main env args = (0, cs))"
proof (cases "main_config (env_ParseDuration env) (env_logger env) args")
  case (Inl e)
  then show ?thesis by (cases e) (simp_all add: main_def)
next
  case (Inr x)
  obtain config rest where x: "x = (config, rest)" by (cases x)
  let ?cs = "main_calls env config"
  let ?f = "\<lambda>k. env_answer env (take k ?cs) (?cs ! k) \<noteq> None"
  obtain n h where run: "call_all (env_answer env) ?cs [] = (n, h)" by (cases "call_all (env_answer env) ?cs []")
  have m: "main env args = (n, h)" using Inr x run by (simp add: main_def)
  from call_all_code [OF run] have "if \<exists>k<length ?cs. ?f k then (n, h) = (1, take (Suc (LEAST k. ?f k)) ?cs) else (n, h) = (0, ?cs)"
  proof
    assume "n = 0 \<and> h = [] @ ?cs \<and> (\<forall>k<length ?cs. env_answer env ([] @ take k ?cs) (?cs ! k) = None)"
    then show ?thesis by auto
  next
    assume "n = 1 \<and> (\<exists>k<length ?cs. h = [] @ take (Suc k) ?cs \<and> env_answer env ([] @ take k ?cs) (?cs ! k) \<noteq> None
        \<and> (\<forall>j<k. env_answer env ([] @ take j ?cs) (?cs ! j) = None))"
    then obtain k where k: "n = 1" "k < length ?cs" "h = take (Suc k) ?cs" "?f k" "\<forall>j<k. \<not> ?f j" by auto
    then have "(LEAST k. ?f k) = k" by (intro Least_equality) (auto simp: not_less [symmetric])
    with k show ?thesis by auto
  qed
  with Inr x m show ?thesis by (simp add: Let_def)
qed

end
