(* ===== verification/Iam_Failures.thy ===== *)
theory Iam_Failures
  imports Iam_Laws
begin

text \<open>
  What \<open>EnsureUser\<close> and \<open>RemoveUser\<close> do to the access of other users when calls of AWS IAM fail on the
  way. A write that is answered with an error may have taken effect or not (\<open>iam_write_laws\<close>). On
  every outcome nobody but the user of the operation gains access: a property of the state that
  each step preserves.
\<close>

section \<open>Rules\<close>

lemma preserves_onerr_post:
  assumes "preserves P m" and "\<And>h x h'. P h \<Longrightarrow> m h = (Inr x, h') \<Longrightarrow> Q x" and "\<And>x. Q x \<Longrightarrow> preserves P (k x)"
  shows "preserves P (onerr m wrap k)"
  unfolding preserves_def
proof (intro allI impI)
  fix h
  assume "P h"
  obtain r h' where m: "m h = (r, h')" by (cases "m h")
  from preservesD [OF assms(1) m \<open>P h\<close>] have "P h'" .
  with assms(2) [OF \<open>P h\<close>] assms(3) m show "P (snd (onerr m wrap k h))"
    by (cases r) (auto simp: onerr_def preserves_def)
qed

lemma preserves_for_each_in: "(\<And>x. x \<in> set xs \<Longrightarrow> preserves P (b x)) \<Longrightarrow> preserves P (for_each b xs)"
  by (induction xs) (simp_all add: preserves_intros)

lemma keeps_preserves: "keeps f m \<Longrightarrow> (\<And>h h'. f h' = f h \<Longrightarrow> P h' = P h) \<Longrightarrow> preserves P m"
  unfolding preserves_def by (metis keepsD prod.collapse)

section \<open>Writes that are answered with an error\<close>

definition iam_write_laws :: "Client \<Rightarrow> policy_store \<Rightarrow> bool" where
  "iam_write_laws c st \<longleftrightarrow>
     (\<forall>h n d e. st (h @ [CreatePolicyVersion (policyARN c n) d (Some e)]) = st h
        \<or> (\<exists>v. st (h @ [CreatePolicyVersion (policyARN c n) d (Some e)]) = (st h)(n \<mapsto> (v, d)))) \<and>
     (\<forall>h n d e. st (h @ [CreatePolicyEv (iamPrefix c) d n (Inl e)]) = st h
        \<or> (\<exists>v. st (h @ [CreatePolicyEv (iamPrefix c) d n (Inl e)]) = (st h)(n \<mapsto> (v, d)))) \<and>
     (\<forall>h n e. st (h @ [DeletePolicy (policyARN c n) (Some e)]) = st h
        \<or> st (h @ [DeletePolicy (policyARN c n) (Some e)]) = (st h)(n := None))"

text \<open>All users but \<open>u\<close> have at most the access \<open>A\<close>; a document that may be written then.\<close>

definition guarded :: "policy_store \<Rightarrow> string \<Rightarrow> (string \<Rightarrow> string set) \<Rightarrow> aws_history \<Rightarrow> bool" where
  "guarded st u A h \<longleftrightarrow> (\<forall>v. v \<noteq> u \<longrightarrow> access (docs st h) v \<subseteq> A v)"

definition writable :: "string \<Rightarrow> (string \<Rightarrow> string set) \<Rightarrow> PolicyDocument \<Rightarrow> bool" where
  "writable u A d \<longleftrightarrow> doc_utf8 d \<and> (\<forall>v. v \<noteq> u \<longrightarrow> resources_of d v \<subseteq> A v)"

lemma guarded_store: "st h' = st h \<Longrightarrow> guarded st u A h' = guarded st u A h"
  unfolding guarded_def by (drule docs_cong) (simp only:)

lemma guarded_written:
  assumes "guarded st u A h" and "writable u A d" and "json_Marshal d = Inr j"
    and "st h' = st h \<or> (\<exists>v. st h' = (st h)(n \<mapsto> (v, j)))"
  shows "guarded st u A h'"
  using assms(4)
proof
  assume "\<exists>v. st h' = (st h)(n \<mapsto> (v, j))"
  then have "docs st h' = (docs st h)(n \<mapsto> d)" using docs_update [OF _ assms(3)] assms(2) by (auto simp: writable_def)
  then have "access (docs st h') v \<subseteq> access (docs st h) v \<union> resources_of d v" for v
    by (auto simp: access_def ran_def split: if_splits)
  with assms(1,2) show ?thesis unfolding guarded_def writable_def by blast
next
  assume "st h' = st h"
  from guarded_store [of st, OF this] assms(1) show ?thesis by simp
qed

lemma guarded_deleted:
  assumes "guarded st u A h" and "st h' = st h \<or> st h' = (st h)(n := None)"
  shows "guarded st u A h'"
  using assms(2)
proof
  assume "st h' = (st h)(n := None)"
  then have "docs st h' = (docs st h)(n := None)" by (auto simp: docs_def)
  then have "access (docs st h') v \<subseteq> access (docs st h) v" for v
    by (auto simp: access_def ran_def split: if_splits)
  with assms(1) show ?thesis unfolding guarded_def by blast
next
  assume "st h' = st h"
  from guarded_store [of st, OF this] assms(1) show ?thesis by simp
qed

section \<open>Single operations\<close>

lemma guarded_keeps: "keeps st m \<Longrightarrow> preserves (guarded st u A) m"
  by (erule keeps_preserves) (rule guarded_store)

lemma create_version_guarded:
  assumes "iam_laws aws c st" and "iam_write_laws c st" and "writable u A d" and "json_Marshal d = Inr j"
  shows "preserves (guarded st u A) (create_version aws (policyARN c n) j)"
  unfolding preserves_def
proof (intro allI impI)
  fix h
  assume g: "guarded st u A h"
  let ?r = "aws_CreatePolicyVersion aws h (policyARN c n) j"
  have "st (h @ [CreatePolicyVersion (policyARN c n) j ?r]) = st h
      \<or> (\<exists>v. st (h @ [CreatePolicyVersion (policyARN c n) j ?r]) = (st h)(n \<mapsto> (v, j)))"
    using assms(1,2) by (cases ?r) (simp_all add: iam_laws_def iam_write_laws_def)
  from guarded_written [OF g assms(3,4) this]
  show "guarded st u A (snd (create_version aws (policyARN c n) j h))"
    by (simp add: create_version_def call_unit_def Let_def)
qed

lemma UpdatePolicy_guarded:
  assumes L: "iam_laws aws c st" "iam_write_laws c st" and d: "writable u A (pol_Document p)"
  shows "preserves (guarded st u A) (UpdatePolicy aws c p)"
proof -
  let ?P = "guarded st u A" and ?arn = "policyARN c (pol_Name p)"
  have once: "preserves ?P (create_version aws ?arn j)" if "json_Marshal (pol_Document p) = Inr j" for j
    using create_version_guarded [OF L d that] .
  have retry: "preserves ?P (onerr (deleteOldPolicyVersions aws c p) wrap (\<lambda>_. onerr (create_version aws ?arn j) wrap' ok))"
    if "json_Marshal (pol_Document p) = Inr j" for j wrap wrap'
    by (intro preserves_intros guarded_keeps keeps_store(3) [OF L(1)] once [OF that])
  have "preserves ?P (updatePolicy aws c p)"
    unfolding updatePolicy_def
  proof (rule preserves_onerr_post [where Q = "\<lambda>j. json_Marshal (pol_Document p) = Inr j"])
    fix j
    assume j: "json_Marshal (pol_Document p) = Inr j"
    show "preserves ?P (\<lambda>h. let arn = ?arn in case create_version aws arn j h of
        (Inr u, h') \<Rightarrow> (Inr (), h')
      | (Inl err, h') \<Rightarrow> if is_AwsError err = Some ErrCodeLimitExceededException then
             onerr (deleteOldPolicyVersions aws c p) (Wrapf ''delete old policy versions: %s: %w'' [pol_Name p])
               (\<lambda>_. onerr (create_version aws arn j) (Wrapf ''create policy version: %s: %w'' [pol_Name p]) ok) h'
           else (Inl (Wrapf ''update policy version with arn: %s: %w'' [arn] err), h'))"
      using once [OF j] retry [OF j] unfolding preserves_def Let_def
      by (auto split: prod.splits sum.splits)
  qed (auto simp: pure_result_def preserves_intros)
  then show ?thesis unfolding UpdatePolicy_def by (intro preserves_intros)
qed

lemma CreatePolicy_guarded:
  assumes L: "iam_laws aws c st" "iam_write_laws c st" and d: "writable u A (pol_Document p)"
  shows "preserves (guarded st u A) (CreatePolicy aws c p)"
  unfolding CreatePolicy_def
proof (rule preserves_onerr_post [where Q = "\<lambda>j. json_Marshal (pol_Document p) = Inr j"])
  fix j
  assume j: "json_Marshal (pol_Document p) = Inr j"
  let ?ev = "CreatePolicyEv (iamPrefix c) j (pol_Name p)"
  have "guarded st u A (h @ [?ev r])" if "guarded st u A h" for h r
  proof -
    have "st (h @ [?ev r]) = st h \<or> (\<exists>v. st (h @ [?ev r]) = (st h)(pol_Name p \<mapsto> (v, j)))"
      using L by (cases r) (auto simp: iam_laws_def iam_write_laws_def)
    from guarded_written [OF that d j this] show ?thesis .
  qed
  then show "preserves (guarded st u A) (onerr (call (\<lambda>h. aws_CreatePolicy aws h (iamPrefix c) j (pol_Name p)) ?ev)
      (Wrapf ''unable to create policy %s: %w'' [pol_Name p]) ok)"
    by (intro preserves_intros)
qed (auto simp: pure_result_def preserves_intros)

section \<open>Removing a user\<close>

lemma writable_listed:
  assumes "iam_laws aws c st" and "guarded st u A h" and "ListPolicies aws c h = (Inr ps, h')"
  shows "\<forall>p\<in>set ps. writable u A (pol_Document p)"
proof
  fix p
  assume "p \<in> set ps"
  then have "docs st h (pol_Name p) = Some (pol_Document p)"
    using ListPolicies_ok [OF assms(1,3)] by (auto simp: comp_def intro!: map_of_is_SomeI)
  then show "writable u A (pol_Document p)"
    using docs_utf8 assms(2) access_I unfolding writable_def guarded_def by blast
qed

lemma writable_docs:
  "writable u A d \<Longrightarrow> writable u A (Remove u d)"
  "config_utf8 cfg u r \<Longrightarrow> writable u A d \<Longrightarrow> writable u A (update_doc cfg u r d)"
  "config_utf8 cfg u r \<Longrightarrow> writable u A d \<Longrightarrow>
     writable u A (Add (euc_Region cfg) (euc_AccountID cfg) (euc_RolePrefix cfg) u r d)"
  using doc_utf8_Remove doc_utf8_changed
  by (auto simp: writable_def resources_of_Remove resources_of_Add resources_of_Update_other update_doc_code)

lemma DeleteAndDetachPolicy_guarded:
  assumes L: "iam_laws aws c st" "iam_write_laws c st"
  shows "preserves (guarded st u A) (DeleteAndDetachPolicy aws c p roles)"
  unfolding DeleteAndDetachPolicy_def
proof (rule preserves_onerr_post [where Q = "\<lambda>ps. \<forall>q\<in>set ps. ap_Arn q = policyARN c (ap_PolicyName q)"])
  fix ps :: "aws_policy list"
  assume arns: "\<forall>q\<in>set ps. ap_Arn q = policyARN c (ap_PolicyName q)"
  have "preserves (guarded st u A) (delete_policy aws p q)" if "ap_Arn q = policyARN c (ap_PolicyName q)" for q
  proof -
    have "guarded st u A (h @ [DeletePolicy (ap_Arn q) r])" if "guarded st u A h" for h r
    proof (rule guarded_deleted [OF that])
      show "st (h @ [DeletePolicy (ap_Arn q) r]) = st h \<or> st (h @ [DeletePolicy (ap_Arn q) r]) = (st h)(ap_PolicyName q := None)"
        using L \<open>ap_Arn q = _\<close> by (cases r) (simp_all add: iam_laws_def iam_write_laws_def)
    qed
    then show ?thesis unfolding delete_policy_def by (intro preserves_intros)
  qed
  with arns show "preserves (guarded st u A) (case lookupPolicy ps (pol_Name p) of
      None \<Rightarrow> ok ()
    | Some existing \<Rightarrow> onerr (for_each (detach_policy aws p existing) roles) id (\<lambda>_. delete_policy aws p existing))"
    by (auto split: option.split dest: lookupPolicy_SomeD intro!: preserves_intros guarded_keeps [OF keeps_store(5) [OF L(1)]])
qed (auto intro: guarded_keeps keeps_store(1) [OF L(1)] dest: listPolicies_ok(4) [OF L(1)])

lemma RemoveUser_guarded:
  assumes L: "iam_laws aws c st" "iam_write_laws c st"
  shows "preserves (guarded st u A) (RemoveUser aws c roles u)"
  unfolding RemoveUser_def
proof (rule preserves_onerr_post [where Q = "\<lambda>ps. \<forall>p\<in>set ps. writable u A (pol_Document p)"])
  fix ps :: "Policy list"
  assume ps: "\<forall>p\<in>set ps. writable u A (pol_Document p)"
  show "preserves (guarded st u A) (for_each (remove_step aws c roles u) ps)"
  proof (rule preserves_for_each_in)
    fix p
    assume "p \<in> set ps"
    with ps have "writable u A (Remove u (pol_Document p))" by (simp add: writable_docs(1))
    then have "preserves (guarded st u A) (UpdatePolicy aws c (p\<lparr>pol_Document := Remove u (pol_Document p)\<rparr>))"
      by (intro UpdatePolicy_guarded [OF L]) simp
    then show "preserves (guarded st u A) (remove_step aws c roles u p)"
      unfolding remove_step_def Let_def
      by (intro preserves_intros DeleteAndDetachPolicy_guarded [OF L])
  qed
qed (use writable_listed [OF L(1)] in \<open>auto intro: guarded_keeps keeps_store(2) [OF L(1)]\<close>)

section \<open>Ensuring a user\<close>

lemma updatePolicies_guarded:
  assumes L: "iam_laws aws c st" "iam_write_laws c st" and "\<forall>p\<in>set ps. writable u A (pol_Document p)"
  shows "preserves (guarded st u A) (updatePolicies aws c ps)"
proof -
  have "guarded st u A h \<Longrightarrow> guarded st u A (snd (update_policies_loop aws c errs ps h))" for errs h
    using assms(3)
  proof (induction ps arbitrary: errs h)
    case Nil
    then show ?case by simp
  next
    case (Cons p ps)
    obtain r h1 where up: "UpdatePolicy aws c p h = (r, h1)" by (cases "UpdatePolicy aws c p h")
    have "guarded st u A h1"
      using preservesD [OF UpdatePolicy_guarded [OF L] up] Cons.prems by simp
    with Cons up show ?case by (cases r) simp_all
  qed
  then show ?thesis by (simp add: preserves_def updatePolicies_def case_prod_beta)
qed

lemma ensure_update_guarded:
  assumes L: "iam_laws aws c st" "iam_write_laws c st" and cfg: "config_utf8 cfg u r"
  shows "\<forall>p\<in>set (bs @ ps). writable u A (pol_Document p) \<Longrightarrow>
    preserves (guarded st u A) (ensure_update_loop aws c cfg u r bs ps handled)"
proof (induction ps arbitrary: bs handled)
  case Nil
  show ?case by (simp add: preserves_intros)
next
  case (Cons p ps)
  let ?U = "Update (euc_Region cfg) (euc_AccountID cfg) (euc_RolePrefix cfg) u r (pol_Document p)"
  show ?case
  proof (cases "Exists (pol_Document p) u")
    case False
    with Cons.IH [of "bs @ [p]"] Cons.prems show ?thesis by simp
  next
    case True
    then have w: "writable u A (fst ?U)"
      using writable_docs(2) [OF cfg, of A "pol_Document p"] Cons.prems by (simp add: update_doc_code)
    let ?q = "p\<lparr>pol_Document := fst ?U\<rparr>"
    have "preserves (guarded st u A) (updatePolicies aws c (bs @ ?q # ps))"
      using Cons.prems w by (intro updatePolicies_guarded [OF L]) auto
    moreover have "preserves (guarded st u A) (ensure_update_loop aws c cfg u r (bs @ [?q]) ps True)"
      using Cons.prems w by (intro Cons.IH) auto
    ultimately show ?thesis using True by (auto simp: case_prod_beta Let_def intro!: preserves_intros)
  qed
qed

lemma ensure_add_guarded:
  assumes L: "iam_laws aws c st" "iam_write_laws c st" and cfg: "config_utf8 cfg u r"
  shows "\<forall>p\<in>set (bs @ ps). writable u A (pol_Document p) \<Longrightarrow>
    preserves (guarded st u A) (ensure_add_loop aws c cfg u r bs ps handled)"
proof (induction ps arbitrary: bs handled)
  case Nil
  show ?case by (simp add: preserves_intros)
next
  case (Cons p ps)
  let ?d = "Add (euc_Region cfg) (euc_AccountID cfg) (euc_RolePrefix cfg) u r (pol_Document p)"
  let ?q = "p\<lparr>pol_Document := ?d\<rparr>"
  have w: "writable u A ?d" using writable_docs(3) [OF cfg] Cons.prems by simp
  have "preserves (guarded st u A) (updatePolicies aws c (bs @ ?q # ps))"
    using Cons.prems w by (intro updatePolicies_guarded [OF L]) auto
  moreover have "preserves (guarded st u A) (ensure_add_loop aws c cfg u r (bs @ [?q]) ps True)"
    using Cons.prems w by (intro Cons.IH) auto
  moreover have "preserves (guarded st u A) (ensure_add_loop aws c cfg u r (bs @ [p]) ps handled)"
    using Cons.prems by (intro Cons.IH) auto
  ultimately show ?case by (auto simp: Let_def intro!: preserves_intros)
qed

lemma EnsureUser_guarded:
  assumes L: "iam_laws aws c st" "iam_write_laws c st" and cfg: "config_utf8 cfg u r"
  shows "preserves (guarded st u A) (EnsureUser aws c cfg u r)"
  unfolding EnsureUser_def Let_def
proof (rule preserves_onerr_post [where Q = "\<lambda>ps. \<forall>p\<in>set ps. writable u A (pol_Document p)"])
  fix ps :: "Policy list"
  assume ps: "\<forall>p\<in>set ps. writable u A (pol_Document p)"
  have "writable u A (pol_Document (new_policy cfg n u r))" for n
    using doc_utf8_new_policy [OF cfg] by (simp add: writable_def new_policy_resources)
  note steps = ensure_update_guarded [OF L cfg] ensure_add_guarded [OF L cfg] CreatePolicy_guarded [OF L this]
    guarded_keeps [OF keeps_store(4) [OF L(1)]] guarded_keeps [OF keeps_store(1) [OF L(1)]]
  show "preserves (guarded st u A)
     (onerr (if u \<in> set (concat (map (\<lambda>p. ListUsers (pol_Document p)) ps))
             then ensure_update_loop aws c cfg u r [] ps False else ensure_add_loop aws c cfg u r [] ps False) id
     (\<lambda>userHandled. onerr (if \<not> userHandled then
               onerr (CreatePolicy aws c (new_policy cfg (length ps) u r)) id (\<lambda>q. attachPolicyToAwsLoginRoles aws c cfg [q])
             else ok ()) id
     (\<lambda>_. onerr (listIAMPolicies aws c) id (\<lambda>iamPolicies. attachPolicyToAwsLoginRoles aws c cfg iamPolicies))))"
    unfolding listIAMPolicies_def by (intro preserves_intros steps) (use ps in simp_all)
qed (use writable_listed [OF L(1)] in \<open>auto intro: guarded_keeps keeps_store(2) [OF L(1)]\<close>)

text \<open>On every outcome, no other user gains access.\<close>

lemma iam_operations_grant_nobody_else:
  assumes L: "iam_laws aws c st" "iam_write_laws c st" and "v \<noteq> u"
  shows "config_utf8 cfg u r \<Longrightarrow> access (docs st (snd (EnsureUser aws c cfg u r h))) v \<subseteq> access (docs st h) v"
    and "access (docs st (snd (RemoveUser aws c roles u h))) v \<subseteq> access (docs st h) v"
proof -
  have g: "guarded st u (access (docs st h)) h" by (simp add: guarded_def)
  show "config_utf8 cfg u r \<Longrightarrow> access (docs st (snd (EnsureUser aws c cfg u r h))) v \<subseteq> access (docs st h) v"
    using EnsureUser_guarded [OF L] g \<open>v \<noteq> u\<close> unfolding preserves_def guarded_def by blast
  show "access (docs st (snd (RemoveUser aws c roles u h))) v \<subseteq> access (docs st h) v"
    using RemoveUser_guarded [OF L] g \<open>v \<noteq> u\<close> unfolding preserves_def guarded_def by blast
qed

end
