(* ===== verification/User_Lifecycle.thy ===== *)
theory User_Lifecycle
  imports Iam_Failures Iam_Server Wiring
begin

text \<open>
  The life of the \<open>PostgreSQLUser\<close> resources of a cluster: resources are created, edited and marked for
  deletion, and between these steps the reconciler that \<open>main\<close> registers makes its passes, one at a time
  (\<open>MaxConcurrentReconciles\<close> is 1). A pass is a whole \<open>user_Reconcile\<close>, with any answers of PostgreSQL,
  AWS and Kubernetes, failures included.

  The Kubernetes store is a map from keys to objects. A read returns the stored object or an error. An
  update that is answered without an error is stored; one that is answered with an error may be
  stored or not. An object that is marked for deletion and has no finalizer left is gone.
\<close>

section \<open>The cluster\<close>

type_synonym users = "Request \<Rightarrow> PostgreSQLUser option"

record cluster =
  cl_users :: users
  cl_world :: world

definition user_key :: "PostgreSQLUser \<Rightarrow> Request" where
  "user_key u = \<lparr>req_Namespace = om_Namespace (pu_Meta u), req_Name = om_Name (pu_Meta u)\<rparr>"

definition finalized :: "PostgreSQLUser \<Rightarrow> bool" where
  "finalized u = (userFinalizer \<in> set (om_Finalizers (pu_Meta u)))"

definition marked :: "PostgreSQLUser \<Rightarrow> bool" where
  "marked u = (om_DeletionTimestamp (pu_Meta u) \<noteq> None)"

definition stored :: "PostgreSQLUser \<Rightarrow> PostgreSQLUser option" where
  "stored u = (if marked u \<and> om_Finalizers (pu_Meta u) = [] then None else Some u)"

definition reads :: "api \<Rightarrow> users \<Rightarrow> bool" where
  "reads api us \<longleftrightarrow>
     (\<forall>ns n u. api_GetUser api ns n = Inr u \<longrightarrow> us \<lparr>req_Namespace = ns, req_Name = n\<rparr> = Some u)"

inductive applied :: "kube_event list \<Rightarrow> users \<Rightarrow> users \<Rightarrow> bool" where
  applied_none: "applied [] us us"
| applied_update: "applied [UpdateUser u a] us (us(user_key u := stored u))"
| applied_failed: "applied [UpdateUser u (Some e)] us us"

inductive_simps applied_simps: "applied [] us us'" "applied [UpdateUser u a] us us'"

datatype cluster_event =
    Created Request
  | Edited Request
  | Marked Request
  | Passed Request Result "goerr option"

section \<open>Steps\<close>

text \<open>An edit changes neither the user name nor what Kubernetes and the controller keep in the metadata.\<close>

definition same_user :: "PostgreSQLUser \<Rightarrow> PostgreSQLUser \<Rightarrow> bool" where
  "same_user u u' \<longleftrightarrow>
     user_key u' = user_key u \<and> us_Name (pu_Spec u') = us_Name (pu_Spec u) \<and>
     om_Finalizers (pu_Meta u') = om_Finalizers (pu_Meta u) \<and>
     om_DeletionTimestamp (pu_Meta u') = om_DeletionTimestamp (pu_Meta u)"

inductive cluster_step :: "aws \<Rightarrow> ControllerConfiguration \<Rightarrow> cluster \<Rightarrow> cluster_event \<Rightarrow> cluster \<Rightarrow> bool"
  for aws config where
  create: "cl_users cl (user_key u) = None \<Longrightarrow> \<not> marked u \<Longrightarrow> utf8 (us_Name (pu_Spec u)) \<Longrightarrow>
    cluster_step aws config cl (Created (user_key u)) (cl\<lparr>cl_users := (cl_users cl)(user_key u \<mapsto> u)\<rparr>)"
| edit: "cl_users cl (user_key u) = Some u \<Longrightarrow> same_user u u' \<Longrightarrow>
    cluster_step aws config cl (Edited (user_key u)) (cl\<lparr>cl_users := (cl_users cl)(user_key u \<mapsto> u')\<rparr>)"
| mark: "cl_users cl (user_key u) = Some u \<Longrightarrow> \<not> marked u \<Longrightarrow>
    u' = u\<lparr>pu_Meta := (pu_Meta u)\<lparr>om_DeletionTimestamp := Some t\<rparr>\<rparr> \<Longrightarrow>
    cluster_step aws config cl (Marked (user_key u)) (cl\<lparr>cl_users := (cl_users cl)(user_key u := stored u')\<rparr>)"
| reconcile: "reads api (cl_users cl) \<Longrightarrow>
    user_Reconcile srv api render session rngC rngR rngX (user_reconciler_of aws api clock config) req (cl_world cl) = Some ((res, err), w') \<Longrightarrow>
    w_kube w' = w_kube (cl_world cl) @ new \<Longrightarrow> applied new (cl_users cl) us' \<Longrightarrow>
    cluster_step aws config cl (Passed req res err) \<lparr>cl_users = us', cl_world = w'\<rparr>"

inductive cluster_run :: "aws \<Rightarrow> ControllerConfiguration \<Rightarrow> cluster \<Rightarrow> cluster_event list \<Rightarrow> cluster \<Rightarrow> bool"
  for aws config where
  run_done: "cluster_run aws config cl [] cl"
| run_step: "cluster_run aws config cl ls cl1 \<Longrightarrow> cluster_step aws config cl1 l cl2 \<Longrightarrow>
    cluster_run aws config cl (ls @ [l]) cl2"

section \<open>One pass\<close>

lemma utf8_sanitized: "utf8 (us_Name (pu_Spec u)) \<Longrightarrow> utf8 (us_Name (pu_Spec (sanitizedUser u)))"
  by (simp add: sanitizedUser_name) (subst utf8_map, auto simp: byte_def)

text \<open>What a pass does to AWS and to the resource, on every outcome.\<close>

lemma pass_cases:
  assumes "user_Reconcile srv api render session rngC rngR rngX r req w = Some ((res, err), w')"
  shows "w' = w \<and> res = no_requeue \<or>
    (\<exists>u. api_GetUser api (req_Namespace req) (req_Name req) = Inr u \<and>
      ((\<not> marked u \<and> \<not> finalized u \<and> w_aws w' = w_aws w \<and>
         (\<exists>a. w_kube w' = w_kube w @ [UpdateUser (u\<lparr>pu_Meta := AddFinalizer userFinalizer (pu_Meta u)\<rparr>) a] \<and> (res_Requeue res \<longrightarrow> a = None)))
       \<or> (\<not> marked u \<and> finalized u \<and> res = no_requeue \<and> w_kube w' = w_kube w \<and>
         w_aws w' = snd (ur_EnsureIAMUser r (iam_client r) (ensure_config r) (us_Name (pu_Spec u)) (us_Name (pu_Spec (sanitizedUser u))) (w_aws w)))
       \<or> (marked u \<and> finalized u \<and> res = no_requeue \<and> w_kube w' = w_kube w \<and>
         w_aws w' = snd (ur_RemoveIAMUser r (iam_client r) (ur_AWSLoginRoles r) (us_Name (pu_Spec u)) (w_aws w)))
       \<or> (marked u \<and> finalized u \<and> (\<exists>a. w_kube w' = w_kube w @ [UpdateUser (u\<lparr>pu_Meta := RemoveFinalizer userFinalizer (pu_Meta u)\<rparr>) a] \<and> (res_Requeue res \<longrightarrow> a = None)) \<and>
         ur_RemoveIAMUser r (iam_client r) (ur_AWSLoginRoles r) (us_Name (pu_Spec u)) (w_aws w) = (Inr (), w_aws w'))))"
proof (cases "api_GetUser api (req_Namespace req) (req_Name req)")
  case (Inl e)
  with assms show ?thesis by (auto simp: user_Reconcile_def user_reconcile_def)
next
  case (Inr u)
  show ?thesis
  proof (cases session)
    case (Some e)
    with assms Inr show ?thesis by (auto simp: user_Reconcile_def user_reconcile_def)
  next
    case None
    note run = assms [unfolded user_Reconcile_def user_reconcile_def Inr None sum.case option.case]
    show ?thesis
    proof (cases "marked u")
      case True
      with run have "user_deletion api r u w = ((res, err), w')" by (simp add: marked_def)
      with Inr True show ?thesis
        by (auto simp: user_deletion_def finalized_def finalizeUser_def update_meta_def kube_write_def on_aws_def Let_def of_error_def requeueResult_def no_requeue_def
            split: if_splits prod.splits sum.splits option.splits)
    next
      case False
      show ?thesis
      proof (cases "finalized u")
        case True
        with False run have "user_sync srv render rngC rngR rngX r (req_Namespace req) u w = Some ((res, err), w')"
          by (simp add: marked_def finalized_def)
        with Inr True False show ?thesis
          by (auto simp: user_sync_def Let_def on_aws_def split: option.splits prod.splits if_splits)
      next
        case unfinalized: False
        with False run Inr show ?thesis
          by (auto simp: marked_def finalized_def update_meta_def kube_write_def Let_def of_error_def requeueResult_def no_requeue_def split: prod.splits sum.splits option.splits)
      qed
    qed
  qed
qed

section \<open>Who can connect\<close>

text \<open>Whoever can connect through a policy has a resource that carries the finalizer.\<close>

definition accountable :: "policy_store \<Rightarrow> cluster \<Rightarrow> bool" where
  "accountable st cl \<longleftrightarrow>
     (\<forall>v. access (docs st (w_aws (cl_world cl))) v \<noteq> {} \<longrightarrow>
        (\<exists>k u. cl_users cl k = Some u \<and> us_Name (pu_Spec u) = v \<and> finalized u))"

definition keyed :: "users \<Rightarrow> bool" where
  "keyed us \<longleftrightarrow> (\<forall>k u. us k = Some u \<longrightarrow> user_key u = k \<and> utf8 (us_Name (pu_Spec u)))"

definition config_names_utf8 :: "ControllerConfiguration \<Rightarrow> bool" where
  "config_names_utf8 config \<longleftrightarrow>
     utf8 (aws_Region (cfg_AWS config)) \<and> utf8 (aws_AccountID (cfg_AWS config)) \<and> utf8 (cfg_UserRolePrefix config)"

abbreviation config_client :: "ControllerConfiguration \<Rightarrow> Client" where
  "config_client config \<equiv> NewClient (aws_AccountID (cfg_AWS config)) (cfg_IAMPolicyPrefix config)"

lemma user_meta_simps [simp]:
  "user_key (u\<lparr>pu_Meta := AddFinalizer f (pu_Meta u)\<rparr>) = user_key u"
  "user_key (u\<lparr>pu_Meta := RemoveFinalizer f (pu_Meta u)\<rparr>) = user_key u"
  "marked (u\<lparr>pu_Meta := AddFinalizer f (pu_Meta u)\<rparr>) = marked u"
  "marked (u\<lparr>pu_Meta := RemoveFinalizer f (pu_Meta u)\<rparr>) = marked u"
  "finalized (u\<lparr>pu_Meta := AddFinalizer userFinalizer (pu_Meta u)\<rparr>)"
  "\<not> finalized (u\<lparr>pu_Meta := RemoveFinalizer userFinalizer (pu_Meta u)\<rparr>)"
  by (auto simp: user_key_def marked_def finalized_def AddFinalizer_def RemoveFinalizer_def)

lemma same_user_simps:
  "same_user u u' \<Longrightarrow> user_key u' = user_key u" "same_user u u' \<Longrightarrow> us_Name (pu_Spec u') = us_Name (pu_Spec u)"
  "same_user u u' \<Longrightarrow> finalized u' = finalized u" "same_user u u' \<Longrightarrow> marked u' = marked u"
  by (simp_all add: same_user_def finalized_def marked_def)

lemma stored_finalized: "finalized u \<Longrightarrow> stored u = Some u"
  by (auto simp: stored_def finalized_def)

lemma stored_Some: "stored u = Some u' \<Longrightarrow> u' = u"
  by (auto simp: stored_def split: if_splits)

lemma reconciler_simps [simp]:
  "iam_client (user_reconciler_of aws api clock config) = config_client config"
  "ur_EnsureIAMUser (user_reconciler_of aws api clock config) = EnsureUser aws"
  "ur_RemoveIAMUser (user_reconciler_of aws api clock config) = RemoveUser aws"
  by (simp_all add: iam_client_def user_reconciler_of_def)

lemma config_utf8_pass:
  assumes "config_names_utf8 config" and "utf8 (us_Name (pu_Spec u))"
  shows "config_utf8 (ensure_config (user_reconciler_of aws api clock config)) (us_Name (pu_Spec u)) (us_Name (pu_Spec (sanitizedUser u)))"
  using assms utf8_sanitized [OF assms(2)]
  by (simp add: config_utf8_def config_names_utf8_def ensure_config_def user_reconciler_of_def)

text \<open>A change of access that is covered by the resources that were there, or by the resource
  of the pass.\<close>

lemma accountable_step:
  assumes acc: "accountable st cl" and keyed: "keyed (cl_users cl)" and u: "cl_users cl k = Some u"
    and others: "\<And>v. v \<noteq> us_Name (pu_Spec u) \<Longrightarrow>
      access (docs st (w_aws w')) v \<subseteq> access (docs st (w_aws (cl_world cl))) v"
    and own: "finalized u \<and> us' = cl_users cl \<or> access (docs st (w_aws w')) (us_Name (pu_Spec u)) = {}"
    and us': "\<And>j. j \<noteq> k \<Longrightarrow> us' j = cl_users cl j"
  shows "accountable st \<lparr>cl_users = us', cl_world = w'\<rparr>"
  unfolding accountable_def
proof (intro allI impI)
  fix v
  assume v: "access (docs st (w_aws (cl_world \<lparr>cl_users = us', cl_world = w'\<rparr>))) v \<noteq> {}"
  show "\<exists>k u. cl_users \<lparr>cl_users = us', cl_world = w'\<rparr> k = Some u \<and> us_Name (pu_Spec u) = v \<and> finalized u"
  proof (cases "v = us_Name (pu_Spec u)")
    case True
    with own v u show ?thesis by auto
  next
    case False
    with others v have "access (docs st (w_aws (cl_world cl))) v \<noteq> {}" by auto
    with acc obtain j x where "cl_users cl j = Some x" "us_Name (pu_Spec x) = v" "finalized x"
      unfolding accountable_def by blast
    moreover from this False u have "j \<noteq> k" by auto
    ultimately show ?thesis using us' [of j] by (intro exI [of _ j] exI [of _ x]) simp
  qed
qed

lemma keyed_Some: "keyed us \<Longrightarrow> user_key u = k \<Longrightarrow> utf8 (us_Name (pu_Spec u)) \<Longrightarrow> keyed (us(k \<mapsto> u))"
  by (simp add: keyed_def)

lemma keyedD: "keyed us \<Longrightarrow> us k = Some u \<Longrightarrow> user_key u = k \<and> utf8 (us_Name (pu_Spec u))"
  by (simp add: keyed_def)

lemma keyed_upd: "keyed us \<Longrightarrow> user_key u = k \<Longrightarrow> utf8 (us_Name (pu_Spec u)) \<Longrightarrow> keyed (us(k := stored u))"
  by (auto simp: keyed_def dest: stored_Some)

lemma accountable_upd: "accountable st (cl\<lparr>cl_users := us\<rparr>) = accountable st \<lparr>cl_users = us, cl_world = cl_world cl\<rparr>"
  by (simp add: accountable_def)

lemma accountable_kept:
  assumes "accountable st cl" and "w_aws w' = w_aws (cl_world cl)"
    and "\<And>k u. cl_users cl k = Some u \<Longrightarrow> finalized u \<Longrightarrow>
      \<exists>u'. us' k = Some u' \<and> us_Name (pu_Spec u') = us_Name (pu_Spec u) \<and> finalized u'"
  shows "accountable st \<lparr>cl_users = us', cl_world = w'\<rparr>"
  unfolding accountable_def
proof (intro allI impI)
  fix v
  assume "access (docs st (w_aws (cl_world \<lparr>cl_users = us', cl_world = w'\<rparr>))) v \<noteq> {}"
  then obtain k u where "cl_users cl k = Some u" "us_Name (pu_Spec u) = v" "finalized u"
    using assms(1,2) unfolding accountable_def by (metis cluster.select_convs(2))
  with assms(3) show "\<exists>k u. cl_users \<lparr>cl_users = us', cl_world = w'\<rparr> k = Some u \<and> us_Name (pu_Spec u) = v \<and> finalized u"
    by fastforce
qed

section \<open>The effects of a pass\<close>

abbreviation with_finalizer :: "PostgreSQLUser \<Rightarrow> PostgreSQLUser" where
  "with_finalizer u \<equiv> u\<lparr>pu_Meta := AddFinalizer userFinalizer (pu_Meta u)\<rparr>"

abbreviation without_finalizer :: "PostgreSQLUser \<Rightarrow> PostgreSQLUser" where
  "without_finalizer u \<equiv> u\<lparr>pu_Meta := RemoveFinalizer userFinalizer (pu_Meta u)\<rparr>"

lemma applied_one:
  assumes "applied [UpdateUser u a] us us'" and "res_Requeue res \<longrightarrow> a = None"
  shows "us' = us(user_key u := stored u) \<or> us' = us \<and> \<not> res_Requeue res"
  using assms unfolding applied_simps by auto

lemma pass_effects:
  assumes keyed: "keyed (cl_users cl)" and reads: "reads api (cl_users cl)"
    and run: "user_Reconcile srv api render session rngC rngR rngX (user_reconciler_of aws api clock config) req (cl_world cl) = Some ((res, err), w')"
    and kube: "w_kube w' = w_kube (cl_world cl) @ new" "applied new (cl_users cl) us'"
  obtains (idle) "w' = cl_world cl" "us' = cl_users cl" "res = no_requeue"
    | (add) u where "cl_users cl req = Some u" "\<not> marked u" "\<not> finalized u" "w_aws w' = w_aws (cl_world cl)"
        "us' = (cl_users cl)(req := stored (with_finalizer u)) \<or> us' = cl_users cl \<and> \<not> res_Requeue res"
    | (sync) u where "cl_users cl req = Some u" "finalized u" "us' = cl_users cl" "res = no_requeue"
        "w_aws w' = snd (EnsureUser aws (config_client config) (ensure_config (user_reconciler_of aws api clock config))
           (us_Name (pu_Spec u)) (us_Name (pu_Spec (sanitizedUser u))) (w_aws (cl_world cl)))"
    | (kept) u where "cl_users cl req = Some u" "finalized u" "us' = cl_users cl" "res = no_requeue"
        "w_aws w' = snd (RemoveUser aws (config_client config) (ur_AWSLoginRoles (user_reconciler_of aws api clock config))
           (us_Name (pu_Spec u)) (w_aws (cl_world cl)))"
    | (removed) u where "cl_users cl req = Some u" "marked u" "finalized u"
        "us' = (cl_users cl)(req := stored (without_finalizer u)) \<or> us' = cl_users cl \<and> \<not> res_Requeue res"
        "RemoveUser aws (config_client config) (ur_AWSLoginRoles (user_reconciler_of aws api clock config))
           (us_Name (pu_Spec u)) (w_aws (cl_world cl)) = (Inr (), w_aws w')"
proof -
  have new: "w_kube w' = w_kube (cl_world cl) @ xs \<longleftrightarrow> new = xs" "w_kube w' = w_kube (cl_world cl) \<longleftrightarrow> new = []" for xs
    using kube(1) by auto
  have none: "us' = cl_users cl" if "new = []" using kube(2) that by (simp add: applied_simps)
  have got: "cl_users cl req = Some u \<and> user_key u = req" if "api_GetUser api (req_Namespace req) (req_Name req) = Inr u" for u
    using reads that keyed unfolding reads_def keyed_def by (metis Request.surjective unit.exhaust)
  have update: "us' = (cl_users cl)(user_key u := stored u) \<or> us' = cl_users cl \<and> \<not> res_Requeue res"
    if "new = [UpdateUser u a]" and "res_Requeue res \<longrightarrow> a = None" for u a
    using applied_one kube(2) that by metis
  from pass_cases [OF run, unfolded new reconciler_simps] show thesis
  proof (elim disjE exE conjE)
    assume w: "w' = cl_world cl" and "res = no_requeue"
    moreover from w have "new = []" using kube(1) by simp
    ultimately show thesis using idle none by blast
  next
    fix u a
    assume u: "api_GetUser api (req_Namespace req) (req_Name req) = Inr u" "\<not> marked u" "\<not> finalized u" "w_aws w' = w_aws (cl_world cl)"
      and ev: "new = [UpdateUser (with_finalizer u) a]" "res_Requeue res \<longrightarrow> a = None"
    from update [OF ev] got [OF u(1)] u(2-) show thesis by (intro add) simp_all
  next
    fix u a
    assume u: "api_GetUser api (req_Namespace req) (req_Name req) = Inr u" "marked u" "finalized u"
      and ev: "new = [UpdateUser (without_finalizer u) a]" "res_Requeue res \<longrightarrow> a = None"
      and rm: "RemoveUser aws (config_client config) (ur_AWSLoginRoles (user_reconciler_of aws api clock config))
           (us_Name (pu_Spec u)) (w_aws (cl_world cl)) = (Inr (), w_aws w')"
    from update [OF ev] got [OF u(1)] u(2-) rm show thesis by (intro removed) simp_all
  qed (use got none sync kept in blast)+
qed

lemma pass_keyed:
  assumes inv: "keyed (cl_users cl)" and run: "reads api (cl_users cl)"
    "user_Reconcile srv api render session rngC rngR rngX (user_reconciler_of aws api clock config) req (cl_world cl) = Some ((res, err), w')"
    "w_kube w' = w_kube (cl_world cl) @ new" "applied new (cl_users cl) us'"
  shows "keyed us'"
proof -
  have key: "user_key u = req \<and> utf8 (us_Name (pu_Spec u))" if "cl_users cl req = Some u" for u
    using inv that by (auto simp: keyed_def)
  show ?thesis
    by (rule pass_effects [OF inv run]) (use inv key in \<open>auto intro!: keyed_upd\<close>)
qed

lemma pass_accountable:
  assumes L: "iam_laws aws (config_client config) st" "iam_write_laws (config_client config) st" "config_names_utf8 config"
    and inv: "keyed (cl_users cl)" "accountable st cl" and run: "reads api (cl_users cl)"
    "user_Reconcile srv api render session rngC rngR rngX (user_reconciler_of aws api clock config) req (cl_world cl) = Some ((res, err), w')"
    "w_kube w' = w_kube (cl_world cl) @ new" "applied new (cl_users cl) us'"
  shows "accountable st \<lparr>cl_users = us', cl_world = w'\<rparr>"
proof (rule pass_effects [OF inv(1) run])
  assume "w' = cl_world cl" "us' = cl_users cl"
  with inv(2) show ?thesis by (auto intro: accountable_kept)
next
  fix u
  assume u: "cl_users cl req = Some u" "\<not> finalized u" and aws: "w_aws w' = w_aws (cl_world cl)"
    and us': "us' = (cl_users cl)(req := stored (with_finalizer u)) \<or> us' = cl_users cl \<and> \<not> res_Requeue res"
  show ?thesis using inv(2) aws by (rule accountable_kept) (use u us' in auto)
next
  fix u
  assume u: "cl_users cl req = Some u" "finalized u" "us' = cl_users cl"
    and aws: "w_aws w' = snd (EnsureUser aws (config_client config) (ensure_config (user_reconciler_of aws api clock config))
           (us_Name (pu_Spec u)) (us_Name (pu_Spec (sanitizedUser u))) (w_aws (cl_world cl)))"
  have "utf8 (us_Name (pu_Spec u))" using inv(1) u(1) by (auto simp: keyed_def)
  note safe = iam_operations_grant_nobody_else(1) [OF L(1,2) _ config_utf8_pass [OF L(3) this]]
  show ?thesis by (rule accountable_step [OF inv(2,1) u(1)]) (use u safe aws in auto)
next
  fix u
  assume u: "cl_users cl req = Some u" "finalized u" "us' = cl_users cl"
    and aws: "w_aws w' = snd (RemoveUser aws (config_client config) (ur_AWSLoginRoles (user_reconciler_of aws api clock config))
           (us_Name (pu_Spec u)) (w_aws (cl_world cl)))"
  show ?thesis
    by (rule accountable_step [OF inv(2,1) u(1)]) (use u iam_operations_grant_nobody_else(2) [OF L(1,2)] aws in auto)
next
  fix u
  assume u: "cl_users cl req = Some u"
    and us': "us' = (cl_users cl)(req := stored (without_finalizer u)) \<or> us' = cl_users cl \<and> \<not> res_Requeue res"
    and rm: "RemoveUser aws (config_client config) (ur_AWSLoginRoles (user_reconciler_of aws api clock config))
           (us_Name (pu_Spec u)) (w_aws (cl_world cl)) = (Inr (), w_aws w')"
  have acc: "access (docs st (w_aws w')) v =
      (if v = us_Name (pu_Spec u) then {} else access (docs st (w_aws (cl_world cl))) v)" for v
    using RemoveUser_docs [OF L(1) rm] by (simp add: access_remove_spec)
  show ?thesis by (rule accountable_step [OF inv(2,1) u]) (use acc us' in auto)
qed

section \<open>Runs\<close>

lemma cl_users_upd: "cl_users (cl\<lparr>cl_users := us\<rparr>) = us"
  by simp

lemma step_keyed: "cluster_step aws config cl l cl' \<Longrightarrow> keyed (cl_users cl) \<Longrightarrow> keyed (cl_users cl')"
proof (induction rule: cluster_step.induct)
  case (create cl u)
  from keyed_Some [OF create(4) refl create(3)] show ?case by (simp only: cl_users_upd)
next
  case (edit cl u u')
  have "utf8 (us_Name (pu_Spec u'))" "user_key u' = user_key u"
    using same_user_simps(1,2) [OF edit(2)] keyedD [OF edit(3,1)] by simp_all
  from keyed_Some [OF edit(3) this(2,1)] show ?case by (simp only: cl_users_upd)
next
  case (mark cl u u' t)
  have "utf8 (us_Name (pu_Spec u'))" "user_key u' = user_key u"
    using mark(3) keyedD [OF mark(4,1)] by (simp_all add: user_key_def)
  from keyed_upd [OF mark(4) this(2,1)] show ?case by (simp only: cl_users_upd)
next
  case (reconcile api cl srv render session rngC rngR rngX clock req res err w' new us')
  from pass_keyed [OF reconcile(5,1,2,3,4)] show ?case by simp
qed

lemma step_accountable:
  assumes "cluster_step aws config cl l cl'"
    and L: "iam_laws aws (config_client config) st" "iam_write_laws (config_client config) st" "config_names_utf8 config"
    and inv: "keyed (cl_users cl)" "accountable st cl"
  shows "accountable st cl'"
  using assms(1) inv
proof (induction rule: cluster_step.induct)
  case (create cl u)
  then have "accountable st \<lparr>cl_users = (cl_users cl)(user_key u \<mapsto> u), cl_world = cl_world cl\<rparr>"
    by (intro accountable_kept) auto
  then show ?case by (simp only: accountable_upd)
next
  case (edit cl u u')
  then have "accountable st \<lparr>cl_users = (cl_users cl)(user_key u \<mapsto> u'), cl_world = cl_world cl\<rparr>"
    using same_user_simps [OF edit(2)] by (intro accountable_kept) auto
  then show ?case by (simp only: accountable_upd)
next
  case (mark cl u u' t)
  have "stored u' = Some u' \<and> finalized u'" if "finalized u" using that mark(3) by (auto simp: finalized_def stored_def)
  with mark have "accountable st \<lparr>cl_users = (cl_users cl)(user_key u := stored u'), cl_world = cl_world cl\<rparr>"
    by (intro accountable_kept) auto
  then show ?case by (simp only: accountable_upd)
next
  case (reconcile api cl srv render session rngC rngR rngX clock req res err w' new us')
  from pass_accountable [OF L reconcile(5,6,1,2,3,4)] show ?case by simp
qed

lemma run_keyed: "cluster_run aws config cl ls cl' \<Longrightarrow> keyed (cl_users cl) \<Longrightarrow> keyed (cl_users cl')"
  by (induction rule: cluster_run.induct) (auto dest: step_keyed)

lemma run_accountable:
  assumes "cluster_run aws config cl ls cl'"
    and "iam_laws aws (config_client config) st" "iam_write_laws (config_client config) st" "config_names_utf8 config"
    and "keyed (cl_users cl)" "accountable st cl"
  shows "accountable st cl'"
  using assms
proof (induction rule: cluster_run.induct)
  case (run_step cl ls cl1 l cl2)
  then show ?case using step_accountable run_keyed by blast
qed

section \<open>How often a pass asks for another one\<close>

text \<open>How many changes of its finalizer a resource can still see.\<close>

definition rank :: "users \<Rightarrow> Request \<Rightarrow> nat" where
  "rank us k = (case us k of None \<Rightarrow> 0 | Some u \<Rightarrow> (if finalized u then 1 else if marked u then 0 else 2))"

definition requeued :: "Request \<Rightarrow> cluster_event \<Rightarrow> bool" where
  "requeued k l = (case l of Passed req res err \<Rightarrow> req = k \<and> res_Requeue res | _ \<Rightarrow> False)"

lemma step_rank:
  assumes "cluster_step aws config cl l cl'" and "keyed (cl_users cl)" and "l \<noteq> Created k"
  shows "rank (cl_users cl') k + (if requeued k l then 1 else 0) \<le> rank (cl_users cl) k"
  using assms
proof (induction rule: cluster_step.induct)
  case (create cl u)
  then show ?case by (simp add: requeued_def rank_def)
next
  case (edit cl u u')
  with same_user_simps [OF edit(2)] show ?case by (simp add: requeued_def rank_def)
next
  case (mark cl u u' t)
  then show ?case by (auto simp: requeued_def rank_def stored_def finalized_def marked_def)
next
  case (reconcile api cl srv render session rngC rngR rngX clock req res err w' new us')
  let ?R = "if req = k \<and> res_Requeue res then 1 else (0::nat)"
  have "rank us' k + ?R \<le> rank (cl_users cl) k"
  proof (rule pass_effects [OF reconcile(5,1,2,3,4)])
    fix u
    assume u: "cl_users cl req = Some u" "\<not> marked u" "\<not> finalized u"
      and "us' = (cl_users cl)(req := stored (with_finalizer u)) \<or> us' = cl_users cl \<and> \<not> res_Requeue res"
    with stored_finalized [of "with_finalizer u"] show ?thesis by (auto simp: rank_def)
  next
    fix u
    assume u: "cl_users cl req = Some u" "marked u" "finalized u"
      and "us' = (cl_users cl)(req := stored (without_finalizer u)) \<or> us' = cl_users cl \<and> \<not> res_Requeue res"
    with stored_Some [of "without_finalizer u"] show ?thesis
      by (cases "k = req"; cases "stored (without_finalizer u)") (auto simp: rank_def)
  qed (simp_all add: no_requeue_def)
  then show ?case by (simp add: requeued_def)
qed

lemma run_rank:
  assumes "cluster_run aws config cl ls cl'" and "keyed (cl_users cl)" and "Created k \<notin> set ls"
  shows "rank (cl_users cl') k + length (filter (requeued k) ls) \<le> rank (cl_users cl) k"
  using assms
proof (induction rule: cluster_run.induct)
  case (run_done cl)
  show ?case by simp
next
  case (run_step cl ls cl1 l cl2)
  then have "rank (cl_users cl2) k + (if requeued k l then 1 else 0) \<le> rank (cl_users cl1) k"
    using step_rank run_keyed by (metis in_set_conv_decomp)
  with run_step show ?case by (cases "requeued k l") simp_all
qed
section \<open>Properties\<close>

text \<open>C2. In every state a cluster can get into, whoever can connect to some role through an IAM policy has a
  \<open>PostgreSQLUser\<close> resource with that name which still carries the controller's finalizer, so that its
  deletion will revoke the access. This holds for any interleaving of creations, edits that keep the
  name, deletions and passes of the reconciler over any number of resources, and for any
  failures of PostgreSQL, AWS and Kubernetes during the passes.\<close>

theorem cluster_accountable:
  assumes "iam_laws aws (config_client config) st" and "iam_write_laws (config_client config) st"
    and "config_names_utf8 config"
    and "cl_users cl0 = Map.empty" and "\<forall>v. access (docs st (w_aws (cl_world cl0))) v = {}"
    and "cluster_run aws config cl0 ls cl" and "access (docs st (w_aws (cl_world cl))) v \<noteq> {}"
  shows "\<exists>k u. cl_users cl k = Some u \<and> us_Name (pu_Spec u) = v \<and> userFinalizer \<in> set (om_Finalizers (pu_Meta u))"
proof -
  have "keyed (cl_users cl0)" "accountable st cl0" using assms(4,5) by (simp_all add: keyed_def accountable_def)
  from run_accountable [OF assms(6,1-3) this] assms(7) show ?thesis by (simp add: accountable_def finalized_def)
qed

text \<open>C8. The passes over a resource come to an end: however many passes are made, over this and over other
  resources, and whatever fails, at most two of the passes over a resource ask for another one at once, as
  long as the resource is not created anew. Every other pass is the last one until something changes, or
  reports an error.\<close>

theorem user_requeues_bounded:
  assumes "cluster_run aws config cl ls cl'" and "keyed (cl_users cl)" and "Created k \<notin> set ls"
  shows "length (filter (requeued k) ls) \<le> 2"
proof -
  have "rank (cl_users cl) k \<le> 2" by (simp add: rank_def split: option.split)
  with run_rank [OF assms] show ?thesis by simp
qed

section \<open>Witnesses\<close>

definition life_key :: Request where
  "life_key = \<lparr>req_Namespace = ''ns'', req_Name = ''r''\<rparr>"

definition life_user :: "string list \<Rightarrow> PostgreSQLUser" where
  "life_user fs = \<lparr>pu_Meta = \<lparr>om_Name = ''r'', om_Namespace = ''ns'', om_Finalizers = fs, om_DeletionTimestamp = None\<rparr>,
     pu_Spec = \<lparr>us_Name = ''u'', us_Read = None, us_Write = None\<rparr>\<rparr>"

definition life_api :: "string list \<Rightarrow> api" where
  "life_api fs = demo_api\<lparr>api_GetUser := (\<lambda>ns n. if ns = ''ns'' \<and> n = ''r'' then Inr (life_user fs) else Inl (ApiError True []))\<rparr>"

definition life_config :: ControllerConfiguration where
  "life_config = RegisterFlags zero_config"

definition life_aws :: aws where
  "life_aws = ref_aws (config_client life_config) []"

definition life_store :: policy_store where
  "life_store = ref_store (config_client life_config) []"

definition life_pass :: "string list \<Rightarrow> world \<Rightarrow> ((Result \<times> goerr option) \<times> world) option" where
  "life_pass fs = user_Reconcile (ref_server id (\<lambda>_. [])) (life_api fs) (\<lambda>_. []) None id id id
     (user_reconciler_of life_aws (life_api fs) (\<lambda>_ _ _. 0) life_config) life_key"

definition life_world :: "nat \<Rightarrow> world" where
  "life_world n = ((\<lambda>w. snd (the (life_pass [userFinalizer] w))) ^^ n) (snd (the (life_pass [] empty_world)))"

lemma life_passes:
  "life_pass [] empty_world = Some ((requeueResult, None), life_world 0)"
  "life_pass [userFinalizer] (life_world 0) = Some ((no_requeue, None), life_world 1)"
  "w_kube (life_world 0) = [UpdateUser (life_user [userFinalizer]) None]"
  "w_kube (life_world 1) = [UpdateUser (life_user [userFinalizer]) None]"
  by code_simp+

lemma ref_iam_write_laws: "iam_write_laws c (ref_store c init)"
  by (auto simp: iam_write_laws_def ref_store_def)

lemma life_laws:
  "iam_laws life_aws (config_client life_config) life_store"
  "iam_write_laws (config_client life_config) life_store"
  "config_names_utf8 life_config"
  unfolding life_aws_def life_store_def by (rule ref_iam_laws, simp, rule ref_iam_write_laws, code_simp)

definition life_cluster :: "string list \<Rightarrow> world \<Rightarrow> cluster" where
  "life_cluster fs w = \<lparr>cl_users = [life_key \<mapsto> life_user fs], cl_world = w\<rparr>"

lemma life_reads: "reads (life_api fs) (cl_users (life_cluster fs w))"
  by (simp add: reads_def life_api_def life_cluster_def life_key_def)

lemma life_keys: "user_key (life_user fs) = life_key" "stored (life_user fs) = Some (life_user fs)" "\<not> marked (life_user fs)"
  by (simp_all add: user_key_def life_user_def life_key_def stored_def marked_def)

lemma life_steps:
  "cluster_step life_aws life_config (life_cluster [] empty_world) (Passed life_key requeueResult None)
     (life_cluster [userFinalizer] (life_world 0))"
  "cluster_step life_aws life_config (life_cluster [userFinalizer] (life_world 0)) (Passed life_key no_requeue None)
     (life_cluster [userFinalizer] (life_world 1))"
proof -
  show "cluster_step life_aws life_config (life_cluster [] empty_world) (Passed life_key requeueResult None)
     (life_cluster [userFinalizer] (life_world 0))"
    using life_passes(1) life_reads [of "[]" empty_world] life_passes(3)
      applied_update [of "life_user [userFinalizer]" None "[life_key \<mapsto> life_user []]"]
    unfolding life_pass_def life_cluster_def life_keys
    by (intro reconcile [where new = "[UpdateUser (life_user [userFinalizer]) None]"]) (simp_all add: empty_world_def)
  show "cluster_step life_aws life_config (life_cluster [userFinalizer] (life_world 0)) (Passed life_key no_requeue None)
     (life_cluster [userFinalizer] (life_world 1))"
    using life_passes(2) life_reads [of "[userFinalizer]" "life_world 0"] life_passes(3,4)
    unfolding life_pass_def life_cluster_def
    by (intro reconcile [where new = "[]"]) (simp_all add: applied_none)
qed

lemma life_run:
  "cluster_run life_aws life_config \<lparr>cl_users = Map.empty, cl_world = empty_world\<rparr>
     [Created life_key, Passed life_key requeueResult None, Passed life_key no_requeue None]
     (life_cluster [userFinalizer] (life_world 1))"
proof -
  let ?start = "\<lparr>cl_users = Map.empty, cl_world = empty_world\<rparr>"
  have "utf8 (us_Name (pu_Spec (life_user [])))" by code_simp
  from create [of ?start "life_user []" life_aws life_config] this
  have "cluster_step life_aws life_config ?start (Created life_key) (life_cluster [] empty_world)"
    by (simp add: life_keys life_cluster_def)
  from run_step [OF run_step [OF run_step [OF run_done this] life_steps(1)] life_steps(2)] show ?thesis by simp
qed

lemma life_access: "access (docs life_store (w_aws (life_world 1))) ''u'' \<noteq> {}"
proof -
  have "(case docs life_store (w_aws (life_world 1)) ''postgres-controller-users_0'' of
      None \<Rightarrow> False
    | Some d \<Rightarrow> list_ex (\<lambda>s. statement_user s = usernameToUserId ''u'' \<and> se_Resource s \<noteq> []) (pd_Statement d))" by code_simp
  then show ?thesis
    by (auto simp: access_def resources_of_def ran_def list_ex_iff neq_Nil_conv split: option.splits) fastforce
qed

theorem cluster_accountable_witness:
  "\<exists>k u. cl_users (life_cluster [userFinalizer] (life_world 1)) k = Some u \<and> us_Name (pu_Spec u) = ''u''
     \<and> userFinalizer \<in> set (om_Finalizers (pu_Meta u))"
proof (rule cluster_accountable [OF life_laws _ _ life_run])
  have "docs life_store [] = Map.empty" by (simp add: fun_eq_iff docs_def life_store_def ref_store_def table_def)
  then show "\<forall>v. access (docs life_store (w_aws (cl_world \<lparr>cl_users = Map.empty, cl_world = empty_world\<rparr>))) v = {}"
    by (simp add: empty_world_def access_def)
  show "access (docs life_store (w_aws (cl_world (life_cluster [userFinalizer] (life_world 1))))) ''u'' \<noteq> {}"
    using life_access by (simp add: life_cluster_def)
qed simp

theorem user_requeues_bounded_witness:
  "length (filter (requeued life_key) [Passed life_key requeueResult None, Passed life_key no_requeue None]) \<le> 2"
proof (rule user_requeues_bounded)
  show "cluster_run life_aws life_config (life_cluster [] empty_world)
      [Passed life_key requeueResult None, Passed life_key no_requeue None] (life_cluster [userFinalizer] (life_world 1))"
    using run_step [OF run_step [OF run_done life_steps(1)] life_steps(2)] by simp
  have "utf8 (us_Name (pu_Spec (life_user [])))" by code_simp
  then show "keyed (cl_users (life_cluster [] empty_world))" by (simp add: keyed_def life_cluster_def life_keys)
qed simp

text \<open>The name must stay: a resource whose user name is changed leaves the access of the old name behind,
  with no resource that accounts for it.\<close>

lemma renamed_user_keeps_access:
  assumes "us_Name (pu_Spec u) \<noteq> ''u''"
  shows "\<not> accountable life_store \<lparr>cl_users = [life_key \<mapsto> u], cl_world = life_world 1\<rparr>"
  using life_access assms by (auto simp: accountable_def split: if_splits)

end
