(* ===== verification/Go_Memory.thy ===== *)
theory Go_Memory
  imports Main
begin

text \<open>
  Go's memory, for the generated deep copies: values with pointers and slices, the arrays they lead to,
  and the statements that \<open>deepcopy-gen\<close> generates. A memory is a list of arrays, the address of an array
  is its position, and \<open>new\<close> and \<open>make\<close> append one. A copier gives the value that \<open>*out\<close> holds after
  \<open>in.DeepCopyInto(out)\<close>, and the memory then. What a value stands for is a \<open>tree\<close>, in which
  addresses do not occur: \<open>den t m v\<close> says that the value \<open>v\<close> stands for \<open>t\<close> in the memory \<open>m\<close>, and
  \<open>reach t m v\<close> are the addresses that are then reached from \<open>v\<close>.
\<close>

section \<open>Values, memory and what they stand for\<close>

datatype 'p gv =
    Prim 'p
  | Ptr "nat option"
  | Slice "(nat \<times> nat \<times> nat) option"
  | Struct "'p gv list"

type_synonym 'p mem = "'p gv list list"

datatype 'p tree =
    TPrim 'p
  | TNilPtr
  | TPtr "'p tree"
  | TNilSlice
  | TSlice "'p tree list"
  | TStruct "'p tree list"

text \<open>The elements of a slice: array, offset and length.\<close>

definition elems :: "'p mem \<Rightarrow> nat \<times> nat \<times> nat \<Rightarrow> 'p gv list" where
  "elems m s = (case s of (a, off, n) \<Rightarrow> take n (drop off (m ! a)))"

definition slice_ok :: "'p mem \<Rightarrow> nat \<times> nat \<times> nat \<Rightarrow> bool" where
  "slice_ok m s = (case s of (a, off, n) \<Rightarrow> a < length m \<and> off + n \<le> length (m ! a))"

primrec den :: "'p tree \<Rightarrow> 'p mem \<Rightarrow> 'p gv \<Rightarrow> bool" where
  "den (TPrim p) m v = (v = Prim p)"
| "den TNilPtr m v = (v = Ptr None)"
| "den (TPtr t) m v = (case v of Ptr (Some a) \<Rightarrow> a < length m \<and> length (m ! a) = 1 \<and> den t m (m ! a ! 0) | _ \<Rightarrow> False)"
| "den TNilSlice m v = (v = Slice None)"
| "den (TSlice ts) m v =
     (case v of Slice (Some s) \<Rightarrow> slice_ok m s \<and> list_all2 (\<lambda>d w. d m w) (map den ts) (elems m s) | _ \<Rightarrow> False)"
| "den (TStruct ts) m v = (case v of Struct vs \<Rightarrow> list_all2 (\<lambda>d w. d m w) (map den ts) vs | _ \<Rightarrow> False)"

primrec reach :: "'p tree \<Rightarrow> 'p mem \<Rightarrow> 'p gv \<Rightarrow> nat set" where
  "reach (TPrim p) m v = {}"
| "reach TNilPtr m v = {}"
| "reach (TPtr t) m v = (case v of Ptr (Some a) \<Rightarrow> insert a (reach t m (m ! a ! 0)) | _ \<Rightarrow> {})"
| "reach TNilSlice m v = {}"
| "reach (TSlice ts) m v =
     (case v of Slice (Some s) \<Rightarrow> insert (fst s) (\<Union>(d, w)\<in>set (zip (map reach ts) (elems m s)). d m w) | _ \<Rightarrow> {})"
| "reach (TStruct ts) m v =
     (case v of Struct vs \<Rightarrow> (\<Union>(d, w)\<in>set (zip (map reach ts) vs). d m w) | _ \<Rightarrow> {})"

section \<open>Types\<close>

datatype gty = Plain | PtrT gty | SliceT gty | StructT "gty list"

primrec shaped :: "gty \<Rightarrow> 'p tree \<Rightarrow> bool" where
  "shaped Plain t = (case t of TPrim p \<Rightarrow> True | _ \<Rightarrow> False)"
| "shaped (PtrT T) t = (case t of TNilPtr \<Rightarrow> True | TPtr t' \<Rightarrow> shaped T t' | _ \<Rightarrow> False)"
| "shaped (SliceT T) t = (case t of TNilSlice \<Rightarrow> True | TSlice ts \<Rightarrow> list_all (shaped T) ts | _ \<Rightarrow> False)"
| "shaped (StructT Ts) t = (case t of TStruct ts \<Rightarrow> list_all2 (\<lambda>s t. s t) (map shaped Ts) ts | _ \<Rightarrow> False)"

text \<open>Types without pointers and slices.\<close>

primrec flat :: "gty \<Rightarrow> bool" where
  "flat Plain = True"
| "flat (PtrT T) = False"
| "flat (SliceT T) = False"
| "flat (StructT Ts) = list_all id (map flat Ts)"

section \<open>Generated statements\<close>

type_synonym 'p copier = "'p gv \<Rightarrow> 'p mem \<Rightarrow> 'p gv \<times> 'p mem"

text \<open>\<open>*out = *in\<close>.\<close>

definition assign :: "'p copier" where
  "assign v m = (v, m)"

text \<open>The fields of a struct, each copied its own way.\<close>

fun copy_each :: "'p copier list \<Rightarrow> 'p gv list \<Rightarrow> 'p mem \<Rightarrow> 'p gv list \<times> 'p mem" where
  "copy_each (f # fs) (v # vs) m =
     (let (v', m1) = f v m; (vs', m2) = copy_each fs vs m1 in (v' # vs', m2))"
| "copy_each fs vs m = (vs, m)"

definition copy_struct :: "'p copier list \<Rightarrow> 'p copier" where
  "copy_struct fs v m =
     (case v of Struct vs \<Rightarrow> (let (vs', m') = copy_each fs vs m in (Struct vs', m')) | _ \<Rightarrow> (v, m))"

text \<open>
  \<open>if in.F != nil { *out = new(T); (*in).DeepCopyInto(*out) }\<close>, with \<open>assign\<close> for \<open>**out = **in\<close>. The new
  variable holds some value until it is written.
\<close>

definition new_into :: "'p copier \<Rightarrow> 'p copier" where
  "new_into f v m =
     (case v of
        Ptr (Some a) \<Rightarrow>
          let b = length m; (w, m1) = f (m ! a ! 0) (m @ [[m ! a ! 0]])
          in (Ptr (Some b), m1[b := [w]])
      | _ \<Rightarrow> (v, m))"

text \<open>
  \<open>if in.F != nil { *out = make([]T, len(*in)); for i := range *in { (*in)[i].DeepCopyInto(&(*out)[i]) } }\<close>,
  with \<open>assign\<close> for \<open>copy(*out, *in)\<close>. Nothing reads the new array before the loop has ended; it is
  written as a whole.
\<close>

definition make_into :: "'p copier \<Rightarrow> 'p copier" where
  "make_into f v m =
     (case v of
        Slice (Some s) \<Rightarrow>
          let b = length m; n = length (elems m s);
              (ws, m1) = copy_each (replicate n f) (elems m s) (m @ [elems m s])
          in (Slice (Some (b, 0, n)), m1[b := ws])
      | _ \<Rightarrow> (v, m))"

text \<open>\<open>DeepCopy\<close> on a pointer to a value: nil for nil, else a new variable with the copy. \<open>DeepCopyObject\<close>
  wraps the result in an interface value.\<close>

definition DeepCopy :: "'p copier \<Rightarrow> nat option \<Rightarrow> 'p mem \<Rightarrow> nat option \<times> 'p mem" where
  "DeepCopy f p m = (case p of None \<Rightarrow> (None, m) | Some a \<Rightarrow>
     let b = length m; (w, m1) = f (m ! a ! 0) (m @ [[m ! a ! 0]]) in (Some b, m1[b := [w]]))"

section \<open>Lemmas\<close>

abbreviation dens :: "'p tree list \<Rightarrow> 'p mem \<Rightarrow> 'p gv list \<Rightarrow> bool" where
  "dens ts m vs \<equiv> list_all2 (\<lambda>d w. d m w) (map den ts) vs"

abbreviation reaches :: "'p tree list \<Rightarrow> 'p mem \<Rightarrow> 'p gv list \<Rightarrow> nat set" where
  "reaches ts m vs \<equiv> \<Union>(d, w)\<in>set (zip (map reach ts) vs). d m w"

text \<open>What a value stands for depends only on the arrays it reaches.\<close>

lemma dens_cong:
  assumes "\<And>t v. t \<in> set ts \<Longrightarrow> den t m v \<Longrightarrow> (\<And>a. a \<in> reach t m v \<Longrightarrow> P a) \<Longrightarrow> den t m' v \<and> reach t m' v = reach t m v"
    and "dens ts m vs" and "\<And>a. a \<in> reaches ts m vs \<Longrightarrow> P a"
  shows "dens ts m' vs \<and> reaches ts m' vs = reaches ts m vs"
  using assms
proof (induction ts arbitrary: vs)
  case Nil
  then show ?case by simp
next
  case (Cons t ts)
  from Cons.prems(2) obtain w ws where vs: "vs = w # ws" and w: "den t m w" "dens ts m ws"
    by (auto simp: list_all2_Cons1)
  have "den t m' w \<and> reach t m' w = reach t m w" using Cons.prems(1,3) w(1) by (simp add: vs)
  moreover have "dens ts m' ws \<and> reaches ts m' ws = reaches ts m ws"
    using Cons.prems(1,3) w(2) by (intro Cons.IH) (auto simp: vs)
  ultimately show ?case by (simp add: vs)
qed

lemma den_cong:
  "den t m v \<Longrightarrow> (\<And>a. a \<in> reach t m v \<Longrightarrow> a < length m' \<and> m' ! a = m ! a) \<Longrightarrow>
     den t m' v \<and> reach t m' v = reach t m v"
proof (induction t arbitrary: v)
  case (TPtr t)
  then show ?case by (auto split: gv.splits option.splits)
next
  case (TSlice ts)
  then obtain a off n where v: "v = Slice (Some (a, off, n))" and ok: "slice_ok m (a, off, n)"
    and d: "dens ts m (elems m (a, off, n))" by (auto split: gv.splits option.splits)
  have a: "a < length m'" "m' ! a = m ! a" using TSlice.prems(2) [of a] by (simp_all add: v)
  then have e: "elems m' (a, off, n) = elems m (a, off, n)" by (simp add: elems_def)
  have "dens ts m' (elems m (a, off, n)) \<and> reaches ts m' (elems m (a, off, n)) = reaches ts m (elems m (a, off, n))"
    by (rule dens_cong [where P = "\<lambda>a. a < length m' \<and> m' ! a = m ! a", OF TSlice.IH d]) (use TSlice.prems(2) v in auto)
  with ok a e show ?case by (auto simp: v slice_ok_def)
next
  case (TStruct ts)
  then obtain vs where v: "v = Struct vs" and d: "dens ts m vs" by (auto split: gv.splits)
  have "dens ts m' vs \<and> reaches ts m' vs = reaches ts m vs"
    by (rule dens_cong [where P = "\<lambda>a. a < length m' \<and> m' ! a = m ! a", OF TStruct.IH d]) (use TStruct.prems(2) v in auto)
  then show ?case by (simp add: v)
qed simp_all

lemma reach_bound: "den t m v \<Longrightarrow> reach t m v \<subseteq> {..<length m}"
proof (induction t arbitrary: v)
  case (TPtr t)
  then show ?case by (auto split: gv.splits option.splits)
next
  case (TSlice ts)
  have "dens ts m vs \<Longrightarrow> reaches ts m vs \<subseteq> {..<length m}" for vs
    using TSlice.IH by (induction ts arbitrary: vs) (fastforce simp: list_all2_Cons1)+
  with TSlice.prems show ?case by (auto simp: slice_ok_def split: gv.splits option.splits)
next
  case (TStruct ts)
  have "dens ts m vs \<Longrightarrow> reaches ts m vs \<subseteq> {..<length m}" for vs
    using TStruct.IH by (induction ts arbitrary: vs) (fastforce simp: list_all2_Cons1)+
  with TStruct.prems show ?case by (auto split: gv.splits)
qed simp_all

lemma den_append: "den t m v \<Longrightarrow> den t (m @ new) v \<and> reach t (m @ new) v = reach t m v"
  using reach_bound by (intro den_cong) (fastforce simp: nth_append)+

lemma dens_append: "dens ts m vs \<Longrightarrow> dens ts (m @ new) vs \<and> reaches ts (m @ new) vs = reaches ts m vs"
  by (rule dens_cong [where P = "\<lambda>_. True"]) (auto simp: den_append)

section \<open>Deep copies\<close>

text \<open>A copier of a type: nothing that was there is changed, the result stands for the same, and
  it reaches only arrays that are new.\<close>

definition copies :: "gty \<Rightarrow> 'p copier \<Rightarrow> bool" where
  "copies T f \<longleftrightarrow>
     (\<forall>t m v. shaped T t \<longrightarrow> den t m v \<longrightarrow>
        (case f v m of (v', m') \<Rightarrow>
           (\<exists>new. m' = m @ new) \<and> den t m' v' \<and> reach t m' v' \<subseteq> {length m..}))"

lemma copiesD:
  assumes "copies T f" and "shaped T t" and "den t m v" and "f v m = (v', m')"
  shows "\<exists>new. m' = m @ new" and "den t m' v'" and "reach t m' v' \<subseteq> {length m..}"
  using assms unfolding copies_def by fastforce+

lemma copiesI:
  "(\<And>t m v v' m'. shaped T t \<Longrightarrow> den t m v \<Longrightarrow> f v m = (v', m') \<Longrightarrow>
      (\<exists>new. m' = m @ new) \<and> den t m' v' \<and> reach t m' v' \<subseteq> {length m..}) \<Longrightarrow> copies T f"
  by (auto simp: copies_def split: prod.split)

named_theorems copies_intros

lemma flat_reach: "flat T \<Longrightarrow> shaped T t \<Longrightarrow> reach t m v = {}"
proof (induction T arbitrary: t v)
  case Plain
  then show ?case by (auto split: tree.splits)
next
  case (StructT Ts)
  then obtain ts where t: "t = TStruct ts" and sh: "list_all2 (\<lambda>s t. s t) (map shaped Ts) ts" by (auto split: tree.splits)
  have "reaches ts m vs = {}" for vs
    using StructT.IH StructT.prems(1) sh
  proof (induction Ts arbitrary: ts vs)
    case Nil
    then show ?case by simp
  next
    case (Cons T Ts)
    then obtain u us where ts: "ts = u # us" "shaped T u" "list_all2 (\<lambda>s t. s t) (map shaped Ts) us" by (auto simp: list_all2_Cons1)
    have "reaches us m ws = {}" for ws using Cons.prems(1,2) by (intro Cons.IH [OF _ _ ts(3)]) auto
    moreover have "reach u m w = {}" for w using Cons.prems(1) [of T] Cons.prems(2) ts(2) by simp
    ultimately show ?case by (cases vs) (simp_all add: ts(1))
  qed
  then show ?case by (simp add: t split: gv.split)
qed simp_all

lemma copies_assign [copies_intros]: "flat T \<Longrightarrow> copies T assign"
  by (rule copiesI) (auto simp: assign_def flat_reach)

lemma copy_each_ok:
  assumes "list_all2 copies Ts fs" and "list_all2 (\<lambda>s t. s t) (map shaped Ts) ts" and "dens ts m vs"
    and "copy_each fs vs m = (vs', m')"
  shows "(\<exists>new. m' = m @ new) \<and> dens ts m' vs' \<and> reaches ts m' vs' \<subseteq> {length m..}"
  using assms
proof (induction fs arbitrary: Ts ts vs m vs' m' rule: list.induct)
  case Nil
  then show ?case by auto
next
  case (Cons f fs)
  from Cons.prems(1) obtain T Us where Ts: "Ts = T # Us" and f: "copies T f" and fs: "list_all2 copies Us fs"
    by (auto simp: list_all2_Cons2)
  from Cons.prems(2) Ts obtain t us where ts: "ts = t # us" and t: "shaped T t" and us: "list_all2 (\<lambda>s t. s t) (map shaped Us) us"
    by (auto simp: list_all2_Cons1)
  from Cons.prems(3) ts obtain v ws where vs: "vs = v # ws" and v: "den t m v" and ws: "dens us m ws"
    by (auto simp: list_all2_Cons1)
  obtain v1 m1 where one: "f v m = (v1, m1)" by (cases "f v m")
  obtain ws' m2 where rest: "copy_each fs ws m1 = (ws', m2)" by (cases "copy_each fs ws m1")
  have res: "vs' = v1 # ws'" "m' = m2" using Cons.prems(4) by (simp_all add: vs one rest)
  note a = copiesD [OF f t v one]
  from a(1) obtain n1 where m1: "m1 = m @ n1" by blast
  have b: "(\<exists>new. m2 = m1 @ new) \<and> dens us m2 ws' \<and> reaches us m2 ws' \<subseteq> {length m1..}"
    using Cons.IH [OF fs us _ rest] dens_append [OF ws] by (simp add: m1)
  then obtain n2 where m2: "m2 = m1 @ n2" by blast
  have "den t m2 v1 \<and> reach t m2 v1 = reach t m1 v1" using den_append [OF a(2)] by (simp add: m2)
  with a(3) b show ?case by (auto simp: res ts m1 m2)
qed

lemma copies_struct [copies_intros]: "list_all2 copies Ts fs \<Longrightarrow> copies (StructT Ts) (copy_struct fs)"
proof (rule copiesI)
  fix t m v v' m'
  assume fs: "list_all2 copies Ts fs" and t: "shaped (StructT Ts) t" and v: "den t m v" and run: "copy_struct fs v m = (v', m')"
  from t obtain ts where ts: "t = TStruct ts" and sh: "list_all2 (\<lambda>s t. s t) (map shaped Ts) ts" by (auto split: tree.splits)
  from v ts obtain vs where vs: "v = Struct vs" and d: "dens ts m vs" by (auto split: gv.splits)
  obtain vs' m1 where c: "copy_each fs vs m = (vs', m1)" by (cases "copy_each fs vs m")
  have "v' = Struct vs'" "m' = m1" using run by (simp_all add: copy_struct_def vs c)
  with copy_each_ok [OF fs sh d c]
  show "(\<exists>new. m' = m @ new) \<and> den t m' v' \<and> reach t m' v' \<subseteq> {length m..}" by (simp add: ts)
qed

text \<open>Filling in the array that was allocated first.\<close>

lemma fill_array: "((m @ [x]) @ new)[length m := y] = (m @ [y]) @ new"
  by (simp add: list_update_append)

lemma den_filled:
  assumes "den t ((m @ [x]) @ new) v" and "reach t ((m @ [x]) @ new) v \<subseteq> {length (m @ [x])..}"
  shows "den t ((m @ [y]) @ new) v \<and> reach t ((m @ [y]) @ new) v = reach t ((m @ [x]) @ new) v"
proof (rule den_cong [OF assms(1)])
  fix a
  assume a: "a \<in> reach t ((m @ [x]) @ new) v"
  then have "length m < a" "a < length ((m @ [x]) @ new)" using assms(2) reach_bound [OF assms(1)] by auto
  then show "a < length ((m @ [y]) @ new) \<and> ((m @ [y]) @ new) ! a = ((m @ [x]) @ new) ! a"
    by (auto simp: nth_append nth_Cons')
qed

lemma new_copy_ok:
  assumes "copies T f" and "shaped T t" and "den t m (m ! a ! 0)" and "f (m ! a ! 0) (m @ [[m ! a ! 0]]) = (w, m1)"
  shows "\<exists>new. m1[length m := [w]] = m @ new" and "den (TPtr t) (m1[length m := [w]]) (Ptr (Some (length m)))"
    and "reach (TPtr t) (m1[length m := [w]]) (Ptr (Some (length m))) \<subseteq> {length m..}"
    and "reach t (m1[length m := [w]]) w \<subseteq> {Suc (length m)..}"
proof -
  have d: "den t (m @ [[m ! a ! 0]]) (m ! a ! 0)" using den_append [OF assms(3)] by blast
  note c = copiesD [OF assms(1,2) d assms(4)]
  from c(1) obtain new where m1: "m1 = (m @ [[m ! a ! 0]]) @ new" by blast
  have fill: "m1[length m := [w]] = (m @ [[w]]) @ new" unfolding m1 by (rule fill_array)
  have w: "den t ((m @ [[w]]) @ new) w \<and> reach t ((m @ [[w]]) @ new) w \<subseteq> {length (m @ [[w]])..}"
    using den_filled [of t m "[m ! a ! 0]" new w "[w]"] c(2,3) unfolding m1 by simp
  show "\<exists>new. m1[length m := [w]] = m @ new" unfolding fill by simp
  show "den (TPtr t) (m1[length m := [w]]) (Ptr (Some (length m)))" using w unfolding fill by (simp add: nth_append)
  show "reach (TPtr t) (m1[length m := [w]]) (Ptr (Some (length m))) \<subseteq> {length m..}"
    using w unfolding fill by (auto simp: nth_append)
  show "reach t (m1[length m := [w]]) w \<subseteq> {Suc (length m)..}" using w unfolding fill by simp
qed

lemma copies_new [copies_intros]: "copies T f \<Longrightarrow> copies (PtrT T) (new_into f)"
proof (rule copiesI)
  fix t m v v' m'
  assume f: "copies T f" and t: "shaped (PtrT T) t" and v: "den t m v" and run: "new_into f v m = (v', m')"
  show "(\<exists>new. m' = m @ new) \<and> den t m' v' \<and> reach t m' v' \<subseteq> {length m..}"
  proof (cases t)
    case TNilPtr
    with v run show ?thesis by (simp add: new_into_def)
  next
    case (TPtr u)
    with v obtain a where a: "v = Ptr (Some a)" "den u m (m ! a ! 0)" by (auto split: gv.splits option.splits)
    obtain w m1 where c: "f (m ! a ! 0) (m @ [[m ! a ! 0]]) = (w, m1)" by (cases "f (m ! a ! 0) (m @ [[m ! a ! 0]])")
    have "v' = Ptr (Some (length m))" "m' = m1[length m := [w]]" using run by (simp_all add: new_into_def a(1) c Let_def)
    moreover have "shaped T u" using t TPtr by simp
    ultimately show ?thesis using new_copy_ok [OF f _ a(2) c] TPtr by metis
  qed (use t in auto)
qed

lemma dens_filled:
  assumes "dens ts ((m @ [x]) @ new) vs" and "reaches ts ((m @ [x]) @ new) vs \<subseteq> {length (m @ [x])..}"
  shows "dens ts ((m @ [y]) @ new) vs \<and> reaches ts ((m @ [y]) @ new) vs = reaches ts ((m @ [x]) @ new) vs"
proof (rule dens_cong [where P = "\<lambda>a. a \<in> {length (m @ [x])..}", OF _ assms(1)])
  fix t v
  assume "den t ((m @ [x]) @ new) v" and "\<And>a. a \<in> reach t ((m @ [x]) @ new) v \<Longrightarrow> a \<in> {length (m @ [x])..}"
  then show "den t ((m @ [y]) @ new) v \<and> reach t ((m @ [y]) @ new) v = reach t ((m @ [x]) @ new) v"
    by (intro den_filled) auto
qed (use assms(2) in blast)

lemma shaped_replicate: "list_all (shaped T) ts \<Longrightarrow> list_all2 (\<lambda>s t. s t) (map shaped (replicate (length ts) T)) ts"
  by (induction ts) simp_all

lemma copies_make [copies_intros]: "copies T f \<Longrightarrow> copies (SliceT T) (make_into f)"
proof (rule copiesI)
  fix t :: "'a tree" and m v v' m'
  assume f: "copies T f" and t: "shaped (SliceT T) t" and v: "den t m v" and run: "make_into f v m = (v', m')"
  show "(\<exists>new. m' = m @ new) \<and> den t m' v' \<and> reach t m' v' \<subseteq> {length m..}"
  proof (cases t)
    case TNilSlice
    with v run show ?thesis by (simp add: make_into_def)
  next
    case (TSlice ts)
    with v obtain s where s: "v = Slice (Some s)" and d: "dens ts m (elems m s)" by (auto split: gv.splits option.splits)
    let ?x = "elems m s" and ?n = "length (elems m s)"
    obtain ws m1 where c: "copy_each (replicate ?n f) ?x (m @ [?x]) = (ws, m1)"
      by (cases "copy_each (replicate ?n f) ?x (m @ [?x])")
    have n: "length ts = ?n" using list_all2_lengthD [OF d] by simp
    have sh: "list_all2 (\<lambda>s t. s t) (map shaped (replicate ?n T)) ts" using shaped_replicate [of T ts] t TSlice unfolding n by simp
    have cs: "list_all2 copies (replicate ?n T) (replicate ?n f)" using f by (simp add: list_all2_conv_all_nth)
    note ok = copy_each_ok [OF cs sh conjunct1 [OF dens_append [OF d]] c]
    then obtain new where m1: "m1 = (m @ [?x]) @ new" by blast
    have ws: "dens ts ((m @ [ws]) @ new) ws \<and> reaches ts ((m @ [ws]) @ new) ws \<subseteq> {length (m @ [ws])..}"
      using dens_filled [where ts = ts and m = m and x = ?x and new = new and vs = ws and y = ws] ok unfolding m1 by simp
    have el: "elems ((m @ [ws]) @ new) (length m, 0, ?n) = ws"
      using list_all2_lengthD [OF conjunct1 [OF ws]] n by (simp add: elems_def nth_append)
    have res: "v' = Slice (Some (length m, 0, ?n))" "m' = (m @ [ws]) @ new"
      using run fill_array [of m ?x new ws] by (simp_all add: make_into_def s c Let_def m1)
    have "slice_ok m' (length m, 0, ?n)"
      using list_all2_lengthD [OF conjunct1 [OF ws]] n by (simp add: slice_ok_def res nth_append)
    with ws el show ?thesis by (auto simp: res TSlice)
  qed (use t in auto)
qed

section \<open>Independence\<close>

text \<open>Whatever is written to arrays that were not there before, the values that were there stand for what
  they stood for; and whatever is written to arrays that were there, the copy does.\<close>

locale deep_copier =
  fixes T :: gty and into :: "'p copier"
  assumes copies_T: "copies T into"
begin

lemma DeepCopy_nil: "DeepCopy into None m = (None, m)"
  by (simp add: DeepCopy_def)

lemma DeepCopy_ok:
  assumes "shaped T t" and "den (TPtr t) m (Ptr p)" and "DeepCopy into p m = (q, m')"
  shows "\<exists>new. m' = m @ new" and "den (TPtr t) m' (Ptr q)" and "reach (TPtr t) m' (Ptr q) \<subseteq> {length m..}"
proof -
  from assms(2) obtain a where a: "p = Some a" "den t m (m ! a ! 0)" by (auto split: option.splits)
  obtain w m1 where c: "into (m ! a ! 0) (m @ [[m ! a ! 0]]) = (w, m1)" by (cases "into (m ! a ! 0) (m @ [[m ! a ! 0]])")
  have "q = Some (length m)" "m' = m1[length m := [w]]" using assms(3) by (simp_all add: DeepCopy_def a(1) c Let_def)
  with new_copy_ok [OF copies_T assms(1) a(2) c]
  show "\<exists>new. m' = m @ new" and "den (TPtr t) m' (Ptr q)" and "reach (TPtr t) m' (Ptr q) \<subseteq> {length m..}"
    by (simp_all only:)
qed

lemma DeepCopy_fresh:
  assumes "shaped T t" and "den (TPtr t) m (Ptr p)" and "DeepCopy into p m = (q, m')"
  obtains w new where "q = Some (length m)" and "m' = (m @ [[w]]) @ new" and "den t m' w"
    and "reach t m' w \<subseteq> {Suc (length m)..}"
proof -
  from assms(2) obtain a where a: "p = Some a" "den t m (m ! a ! 0)" by (auto split: option.splits)
  obtain w m1 where c: "into (m ! a ! 0) (m @ [[m ! a ! 0]]) = (w, m1)" by (cases "into (m ! a ! 0) (m @ [[m ! a ! 0]])")
  have q: "q = Some (length m)" "m' = m1[length m := [w]]" using assms(3) by (simp_all add: DeepCopy_def a(1) c Let_def)
  note ok = new_copy_ok [OF copies_T assms(1) a(2) c]
  have "den t (m @ [[m ! a ! 0]]) (m ! a ! 0)" using den_append [OF a(2)] by blast
  from copiesD(1) [OF copies_T assms(1) this c] obtain new where "m1 = (m @ [[m ! a ! 0]]) @ new" by blast
  then have m': "m' = (m @ [[w]]) @ new" unfolding q(2) by (simp only: fill_array)
  have "den t m' w" using ok(2) unfolding q(2) [symmetric] by (simp add: m' nth_append)
  with that q m' ok(4) show thesis by metis
qed

lemma original_kept:
  assumes "den u m v" and "shaped T t" and "den (TPtr t) m (Ptr p)" and "DeepCopy into p m = (q, m')"
    and "length m'' = length m'" and "\<And>a. a < length m \<Longrightarrow> m'' ! a = m' ! a"
  shows "den u m'' v"
proof -
  from DeepCopy_ok(1) [OF assms(2-4)] obtain new where m': "m' = m @ new" by blast
  have "a < length m'' \<and> m'' ! a = m ! a" if "a \<in> reach u m v" for a
    using reach_bound [OF assms(1)] that assms(5) assms(6) [of a] by (auto simp: m' nth_append)
  with den_cong [OF assms(1)] show ?thesis by blast
qed

lemma copy_kept:
  assumes "shaped T t" and "den (TPtr t) m (Ptr p)" and "DeepCopy into p m = (q, m')"
    and "length m'' = length m'" and "\<And>a. length m \<le> a \<Longrightarrow> m'' ! a = m' ! a"
  shows "den (TPtr t) m'' (Ptr q)"
proof -
  note ok = DeepCopy_ok [OF assms(1-3)]
  have "a < length m'' \<and> m'' ! a = m' ! a" if "a \<in> reach (TPtr t) m' (Ptr q)" for a
    using reach_bound [OF ok(2)] ok(3) that assms(4) assms(5) [of a] by auto
  with den_cong [OF ok(2)] show ?thesis by blast
qed

end

end
