(* ===== verification/Deep_Copy.thy ===== *)
theory Deep_Copy
  imports Go_Memory Go_Prelude
begin

text \<open>
  \<open>api/v1alpha1/zz_generated.deepcopy.go\<close>: \<open>DeepCopyInto\<close>, \<open>DeepCopy\<close> and \<open>DeepCopyObject\<close> of every API type,
  on the memory of \<open>Go_Memory\<close>. A struct is the list of its fields in the order of the type's
  declaration (\<open>_type\<close>); each field is copied by the statement that is generated for it, and a field
  without one by the assignment \<open>*out = *in\<close> that begins each \<open>DeepCopyInto\<close>. Everywhere else in this
  development objects are immutable values; here is shown that this is adequate for copies.

  The types of \<open>k8s.io/apimachinery\<close> are outside the repository: \<open>metav1\<close> holds the shape and the copier of
  \<open>Time\<close>, \<open>ObjectMeta\<close> and \<open>ListMeta\<close>, and \<open>metav1_copies\<close> says that these make deep copies. \<open>TypeMeta\<close>
  is two strings.
\<close>

section \<open>Types and copiers\<close>

datatype prim = PString string | PInt int | PBool bool

record metav1 =
  time_T :: gty
  time_into :: "prim copier"
  om_T :: gty
  om_into :: "prim copier"
  lm_T :: gty
  lm_into :: "prim copier"

definition metav1_copies :: "metav1 \<Rightarrow> bool" where
  "metav1_copies k \<longleftrightarrow>
     copies (time_T k) (time_into k) \<and> copies (om_T k) (om_into k) \<and> copies (lm_T k) (lm_into k)"

definition TypeMeta_type :: gty where
  "TypeMeta_type = StructT [Plain, Plain]"

text \<open>\<open>KeySelector\<close>\<close>

definition KeySelector_type :: "gty" where
  "KeySelector_type = StructT
     [Plain, Plain]"

definition KeySelector_DeepCopyInto :: "prim copier" where
  "KeySelector_DeepCopyInto = assign"

definition KeySelector_DeepCopy :: "nat option \<Rightarrow> prim mem \<Rightarrow> nat option \<times> prim mem" where
  "KeySelector_DeepCopy = DeepCopy KeySelector_DeepCopyInto"

text \<open>\<open>ResourceVarSource\<close>\<close>

definition ResourceVarSource_type :: "gty" where
  "ResourceVarSource_type = StructT
     [PtrT KeySelector_type, PtrT KeySelector_type]"

definition ResourceVarSource_DeepCopyInto :: "prim copier" where
  "ResourceVarSource_DeepCopyInto = copy_struct
     [new_into assign, new_into assign]"

definition ResourceVarSource_DeepCopy :: "nat option \<Rightarrow> prim mem \<Rightarrow> nat option \<times> prim mem" where
  "ResourceVarSource_DeepCopy = DeepCopy ResourceVarSource_DeepCopyInto"

text \<open>\<open>ResourceVar\<close>\<close>

definition ResourceVar_type :: "gty" where
  "ResourceVar_type = StructT
     [Plain, PtrT ResourceVarSource_type]"

definition ResourceVar_DeepCopyInto :: "prim copier" where
  "ResourceVar_DeepCopyInto = copy_struct
     [assign, new_into ResourceVarSource_DeepCopyInto]"

definition ResourceVar_DeepCopy :: "nat option \<Rightarrow> prim mem \<Rightarrow> nat option \<times> prim mem" where
  "ResourceVar_DeepCopy = DeepCopy ResourceVar_DeepCopyInto"

text \<open>\<open>AccessSpec\<close>\<close>

definition AccessSpec_type :: "metav1 \<Rightarrow> gty" where
  "AccessSpec_type k = StructT
     [ResourceVar_type, PtrT Plain, ResourceVar_type, ResourceVar_type, Plain, PtrT (time_T k),
     PtrT (time_T k)]"

definition AccessSpec_DeepCopyInto :: "metav1 \<Rightarrow> prim copier" where
  "AccessSpec_DeepCopyInto k = copy_struct
     [ResourceVar_DeepCopyInto, new_into assign, ResourceVar_DeepCopyInto, ResourceVar_DeepCopyInto,
     assign, new_into (time_into k), new_into (time_into k)]"

definition AccessSpec_DeepCopy :: "metav1 \<Rightarrow> nat option \<Rightarrow> prim mem \<Rightarrow> nat option \<times> prim mem" where
  "AccessSpec_DeepCopy k = DeepCopy (AccessSpec_DeepCopyInto k)"

text \<open>\<open>WriteAccessSpec\<close>\<close>

definition WriteAccessSpec_type :: "metav1 \<Rightarrow> gty" where
  "WriteAccessSpec_type k = StructT
     [AccessSpec_type k, Plain]"

definition WriteAccessSpec_DeepCopyInto :: "metav1 \<Rightarrow> prim copier" where
  "WriteAccessSpec_DeepCopyInto k = copy_struct
     [AccessSpec_DeepCopyInto k, assign]"

definition WriteAccessSpec_DeepCopy :: "metav1 \<Rightarrow> nat option \<Rightarrow> prim mem \<Rightarrow> nat option \<times> prim mem" where
  "WriteAccessSpec_DeepCopy k = DeepCopy (WriteAccessSpec_DeepCopyInto k)"

text \<open>\<open>PostgreSQLUserSpec\<close>\<close>

definition PostgreSQLUserSpec_type :: "metav1 \<Rightarrow> gty" where
  "PostgreSQLUserSpec_type k = StructT
     [Plain, PtrT (SliceT (AccessSpec_type k)), PtrT (SliceT (WriteAccessSpec_type k))]"

definition PostgreSQLUserSpec_DeepCopyInto :: "metav1 \<Rightarrow> prim copier" where
  "PostgreSQLUserSpec_DeepCopyInto k = copy_struct
     [assign, new_into (make_into (AccessSpec_DeepCopyInto k)),
     new_into (make_into (WriteAccessSpec_DeepCopyInto k))]"

definition PostgreSQLUserSpec_DeepCopy :: "metav1 \<Rightarrow> nat option \<Rightarrow> prim mem \<Rightarrow> nat option \<times> prim mem" where
  "PostgreSQLUserSpec_DeepCopy k = DeepCopy (PostgreSQLUserSpec_DeepCopyInto k)"

text \<open>\<open>PostgreSQLUserStatus\<close>\<close>

definition PostgreSQLUserStatus_type :: "gty" where
  "PostgreSQLUserStatus_type = StructT
     []"

definition PostgreSQLUserStatus_DeepCopyInto :: "prim copier" where
  "PostgreSQLUserStatus_DeepCopyInto = assign"

definition PostgreSQLUserStatus_DeepCopy :: "nat option \<Rightarrow> prim mem \<Rightarrow> nat option \<times> prim mem" where
  "PostgreSQLUserStatus_DeepCopy = DeepCopy PostgreSQLUserStatus_DeepCopyInto"

text \<open>\<open>PostgreSQLUser\<close>\<close>

definition PostgreSQLUser_type :: "metav1 \<Rightarrow> gty" where
  "PostgreSQLUser_type k = StructT
     [TypeMeta_type, om_T k, PostgreSQLUserSpec_type k, PostgreSQLUserStatus_type]"

definition PostgreSQLUser_DeepCopyInto :: "metav1 \<Rightarrow> prim copier" where
  "PostgreSQLUser_DeepCopyInto k = copy_struct
     [assign, om_into k, PostgreSQLUserSpec_DeepCopyInto k, assign]"

definition PostgreSQLUser_DeepCopy :: "metav1 \<Rightarrow> nat option \<Rightarrow> prim mem \<Rightarrow> nat option \<times> prim mem" where
  "PostgreSQLUser_DeepCopy k = DeepCopy (PostgreSQLUser_DeepCopyInto k)"

definition PostgreSQLUser_DeepCopyObject :: "metav1 \<Rightarrow> nat option \<Rightarrow> prim mem \<Rightarrow> nat option \<times> prim mem" where
  "PostgreSQLUser_DeepCopyObject k p m =
     (case PostgreSQLUser_DeepCopy k p m of (Some c, m') \<Rightarrow> (Some c, m') | (None, m') \<Rightarrow> (None, m'))"

text \<open>\<open>PostgreSQLUserList\<close>\<close>

definition PostgreSQLUserList_type :: "metav1 \<Rightarrow> gty" where
  "PostgreSQLUserList_type k = StructT
     [TypeMeta_type, lm_T k, SliceT (PostgreSQLUser_type k)]"

definition PostgreSQLUserList_DeepCopyInto :: "metav1 \<Rightarrow> prim copier" where
  "PostgreSQLUserList_DeepCopyInto k = copy_struct
     [assign, lm_into k, make_into (PostgreSQLUser_DeepCopyInto k)]"

definition PostgreSQLUserList_DeepCopy :: "metav1 \<Rightarrow> nat option \<Rightarrow> prim mem \<Rightarrow> nat option \<times> prim mem" where
  "PostgreSQLUserList_DeepCopy k = DeepCopy (PostgreSQLUserList_DeepCopyInto k)"

definition PostgreSQLUserList_DeepCopyObject :: "metav1 \<Rightarrow> nat option \<Rightarrow> prim mem \<Rightarrow> nat option \<times> prim mem" where
  "PostgreSQLUserList_DeepCopyObject k p m =
     (case PostgreSQLUserList_DeepCopy k p m of (Some c, m') \<Rightarrow> (Some c, m') | (None, m') \<Rightarrow> (None, m'))"

text \<open>\<open>PostgreSQLDatabaseExtension\<close>\<close>

definition PostgreSQLDatabaseExtension_type :: "gty" where
  "PostgreSQLDatabaseExtension_type = StructT
     [Plain]"

definition PostgreSQLDatabaseExtension_DeepCopyInto :: "prim copier" where
  "PostgreSQLDatabaseExtension_DeepCopyInto = assign"

definition PostgreSQLDatabaseExtension_DeepCopy :: "nat option \<Rightarrow> prim mem \<Rightarrow> nat option \<times> prim mem" where
  "PostgreSQLDatabaseExtension_DeepCopy = DeepCopy PostgreSQLDatabaseExtension_DeepCopyInto"

text \<open>\<open>PostgreSQLDatabaseSpec\<close>\<close>

definition PostgreSQLDatabaseSpec_type :: "gty" where
  "PostgreSQLDatabaseSpec_type = StructT
     [Plain, ResourceVar_type, PtrT ResourceVar_type, Plain, ResourceVar_type, Plain,
     SliceT PostgreSQLDatabaseExtension_type]"

definition PostgreSQLDatabaseSpec_DeepCopyInto :: "prim copier" where
  "PostgreSQLDatabaseSpec_DeepCopyInto = copy_struct
     [assign, ResourceVar_DeepCopyInto, new_into ResourceVar_DeepCopyInto, assign,
     ResourceVar_DeepCopyInto, assign, make_into assign]"

definition PostgreSQLDatabaseSpec_DeepCopy :: "nat option \<Rightarrow> prim mem \<Rightarrow> nat option \<times> prim mem" where
  "PostgreSQLDatabaseSpec_DeepCopy = DeepCopy PostgreSQLDatabaseSpec_DeepCopyInto"

text \<open>\<open>PostgreSQLDatabaseStatus\<close>\<close>

definition PostgreSQLDatabaseStatus_type :: "metav1 \<Rightarrow> gty" where
  "PostgreSQLDatabaseStatus_type k = StructT
     [time_T k, Plain, Plain, Plain, Plain]"

definition PostgreSQLDatabaseStatus_DeepCopyInto :: "metav1 \<Rightarrow> prim copier" where
  "PostgreSQLDatabaseStatus_DeepCopyInto k = copy_struct
     [time_into k, assign, assign, assign, assign]"

definition PostgreSQLDatabaseStatus_DeepCopy :: "metav1 \<Rightarrow> nat option \<Rightarrow> prim mem \<Rightarrow> nat option \<times> prim mem" where
  "PostgreSQLDatabaseStatus_DeepCopy k = DeepCopy (PostgreSQLDatabaseStatus_DeepCopyInto k)"

text \<open>\<open>PostgreSQLDatabase\<close>\<close>

definition PostgreSQLDatabase_type :: "metav1 \<Rightarrow> gty" where
  "PostgreSQLDatabase_type k = StructT
     [TypeMeta_type, om_T k, PostgreSQLDatabaseSpec_type, PostgreSQLDatabaseStatus_type k]"

definition PostgreSQLDatabase_DeepCopyInto :: "metav1 \<Rightarrow> prim copier" where
  "PostgreSQLDatabase_DeepCopyInto k = copy_struct
     [assign, om_into k, PostgreSQLDatabaseSpec_DeepCopyInto, PostgreSQLDatabaseStatus_DeepCopyInto k]"

definition PostgreSQLDatabase_DeepCopy :: "metav1 \<Rightarrow> nat option \<Rightarrow> prim mem \<Rightarrow> nat option \<times> prim mem" where
  "PostgreSQLDatabase_DeepCopy k = DeepCopy (PostgreSQLDatabase_DeepCopyInto k)"

definition PostgreSQLDatabase_DeepCopyObject :: "metav1 \<Rightarrow> nat option \<Rightarrow> prim mem \<Rightarrow> nat option \<times> prim mem" where
  "PostgreSQLDatabase_DeepCopyObject k p m =
     (case PostgreSQLDatabase_DeepCopy k p m of (Some c, m') \<Rightarrow> (Some c, m') | (None, m') \<Rightarrow> (None, m'))"

text \<open>\<open>PostgreSQLDatabaseList\<close>\<close>

definition PostgreSQLDatabaseList_type :: "metav1 \<Rightarrow> gty" where
  "PostgreSQLDatabaseList_type k = StructT
     [TypeMeta_type, lm_T k, SliceT (PostgreSQLDatabase_type k)]"

definition PostgreSQLDatabaseList_DeepCopyInto :: "metav1 \<Rightarrow> prim copier" where
  "PostgreSQLDatabaseList_DeepCopyInto k = copy_struct
     [assign, lm_into k, make_into (PostgreSQLDatabase_DeepCopyInto k)]"

definition PostgreSQLDatabaseList_DeepCopy :: "metav1 \<Rightarrow> nat option \<Rightarrow> prim mem \<Rightarrow> nat option \<times> prim mem" where
  "PostgreSQLDatabaseList_DeepCopy k = DeepCopy (PostgreSQLDatabaseList_DeepCopyInto k)"

definition PostgreSQLDatabaseList_DeepCopyObject :: "metav1 \<Rightarrow> nat option \<Rightarrow> prim mem \<Rightarrow> nat option \<times> prim mem" where
  "PostgreSQLDatabaseList_DeepCopyObject k p m =
     (case PostgreSQLDatabaseList_DeepCopy k p m of (Some c, m') \<Rightarrow> (Some c, m') | (None, m') \<Rightarrow> (None, m'))"

text \<open>\<open>PostgreSQLHostCredentialsSpec\<close>\<close>

definition PostgreSQLHostCredentialsSpec_type :: "gty" where
  "PostgreSQLHostCredentialsSpec_type = StructT
     [ResourceVar_type, ResourceVar_type, ResourceVar_type, Plain]"

definition PostgreSQLHostCredentialsSpec_DeepCopyInto :: "prim copier" where
  "PostgreSQLHostCredentialsSpec_DeepCopyInto = copy_struct
     [ResourceVar_DeepCopyInto, ResourceVar_DeepCopyInto, ResourceVar_DeepCopyInto, assign]"

definition PostgreSQLHostCredentialsSpec_DeepCopy :: "nat option \<Rightarrow> prim mem \<Rightarrow> nat option \<times> prim mem" where
  "PostgreSQLHostCredentialsSpec_DeepCopy = DeepCopy PostgreSQLHostCredentialsSpec_DeepCopyInto"

text \<open>\<open>PostgreSQLHostCredentialsStatus\<close>\<close>

definition PostgreSQLHostCredentialsStatus_type :: "gty" where
  "PostgreSQLHostCredentialsStatus_type = StructT
     []"

definition PostgreSQLHostCredentialsStatus_DeepCopyInto :: "prim copier" where
  "PostgreSQLHostCredentialsStatus_DeepCopyInto = assign"

definition PostgreSQLHostCredentialsStatus_DeepCopy :: "nat option \<Rightarrow> prim mem \<Rightarrow> nat option \<times> prim mem" where
  "PostgreSQLHostCredentialsStatus_DeepCopy = DeepCopy PostgreSQLHostCredentialsStatus_DeepCopyInto"

text \<open>\<open>PostgreSQLHostCredentials\<close>\<close>

definition PostgreSQLHostCredentials_type :: "metav1 \<Rightarrow> gty" where
  "PostgreSQLHostCredentials_type k = StructT
     [TypeMeta_type, om_T k, PostgreSQLHostCredentialsSpec_type, PostgreSQLHostCredentialsStatus_type]"

definition PostgreSQLHostCredentials_DeepCopyInto :: "metav1 \<Rightarrow> prim copier" where
  "PostgreSQLHostCredentials_DeepCopyInto k = copy_struct
     [assign, om_into k, PostgreSQLHostCredentialsSpec_DeepCopyInto, assign]"

definition PostgreSQLHostCredentials_DeepCopy :: "metav1 \<Rightarrow> nat option \<Rightarrow> prim mem \<Rightarrow> nat option \<times> prim mem" where
  "PostgreSQLHostCredentials_DeepCopy k = DeepCopy (PostgreSQLHostCredentials_DeepCopyInto k)"

definition PostgreSQLHostCredentials_DeepCopyObject :: "metav1 \<Rightarrow> nat option \<Rightarrow> prim mem \<Rightarrow> nat option \<times> prim mem" where
  "PostgreSQLHostCredentials_DeepCopyObject k p m =
     (case PostgreSQLHostCredentials_DeepCopy k p m of (Some c, m') \<Rightarrow> (Some c, m') | (None, m') \<Rightarrow> (None, m'))"

text \<open>\<open>PostgreSQLHostCredentialsList\<close>\<close>

definition PostgreSQLHostCredentialsList_type :: "metav1 \<Rightarrow> gty" where
  "PostgreSQLHostCredentialsList_type k = StructT
     [TypeMeta_type, lm_T k, SliceT (PostgreSQLHostCredentials_type k)]"

definition PostgreSQLHostCredentialsList_DeepCopyInto :: "metav1 \<Rightarrow> prim copier" where
  "PostgreSQLHostCredentialsList_DeepCopyInto k = copy_struct
     [assign, lm_into k, make_into (PostgreSQLHostCredentials_DeepCopyInto k)]"

definition PostgreSQLHostCredentialsList_DeepCopy :: "metav1 \<Rightarrow> nat option \<Rightarrow> prim mem \<Rightarrow> nat option \<times> prim mem" where
  "PostgreSQLHostCredentialsList_DeepCopy k = DeepCopy (PostgreSQLHostCredentialsList_DeepCopyInto k)"

definition PostgreSQLHostCredentialsList_DeepCopyObject :: "metav1 \<Rightarrow> nat option \<Rightarrow> prim mem \<Rightarrow> nat option \<times> prim mem" where
  "PostgreSQLHostCredentialsList_DeepCopyObject k p m =
     (case PostgreSQLHostCredentialsList_DeepCopy k p m of (Some c, m') \<Rightarrow> (Some c, m') | (None, m') \<Rightarrow> (None, m'))"

text \<open>\<open>PostgreSQLServiceUserRole\<close>\<close>

definition PostgreSQLServiceUserRole_type :: "gty" where
  "PostgreSQLServiceUserRole_type = StructT
     [Plain]"

definition PostgreSQLServiceUserRole_DeepCopyInto :: "prim copier" where
  "PostgreSQLServiceUserRole_DeepCopyInto = assign"

definition PostgreSQLServiceUserRole_DeepCopy :: "nat option \<Rightarrow> prim mem \<Rightarrow> nat option \<times> prim mem" where
  "PostgreSQLServiceUserRole_DeepCopy = DeepCopy PostgreSQLServiceUserRole_DeepCopyInto"

text \<open>\<open>PostgreSQLServiceUserSpec\<close>\<close>

definition PostgreSQLServiceUserSpec_type :: "gty" where
  "PostgreSQLServiceUserSpec_type = StructT
     [ResourceVar_type, ResourceVar_type, PtrT ResourceVar_type, SliceT PostgreSQLServiceUserRole_type]"

definition PostgreSQLServiceUserSpec_DeepCopyInto :: "prim copier" where
  "PostgreSQLServiceUserSpec_DeepCopyInto = copy_struct
     [ResourceVar_DeepCopyInto, ResourceVar_DeepCopyInto, new_into ResourceVar_DeepCopyInto,
     make_into assign]"

definition PostgreSQLServiceUserSpec_DeepCopy :: "nat option \<Rightarrow> prim mem \<Rightarrow> nat option \<times> prim mem" where
  "PostgreSQLServiceUserSpec_DeepCopy = DeepCopy PostgreSQLServiceUserSpec_DeepCopyInto"

text \<open>\<open>PostgreSQLServiceUserCondition\<close>\<close>

definition PostgreSQLServiceUserCondition_type :: "metav1 \<Rightarrow> gty" where
  "PostgreSQLServiceUserCondition_type k = StructT
     [Plain, Plain, time_T k, time_T k, Plain, Plain]"

definition PostgreSQLServiceUserCondition_DeepCopyInto :: "metav1 \<Rightarrow> prim copier" where
  "PostgreSQLServiceUserCondition_DeepCopyInto k = copy_struct
     [assign, assign, time_into k, time_into k, assign, assign]"

definition PostgreSQLServiceUserCondition_DeepCopy :: "metav1 \<Rightarrow> nat option \<Rightarrow> prim mem \<Rightarrow> nat option \<times> prim mem" where
  "PostgreSQLServiceUserCondition_DeepCopy k = DeepCopy (PostgreSQLServiceUserCondition_DeepCopyInto k)"

text \<open>\<open>PostgreSQLServiceUserStatus\<close>\<close>

definition PostgreSQLServiceUserStatus_type :: "metav1 \<Rightarrow> gty" where
  "PostgreSQLServiceUserStatus_type k = StructT
     [Plain, SliceT (PostgreSQLServiceUserCondition_type k)]"

definition PostgreSQLServiceUserStatus_DeepCopyInto :: "metav1 \<Rightarrow> prim copier" where
  "PostgreSQLServiceUserStatus_DeepCopyInto k = copy_struct
     [assign, make_into (PostgreSQLServiceUserCondition_DeepCopyInto k)]"

definition PostgreSQLServiceUserStatus_DeepCopy :: "metav1 \<Rightarrow> nat option \<Rightarrow> prim mem \<Rightarrow> nat option \<times> prim mem" where
  "PostgreSQLServiceUserStatus_DeepCopy k = DeepCopy (PostgreSQLServiceUserStatus_DeepCopyInto k)"

text \<open>\<open>PostgreSQLServiceUser\<close>\<close>

definition PostgreSQLServiceUser_type :: "metav1 \<Rightarrow> gty" where
  "PostgreSQLServiceUser_type k = StructT
     [TypeMeta_type, om_T k, PostgreSQLServiceUserSpec_type, PtrT (PostgreSQLServiceUserStatus_type k)]"

definition PostgreSQLServiceUser_DeepCopyInto :: "metav1 \<Rightarrow> prim copier" where
  "PostgreSQLServiceUser_DeepCopyInto k = copy_struct
     [assign, om_into k, PostgreSQLServiceUserSpec_DeepCopyInto,
     new_into (PostgreSQLServiceUserStatus_DeepCopyInto k)]"

definition PostgreSQLServiceUser_DeepCopy :: "metav1 \<Rightarrow> nat option \<Rightarrow> prim mem \<Rightarrow> nat option \<times> prim mem" where
  "PostgreSQLServiceUser_DeepCopy k = DeepCopy (PostgreSQLServiceUser_DeepCopyInto k)"

definition PostgreSQLServiceUser_DeepCopyObject :: "metav1 \<Rightarrow> nat option \<Rightarrow> prim mem \<Rightarrow> nat option \<times> prim mem" where
  "PostgreSQLServiceUser_DeepCopyObject k p m =
     (case PostgreSQLServiceUser_DeepCopy k p m of (Some c, m') \<Rightarrow> (Some c, m') | (None, m') \<Rightarrow> (None, m'))"

text \<open>\<open>PostgreSQLServiceUserList\<close>\<close>

definition PostgreSQLServiceUserList_type :: "metav1 \<Rightarrow> gty" where
  "PostgreSQLServiceUserList_type k = StructT
     [TypeMeta_type, lm_T k, SliceT (PostgreSQLServiceUser_type k)]"

definition PostgreSQLServiceUserList_DeepCopyInto :: "metav1 \<Rightarrow> prim copier" where
  "PostgreSQLServiceUserList_DeepCopyInto k = copy_struct
     [assign, lm_into k, make_into (PostgreSQLServiceUser_DeepCopyInto k)]"

definition PostgreSQLServiceUserList_DeepCopy :: "metav1 \<Rightarrow> nat option \<Rightarrow> prim mem \<Rightarrow> nat option \<times> prim mem" where
  "PostgreSQLServiceUserList_DeepCopy k = DeepCopy (PostgreSQLServiceUserList_DeepCopyInto k)"

definition PostgreSQLServiceUserList_DeepCopyObject :: "metav1 \<Rightarrow> nat option \<Rightarrow> prim mem \<Rightarrow> nat option \<times> prim mem" where
  "PostgreSQLServiceUserList_DeepCopyObject k p m =
     (case PostgreSQLServiceUserList_DeepCopy k p m of (Some c, m') \<Rightarrow> (Some c, m') | (None, m') \<Rightarrow> (None, m'))"

text \<open>\<open>CustomRoleFunction\<close>\<close>

definition CustomRoleFunction_type :: "gty" where
  "CustomRoleFunction_type = StructT
     [Plain, Plain, Plain, Plain, Plain]"

definition CustomRoleFunction_DeepCopyInto :: "prim copier" where
  "CustomRoleFunction_DeepCopyInto = assign"

definition CustomRoleFunction_DeepCopy :: "nat option \<Rightarrow> prim mem \<Rightarrow> nat option \<times> prim mem" where
  "CustomRoleFunction_DeepCopy = DeepCopy CustomRoleFunction_DeepCopyInto"

text \<open>\<open>CustomRoleGrant\<close>\<close>

definition CustomRoleGrant_type :: "gty" where
  "CustomRoleGrant_type = StructT
     [Plain, Plain, SliceT Plain]"

definition CustomRoleGrant_DeepCopyInto :: "prim copier" where
  "CustomRoleGrant_DeepCopyInto = copy_struct
     [assign, assign, make_into assign]"

definition CustomRoleGrant_DeepCopy :: "nat option \<Rightarrow> prim mem \<Rightarrow> nat option \<times> prim mem" where
  "CustomRoleGrant_DeepCopy = DeepCopy CustomRoleGrant_DeepCopyInto"

text \<open>\<open>CustomRoleSpec\<close>\<close>

definition CustomRoleSpec_type :: "gty" where
  "CustomRoleSpec_type = StructT
     [Plain, SliceT Plain, SliceT Plain, SliceT CustomRoleGrant_type, SliceT CustomRoleFunction_type]"

definition CustomRoleSpec_DeepCopyInto :: "prim copier" where
  "CustomRoleSpec_DeepCopyInto = copy_struct
     [assign, make_into assign, make_into assign, make_into CustomRoleGrant_DeepCopyInto, make_into assign]"

definition CustomRoleSpec_DeepCopy :: "nat option \<Rightarrow> prim mem \<Rightarrow> nat option \<times> prim mem" where
  "CustomRoleSpec_DeepCopy = DeepCopy CustomRoleSpec_DeepCopyInto"

text \<open>\<open>CustomRoleStatus\<close>\<close>

definition CustomRoleStatus_type :: "metav1 \<Rightarrow> gty" where
  "CustomRoleStatus_type k = StructT
     [Plain, time_T k, Plain, Plain]"

definition CustomRoleStatus_DeepCopyInto :: "metav1 \<Rightarrow> prim copier" where
  "CustomRoleStatus_DeepCopyInto k = copy_struct
     [assign, time_into k, assign, assign]"

definition CustomRoleStatus_DeepCopy :: "metav1 \<Rightarrow> nat option \<Rightarrow> prim mem \<Rightarrow> nat option \<times> prim mem" where
  "CustomRoleStatus_DeepCopy k = DeepCopy (CustomRoleStatus_DeepCopyInto k)"

text \<open>\<open>CustomRole\<close>\<close>

definition CustomRole_type :: "metav1 \<Rightarrow> gty" where
  "CustomRole_type k = StructT
     [TypeMeta_type, om_T k, CustomRoleSpec_type, CustomRoleStatus_type k]"

definition CustomRole_DeepCopyInto :: "metav1 \<Rightarrow> prim copier" where
  "CustomRole_DeepCopyInto k = copy_struct
     [assign, om_into k, CustomRoleSpec_DeepCopyInto, CustomRoleStatus_DeepCopyInto k]"

definition CustomRole_DeepCopy :: "metav1 \<Rightarrow> nat option \<Rightarrow> prim mem \<Rightarrow> nat option \<times> prim mem" where
  "CustomRole_DeepCopy k = DeepCopy (CustomRole_DeepCopyInto k)"

definition CustomRole_DeepCopyObject :: "metav1 \<Rightarrow> nat option \<Rightarrow> prim mem \<Rightarrow> nat option \<times> prim mem" where
  "CustomRole_DeepCopyObject k p m =
     (case CustomRole_DeepCopy k p m of (Some c, m') \<Rightarrow> (Some c, m') | (None, m') \<Rightarrow> (None, m'))"

text \<open>\<open>CustomRoleList\<close>\<close>

definition CustomRoleList_type :: "metav1 \<Rightarrow> gty" where
  "CustomRoleList_type k = StructT
     [TypeMeta_type, lm_T k, SliceT (CustomRole_type k)]"

definition CustomRoleList_DeepCopyInto :: "metav1 \<Rightarrow> prim copier" where
  "CustomRoleList_DeepCopyInto k = copy_struct
     [assign, lm_into k, make_into (CustomRole_DeepCopyInto k)]"

definition CustomRoleList_DeepCopy :: "metav1 \<Rightarrow> nat option \<Rightarrow> prim mem \<Rightarrow> nat option \<times> prim mem" where
  "CustomRoleList_DeepCopy k = DeepCopy (CustomRoleList_DeepCopyInto k)"

definition CustomRoleList_DeepCopyObject :: "metav1 \<Rightarrow> nat option \<Rightarrow> prim mem \<Rightarrow> nat option \<times> prim mem" where
  "CustomRoleList_DeepCopyObject k p m =
     (case CustomRoleList_DeepCopy k p m of (Some c, m') \<Rightarrow> (Some c, m') | (None, m') \<Rightarrow> (None, m'))"

section \<open>All of them make deep copies\<close>

lemma KeySelector_copies [copies_intros]: "copies KeySelector_type KeySelector_DeepCopyInto"
  by (auto simp: KeySelector_type_def KeySelector_DeepCopyInto_def intro!: copies_intros)

lemma ResourceVarSource_copies [copies_intros]: "copies ResourceVarSource_type ResourceVarSource_DeepCopyInto"
  by (auto simp: ResourceVarSource_type_def ResourceVarSource_DeepCopyInto_def KeySelector_type_def intro!: copies_intros)

lemma ResourceVar_copies [copies_intros]: "copies ResourceVar_type ResourceVar_DeepCopyInto"
  by (auto simp: ResourceVar_type_def ResourceVar_DeepCopyInto_def intro!: copies_intros)

lemma AccessSpec_copies [copies_intros]: "metav1_copies k \<Longrightarrow> copies (AccessSpec_type k) (AccessSpec_DeepCopyInto k)"
  by (auto simp: AccessSpec_type_def AccessSpec_DeepCopyInto_def metav1_copies_def intro!: copies_intros)

lemma WriteAccessSpec_copies [copies_intros]: "metav1_copies k \<Longrightarrow> copies (WriteAccessSpec_type k) (WriteAccessSpec_DeepCopyInto k)"
  by (auto simp: WriteAccessSpec_type_def WriteAccessSpec_DeepCopyInto_def intro!: copies_intros)

lemma PostgreSQLUserSpec_copies [copies_intros]: "metav1_copies k \<Longrightarrow> copies (PostgreSQLUserSpec_type k) (PostgreSQLUserSpec_DeepCopyInto k)"
  by (auto simp: PostgreSQLUserSpec_type_def PostgreSQLUserSpec_DeepCopyInto_def intro!: copies_intros)

lemma PostgreSQLUserStatus_copies [copies_intros]: "copies PostgreSQLUserStatus_type PostgreSQLUserStatus_DeepCopyInto"
  by (auto simp: PostgreSQLUserStatus_type_def PostgreSQLUserStatus_DeepCopyInto_def intro!: copies_intros)

lemma PostgreSQLUser_copies [copies_intros]: "metav1_copies k \<Longrightarrow> copies (PostgreSQLUser_type k) (PostgreSQLUser_DeepCopyInto k)"
  by (auto simp: PostgreSQLUser_type_def PostgreSQLUser_DeepCopyInto_def PostgreSQLUserStatus_type_def TypeMeta_type_def metav1_copies_def intro!: copies_intros)

lemma PostgreSQLUserList_copies [copies_intros]: "metav1_copies k \<Longrightarrow> copies (PostgreSQLUserList_type k) (PostgreSQLUserList_DeepCopyInto k)"
  by (auto simp: PostgreSQLUserList_type_def PostgreSQLUserList_DeepCopyInto_def TypeMeta_type_def metav1_copies_def intro!: copies_intros)

lemma PostgreSQLDatabaseExtension_copies [copies_intros]: "copies PostgreSQLDatabaseExtension_type PostgreSQLDatabaseExtension_DeepCopyInto"
  by (auto simp: PostgreSQLDatabaseExtension_type_def PostgreSQLDatabaseExtension_DeepCopyInto_def intro!: copies_intros)

lemma PostgreSQLDatabaseSpec_copies [copies_intros]: "copies PostgreSQLDatabaseSpec_type PostgreSQLDatabaseSpec_DeepCopyInto"
  by (auto simp: PostgreSQLDatabaseSpec_type_def PostgreSQLDatabaseSpec_DeepCopyInto_def PostgreSQLDatabaseExtension_type_def intro!: copies_intros)

lemma PostgreSQLDatabaseStatus_copies [copies_intros]: "metav1_copies k \<Longrightarrow> copies (PostgreSQLDatabaseStatus_type k) (PostgreSQLDatabaseStatus_DeepCopyInto k)"
  by (auto simp: PostgreSQLDatabaseStatus_type_def PostgreSQLDatabaseStatus_DeepCopyInto_def metav1_copies_def intro!: copies_intros)

lemma PostgreSQLDatabase_copies [copies_intros]: "metav1_copies k \<Longrightarrow> copies (PostgreSQLDatabase_type k) (PostgreSQLDatabase_DeepCopyInto k)"
  by (auto simp: PostgreSQLDatabase_type_def PostgreSQLDatabase_DeepCopyInto_def TypeMeta_type_def metav1_copies_def intro!: copies_intros)

lemma PostgreSQLDatabaseList_copies [copies_intros]: "metav1_copies k \<Longrightarrow> copies (PostgreSQLDatabaseList_type k) (PostgreSQLDatabaseList_DeepCopyInto k)"
  by (auto simp: PostgreSQLDatabaseList_type_def PostgreSQLDatabaseList_DeepCopyInto_def TypeMeta_type_def metav1_copies_def intro!: copies_intros)

lemma PostgreSQLHostCredentialsSpec_copies [copies_intros]: "copies PostgreSQLHostCredentialsSpec_type PostgreSQLHostCredentialsSpec_DeepCopyInto"
  by (auto simp: PostgreSQLHostCredentialsSpec_type_def PostgreSQLHostCredentialsSpec_DeepCopyInto_def intro!: copies_intros)

lemma PostgreSQLHostCredentialsStatus_copies [copies_intros]: "copies PostgreSQLHostCredentialsStatus_type PostgreSQLHostCredentialsStatus_DeepCopyInto"
  by (auto simp: PostgreSQLHostCredentialsStatus_type_def PostgreSQLHostCredentialsStatus_DeepCopyInto_def intro!: copies_intros)

lemma PostgreSQLHostCredentials_copies [copies_intros]: "metav1_copies k \<Longrightarrow> copies (PostgreSQLHostCredentials_type k) (PostgreSQLHostCredentials_DeepCopyInto k)"
  by (auto simp: PostgreSQLHostCredentials_type_def PostgreSQLHostCredentials_DeepCopyInto_def PostgreSQLHostCredentialsStatus_type_def TypeMeta_type_def metav1_copies_def intro!: copies_intros)

lemma PostgreSQLHostCredentialsList_copies [copies_intros]: "metav1_copies k \<Longrightarrow> copies (PostgreSQLHostCredentialsList_type k) (PostgreSQLHostCredentialsList_DeepCopyInto k)"
  by (auto simp: PostgreSQLHostCredentialsList_type_def PostgreSQLHostCredentialsList_DeepCopyInto_def TypeMeta_type_def metav1_copies_def intro!: copies_intros)

lemma PostgreSQLServiceUserRole_copies [copies_intros]: "copies PostgreSQLServiceUserRole_type PostgreSQLServiceUserRole_DeepCopyInto"
  by (auto simp: PostgreSQLServiceUserRole_type_def PostgreSQLServiceUserRole_DeepCopyInto_def intro!: copies_intros)

lemma PostgreSQLServiceUserSpec_copies [copies_intros]: "copies PostgreSQLServiceUserSpec_type PostgreSQLServiceUserSpec_DeepCopyInto"
  by (auto simp: PostgreSQLServiceUserSpec_type_def PostgreSQLServiceUserSpec_DeepCopyInto_def PostgreSQLServiceUserRole_type_def intro!: copies_intros)

lemma PostgreSQLServiceUserCondition_copies [copies_intros]: "metav1_copies k \<Longrightarrow> copies (PostgreSQLServiceUserCondition_type k) (PostgreSQLServiceUserCondition_DeepCopyInto k)"
  by (auto simp: PostgreSQLServiceUserCondition_type_def PostgreSQLServiceUserCondition_DeepCopyInto_def metav1_copies_def intro!: copies_intros)

lemma PostgreSQLServiceUserStatus_copies [copies_intros]: "metav1_copies k \<Longrightarrow> copies (PostgreSQLServiceUserStatus_type k) (PostgreSQLServiceUserStatus_DeepCopyInto k)"
  by (auto simp: PostgreSQLServiceUserStatus_type_def PostgreSQLServiceUserStatus_DeepCopyInto_def intro!: copies_intros)

lemma PostgreSQLServiceUser_copies [copies_intros]: "metav1_copies k \<Longrightarrow> copies (PostgreSQLServiceUser_type k) (PostgreSQLServiceUser_DeepCopyInto k)"
  by (auto simp: PostgreSQLServiceUser_type_def PostgreSQLServiceUser_DeepCopyInto_def TypeMeta_type_def metav1_copies_def intro!: copies_intros)

lemma PostgreSQLServiceUserList_copies [copies_intros]: "metav1_copies k \<Longrightarrow> copies (PostgreSQLServiceUserList_type k) (PostgreSQLServiceUserList_DeepCopyInto k)"
  by (auto simp: PostgreSQLServiceUserList_type_def PostgreSQLServiceUserList_DeepCopyInto_def TypeMeta_type_def metav1_copies_def intro!: copies_intros)

lemma CustomRoleFunction_copies [copies_intros]: "copies CustomRoleFunction_type CustomRoleFunction_DeepCopyInto"
  by (auto simp: CustomRoleFunction_type_def CustomRoleFunction_DeepCopyInto_def intro!: copies_intros)

lemma CustomRoleGrant_copies [copies_intros]: "copies CustomRoleGrant_type CustomRoleGrant_DeepCopyInto"
  by (auto simp: CustomRoleGrant_type_def CustomRoleGrant_DeepCopyInto_def intro!: copies_intros)

lemma CustomRoleSpec_copies [copies_intros]: "copies CustomRoleSpec_type CustomRoleSpec_DeepCopyInto"
  by (auto simp: CustomRoleSpec_type_def CustomRoleSpec_DeepCopyInto_def CustomRoleFunction_type_def intro!: copies_intros)

lemma CustomRoleStatus_copies [copies_intros]: "metav1_copies k \<Longrightarrow> copies (CustomRoleStatus_type k) (CustomRoleStatus_DeepCopyInto k)"
  by (auto simp: CustomRoleStatus_type_def CustomRoleStatus_DeepCopyInto_def metav1_copies_def intro!: copies_intros)

lemma CustomRole_copies [copies_intros]: "metav1_copies k \<Longrightarrow> copies (CustomRole_type k) (CustomRole_DeepCopyInto k)"
  by (auto simp: CustomRole_type_def CustomRole_DeepCopyInto_def TypeMeta_type_def metav1_copies_def intro!: copies_intros)

lemma CustomRoleList_copies [copies_intros]: "metav1_copies k \<Longrightarrow> copies (CustomRoleList_type k) (CustomRoleList_DeepCopyInto k)"
  by (auto simp: CustomRoleList_type_def CustomRoleList_DeepCopyInto_def TypeMeta_type_def metav1_copies_def intro!: copies_intros)

text \<open>All API types with \<open>DeepCopyInto\<close> and \<open>DeepCopy\<close>, and the objects with \<open>DeepCopyObject\<close>.\<close>

definition api_copiers ::
    "metav1 \<Rightarrow> (gty \<times> prim copier \<times> (nat option \<Rightarrow> prim mem \<Rightarrow> nat option \<times> prim mem)) list" where
  "api_copiers k =
     [(KeySelector_type, KeySelector_DeepCopyInto, KeySelector_DeepCopy),
      (ResourceVarSource_type, ResourceVarSource_DeepCopyInto, ResourceVarSource_DeepCopy),
      (ResourceVar_type, ResourceVar_DeepCopyInto, ResourceVar_DeepCopy),
      (AccessSpec_type k, AccessSpec_DeepCopyInto k, AccessSpec_DeepCopy k),
      (WriteAccessSpec_type k, WriteAccessSpec_DeepCopyInto k, WriteAccessSpec_DeepCopy k),
      (PostgreSQLUserSpec_type k, PostgreSQLUserSpec_DeepCopyInto k, PostgreSQLUserSpec_DeepCopy k),
      (PostgreSQLUserStatus_type, PostgreSQLUserStatus_DeepCopyInto, PostgreSQLUserStatus_DeepCopy),
      (PostgreSQLUser_type k, PostgreSQLUser_DeepCopyInto k, PostgreSQLUser_DeepCopy k),
      (PostgreSQLUser_type k, PostgreSQLUser_DeepCopyInto k, PostgreSQLUser_DeepCopyObject k),
      (PostgreSQLUserList_type k, PostgreSQLUserList_DeepCopyInto k, PostgreSQLUserList_DeepCopy k),
      (PostgreSQLUserList_type k, PostgreSQLUserList_DeepCopyInto k, PostgreSQLUserList_DeepCopyObject k),
      (PostgreSQLDatabaseExtension_type, PostgreSQLDatabaseExtension_DeepCopyInto, PostgreSQLDatabaseExtension_DeepCopy),
      (PostgreSQLDatabaseSpec_type, PostgreSQLDatabaseSpec_DeepCopyInto, PostgreSQLDatabaseSpec_DeepCopy),
      (PostgreSQLDatabaseStatus_type k, PostgreSQLDatabaseStatus_DeepCopyInto k, PostgreSQLDatabaseStatus_DeepCopy k),
      (PostgreSQLDatabase_type k, PostgreSQLDatabase_DeepCopyInto k, PostgreSQLDatabase_DeepCopy k),
      (PostgreSQLDatabase_type k, PostgreSQLDatabase_DeepCopyInto k, PostgreSQLDatabase_DeepCopyObject k),
      (PostgreSQLDatabaseList_type k, PostgreSQLDatabaseList_DeepCopyInto k, PostgreSQLDatabaseList_DeepCopy k),
      (PostgreSQLDatabaseList_type k, PostgreSQLDatabaseList_DeepCopyInto k, PostgreSQLDatabaseList_DeepCopyObject k),
      (PostgreSQLHostCredentialsSpec_type, PostgreSQLHostCredentialsSpec_DeepCopyInto, PostgreSQLHostCredentialsSpec_DeepCopy),
      (PostgreSQLHostCredentialsStatus_type, PostgreSQLHostCredentialsStatus_DeepCopyInto, PostgreSQLHostCredentialsStatus_DeepCopy),
      (PostgreSQLHostCredentials_type k, PostgreSQLHostCredentials_DeepCopyInto k, PostgreSQLHostCredentials_DeepCopy k),
      (PostgreSQLHostCredentials_type k, PostgreSQLHostCredentials_DeepCopyInto k, PostgreSQLHostCredentials_DeepCopyObject k),
      (PostgreSQLHostCredentialsList_type k, PostgreSQLHostCredentialsList_DeepCopyInto k, PostgreSQLHostCredentialsList_DeepCopy k),
      (PostgreSQLHostCredentialsList_type k, PostgreSQLHostCredentialsList_DeepCopyInto k, PostgreSQLHostCredentialsList_DeepCopyObject k),
      (PostgreSQLServiceUserRole_type, PostgreSQLServiceUserRole_DeepCopyInto, PostgreSQLServiceUserRole_DeepCopy),
      (PostgreSQLServiceUserSpec_type, PostgreSQLServiceUserSpec_DeepCopyInto, PostgreSQLServiceUserSpec_DeepCopy),
      (PostgreSQLServiceUserCondition_type k, PostgreSQLServiceUserCondition_DeepCopyInto k, PostgreSQLServiceUserCondition_DeepCopy k),
      (PostgreSQLServiceUserStatus_type k, PostgreSQLServiceUserStatus_DeepCopyInto k, PostgreSQLServiceUserStatus_DeepCopy k),
      (PostgreSQLServiceUser_type k, PostgreSQLServiceUser_DeepCopyInto k, PostgreSQLServiceUser_DeepCopy k),
      (PostgreSQLServiceUser_type k, PostgreSQLServiceUser_DeepCopyInto k, PostgreSQLServiceUser_DeepCopyObject k),
      (PostgreSQLServiceUserList_type k, PostgreSQLServiceUserList_DeepCopyInto k, PostgreSQLServiceUserList_DeepCopy k),
      (PostgreSQLServiceUserList_type k, PostgreSQLServiceUserList_DeepCopyInto k, PostgreSQLServiceUserList_DeepCopyObject k),
      (CustomRoleFunction_type, CustomRoleFunction_DeepCopyInto, CustomRoleFunction_DeepCopy),
      (CustomRoleGrant_type, CustomRoleGrant_DeepCopyInto, CustomRoleGrant_DeepCopy),
      (CustomRoleSpec_type, CustomRoleSpec_DeepCopyInto, CustomRoleSpec_DeepCopy),
      (CustomRoleStatus_type k, CustomRoleStatus_DeepCopyInto k, CustomRoleStatus_DeepCopy k),
      (CustomRole_type k, CustomRole_DeepCopyInto k, CustomRole_DeepCopy k),
      (CustomRole_type k, CustomRole_DeepCopyInto k, CustomRole_DeepCopyObject k),
      (CustomRoleList_type k, CustomRoleList_DeepCopyInto k, CustomRoleList_DeepCopy k),
      (CustomRoleList_type k, CustomRoleList_DeepCopyInto k, CustomRoleList_DeepCopyObject k)]"

lemmas DeepCopy_defs = KeySelector_DeepCopy_def
  ResourceVarSource_DeepCopy_def
  ResourceVar_DeepCopy_def
  AccessSpec_DeepCopy_def
  WriteAccessSpec_DeepCopy_def
  PostgreSQLUserSpec_DeepCopy_def
  PostgreSQLUserStatus_DeepCopy_def
  PostgreSQLUser_DeepCopy_def
  PostgreSQLUser_DeepCopyObject_def
  PostgreSQLUserList_DeepCopy_def
  PostgreSQLUserList_DeepCopyObject_def
  PostgreSQLDatabaseExtension_DeepCopy_def
  PostgreSQLDatabaseSpec_DeepCopy_def
  PostgreSQLDatabaseStatus_DeepCopy_def
  PostgreSQLDatabase_DeepCopy_def
  PostgreSQLDatabase_DeepCopyObject_def
  PostgreSQLDatabaseList_DeepCopy_def
  PostgreSQLDatabaseList_DeepCopyObject_def
  PostgreSQLHostCredentialsSpec_DeepCopy_def
  PostgreSQLHostCredentialsStatus_DeepCopy_def
  PostgreSQLHostCredentials_DeepCopy_def
  PostgreSQLHostCredentials_DeepCopyObject_def
  PostgreSQLHostCredentialsList_DeepCopy_def
  PostgreSQLHostCredentialsList_DeepCopyObject_def
  PostgreSQLServiceUserRole_DeepCopy_def
  PostgreSQLServiceUserSpec_DeepCopy_def
  PostgreSQLServiceUserCondition_DeepCopy_def
  PostgreSQLServiceUserStatus_DeepCopy_def
  PostgreSQLServiceUser_DeepCopy_def
  PostgreSQLServiceUser_DeepCopyObject_def
  PostgreSQLServiceUserList_DeepCopy_def
  PostgreSQLServiceUserList_DeepCopyObject_def
  CustomRoleFunction_DeepCopy_def
  CustomRoleGrant_DeepCopy_def
  CustomRoleSpec_DeepCopy_def
  CustomRoleStatus_DeepCopy_def
  CustomRole_DeepCopy_def
  CustomRole_DeepCopyObject_def
  CustomRoleList_DeepCopy_def
  CustomRoleList_DeepCopyObject_def

lemmas api_copies = KeySelector_copies
  ResourceVarSource_copies
  ResourceVar_copies
  AccessSpec_copies
  WriteAccessSpec_copies
  PostgreSQLUserSpec_copies
  PostgreSQLUserStatus_copies
  PostgreSQLUser_copies
  PostgreSQLUserList_copies
  PostgreSQLDatabaseExtension_copies
  PostgreSQLDatabaseSpec_copies
  PostgreSQLDatabaseStatus_copies
  PostgreSQLDatabase_copies
  PostgreSQLDatabaseList_copies
  PostgreSQLHostCredentialsSpec_copies
  PostgreSQLHostCredentialsStatus_copies
  PostgreSQLHostCredentials_copies
  PostgreSQLHostCredentialsList_copies
  PostgreSQLServiceUserRole_copies
  PostgreSQLServiceUserSpec_copies
  PostgreSQLServiceUserCondition_copies
  PostgreSQLServiceUserStatus_copies
  PostgreSQLServiceUser_copies
  PostgreSQLServiceUserList_copies
  CustomRoleFunction_copies
  CustomRoleGrant_copies
  CustomRoleSpec_copies
  CustomRoleStatus_copies
  CustomRole_copies
  CustomRoleList_copies

interpretation copy_ResourceVarSource: deep_copier ResourceVarSource_type ResourceVarSource_DeepCopyInto
  by unfold_locales (rule ResourceVarSource_copies)

interpretation copy_ResourceVar: deep_copier ResourceVar_type ResourceVar_DeepCopyInto
  by unfold_locales (rule ResourceVar_copies)

interpretation copy_PostgreSQLDatabaseSpec: deep_copier PostgreSQLDatabaseSpec_type PostgreSQLDatabaseSpec_DeepCopyInto
  by unfold_locales (rule PostgreSQLDatabaseSpec_copies)

interpretation copy_PostgreSQLHostCredentialsSpec: deep_copier PostgreSQLHostCredentialsSpec_type PostgreSQLHostCredentialsSpec_DeepCopyInto
  by unfold_locales (rule PostgreSQLHostCredentialsSpec_copies)

interpretation copy_PostgreSQLServiceUserSpec: deep_copier PostgreSQLServiceUserSpec_type PostgreSQLServiceUserSpec_DeepCopyInto
  by unfold_locales (rule PostgreSQLServiceUserSpec_copies)

interpretation copy_CustomRoleGrant: deep_copier CustomRoleGrant_type CustomRoleGrant_DeepCopyInto
  by unfold_locales (rule CustomRoleGrant_copies)

interpretation copy_CustomRoleSpec: deep_copier CustomRoleSpec_type CustomRoleSpec_DeepCopyInto
  by unfold_locales (rule CustomRoleSpec_copies)

lemma copy_of_nil: "(case DeepCopy f p m of (Some c, m') \<Rightarrow> (Some c, m') | (None, m') \<Rightarrow> (None, m')) = DeepCopy f p m"
  by (simp split: prod.split option.split)

lemma api_copiers_ok:
  assumes "metav1_copies k" and "(T, into, copy) \<in> set (api_copiers k)"
  shows "copies T into" and "copy = DeepCopy into"
proof -
  show "copies T into" using assms(2) by (auto simp: api_copiers_def intro: api_copies assms(1))
  have "copy p m = DeepCopy into p m" for p m
    using assms(2) by (auto simp: api_copiers_def DeepCopy_defs copy_of_nil)
  then show "copy = DeepCopy into" by blast
qed

section \<open>Sanitizing a copy\<close>

text \<open>\<open>sanitizedUser\<close> of the user controller on the memory: a copy whose name is then replaced. A nil pointer
  would be dereferenced, which is \<open>None\<close>.\<close>

fun sanitize :: "prim \<Rightarrow> prim" where
  "sanitize (PString s) = PString (ReplaceAll s ''.'' ''_'')"
| "sanitize p = p"

fun set_name :: "prim gv \<Rightarrow> prim gv" where
  "set_name (Struct [tm, om, Struct (Prim name # spec), st]) = Struct [tm, om, Struct (Prim (sanitize name) # spec), st]"
| "set_name v = v"

definition sanitizedUser_mem :: "metav1 \<Rightarrow> nat option \<Rightarrow> prim mem \<Rightarrow> (nat \<times> prim mem) option" where
  "sanitizedUser_mem k raw m =
     (case PostgreSQLUser_DeepCopy k raw m of
        (None, m1) \<Rightarrow> None
      | (Some b, m1) \<Rightarrow> Some (b, m1[b := [set_name (m1 ! b ! 0)]]))"

text \<open>What the sanitized user stands for.\<close>

fun tree_set_name :: "prim tree \<Rightarrow> prim tree" where
  "tree_set_name (TStruct [tm, om, TStruct (TPrim name # spec), st]) = TStruct [tm, om, TStruct (TPrim (sanitize name) # spec), st]"
| "tree_set_name t = t"

lemma shaped_structE:
  assumes "shaped (StructT Ts) t"
  obtains ts where "t = TStruct ts" and "list_all2 shaped Ts ts"
  using assms by (cases t) (auto simp: list.rel_map)

lemma den_structE:
  assumes "den (TStruct ts) m v"
  obtains vs where "v = Struct vs" and "list_all2 (\<lambda>t w. den t m w) ts vs"
  using assms by (cases v) (auto simp: list.rel_map)

lemma user_tree:
  assumes "shaped (PostgreSQLUser_type k) t"
  obtains tm om name spec st where "t = TStruct [tm, om, TStruct (TPrim name # spec), st]"
proof -
  from assms obtain tm om sp st where t: "t = TStruct [tm, om, sp, st]" and sp: "shaped (PostgreSQLUserSpec_type k) sp"
    unfolding PostgreSQLUser_type_def by (elim shaped_structE) (simp add: list_all2_Cons1, blast)
  from sp obtain name spec where "sp = TStruct (name # spec)" "shaped Plain name"
    unfolding PostgreSQLUserSpec_type_def by (elim shaped_structE) (simp add: list_all2_Cons1 del: shaped.simps, blast)
  with that t show thesis by (cases name) auto
qed

lemma den_set_name:
  assumes "den t m w" and "shaped (PostgreSQLUser_type k) t"
  shows "den (tree_set_name t) m (set_name w)" and "reach (tree_set_name t) m (set_name w) = reach t m w"
proof -
  obtain tm om name spec st where t: "t = TStruct [tm, om, TStruct (TPrim name # spec), st]"
    using user_tree [OF assms(2)] .
  from assms(1) [unfolded t] obtain a b sp d where w: "w = Struct [a, b, sp, d]" and sp: "den (TStruct (TPrim name # spec)) m sp"
    by (elim den_structE) (simp add: list_all2_Cons1 del: den.simps, blast)
  from sp obtain c where c: "sp = Struct (Prim name # c)"
    by (elim den_structE) (auto simp: list_all2_Cons1)
  show "den (tree_set_name t) m (set_name w)" and "reach (tree_set_name t) m (set_name w) = reach t m w"
    using assms(1) by (simp_all add: t w c)
qed

section \<open>Properties\<close>

text \<open>C5. \<open>DeepCopyInto\<close>, \<open>DeepCopy\<close> and \<open>DeepCopyObject\<close> of all API types make deep copies: they change nothing
  that was in memory, the copy stands for the same object, nil pointers and nil slices included, and
  from the copy only memory is reached that was allocated for it, so that copy and original
  share nothing. The copy of a nil pointer is nil.\<close>

theorem api_deep_copies:
  assumes "metav1_copies k" and "(T, into, copy) \<in> set (api_copiers k)" and "shaped T t" and "den (TPtr t) m (Ptr (Some a))"
    and "into (m ! a ! 0) m = (v, m1)" and "copy (Some a) m = (q, m2)"
  shows "(\<exists>new. m1 = m @ new) \<and> den t m1 v \<and> reach t m1 v \<subseteq> {length m..<length m1}
    \<and> (\<exists>new. m2 = m @ new) \<and> den (TPtr t) m2 (Ptr q) \<and> reach (TPtr t) m2 (Ptr q) \<subseteq> {length m..<length m2}
    \<and> reach (TPtr t) m (Ptr (Some a)) \<subseteq> {..<length m} \<and> copy None m = (None, m)"
proof -
  note ok = api_copiers_ok [OF assms(1,2)]
  have d: "den t m (m ! a ! 0)" using assms(4) by simp
  note one = copiesD [OF ok(1) assms(3) d assms(5)]
  have copier: "deep_copier T into" by unfold_locales (rule ok(1))
  note two = deep_copier.DeepCopy_ok [OF copier assms(3,4) assms(6) [unfolded ok(2)]]
  have "reach t m1 v \<subseteq> {length m..<length m1}" using one(3) reach_bound [OF one(2)] by fastforce
  moreover have "reach (TPtr t) m2 (Ptr q) \<subseteq> {length m..<length m2}" using two(3) reach_bound [OF two(2)] by fastforce
  moreover have "reach (TPtr t) m (Ptr (Some a)) \<subseteq> {..<length m}" using assms(4) by (rule reach_bound)
  moreover have "copy None m = (None, m)" unfolding ok(2) by (rule deep_copier.DeepCopy_nil [OF copier])
  ultimately show ?thesis using one(1,2) two(1,2) by blast
qed

text \<open>C40. \<open>sanitizedUser\<close> returns a user whose name alone is different, and the user it was given
  keeps its name: the full stops that PostgreSQL role names must not have are replaced in the copy
  only, so the IAM policy is written for the name as it was.\<close>

theorem sanitizedUser_keeps_original:
  assumes "metav1_copies k" and "shaped (PostgreSQLUser_type k) t" and "den (TPtr t) m (Ptr (Some a))"
  shows "\<exists>b m'. sanitizedUser_mem k (Some a) m = Some (b, m') \<and> den (TPtr t) m' (Ptr (Some a))
    \<and> den (TPtr (tree_set_name t)) m' (Ptr (Some b))"
proof -
  let ?f = "PostgreSQLUser_DeepCopyInto k"
  have copier: "deep_copier (PostgreSQLUser_type k) ?f" by unfold_locales (rule PostgreSQLUser_copies [OF assms(1)])
  obtain q m1 where c: "DeepCopy ?f (Some a) m = (q, m1)" by (cases "DeepCopy ?f (Some a) m")
  from deep_copier.DeepCopy_fresh [OF copier assms(2,3) c] obtain w new
    where q: "q = Some (length m)" and m1: "m1 = (m @ [[w]]) @ new" and w: "den t m1 w" "reach t m1 w \<subseteq> {Suc (length m)..}" .
  let ?m = "(m @ [[set_name w]]) @ new"
  have run: "sanitizedUser_mem k (Some a) m = Some (length m, ?m)"
    using fill_array [of m "[w]" new "[set_name w]"]
    by (simp add: sanitizedUser_mem_def PostgreSQLUser_DeepCopy_def c q m1 nth_append)
  have "den (TPtr t) ?m (Ptr (Some a))"
    by (rule deep_copier.original_kept [OF copier assms(3,2,3) c]) (simp_all add: m1 nth_append)
  moreover have "den (tree_set_name t) ?m (set_name w)"
    using den_filled [of "tree_set_name t" m "[w]" new "set_name w" "[set_name w]"] den_set_name [OF w(1) assms(2)] w(2)
    unfolding m1 by simp
  ultimately show ?thesis using run by (intro exI [of _ "length m"] exI [of _ ?m]) (simp add: nth_append)
qed

section \<open>Witnesses\<close>

text \<open>An object's metadata with name, namespace and a slice of finalizers.\<close>

definition demo_metav1 :: metav1 where
  "demo_metav1 = \<lparr>time_T = Plain, time_into = assign, om_T = StructT [Plain, Plain, SliceT Plain],
     om_into = copy_struct [assign, assign, make_into assign], lm_T = Plain, lm_into = assign\<rparr>"

lemma demo_metav1_copies: "metav1_copies demo_metav1"
  by (auto simp: metav1_copies_def demo_metav1_def intro!: copies_intros)

text \<open>A user at address 0, with its finalizers at address 1 and its read accesses, none, at 2 and 3.\<close>

definition demo_mem :: "prim mem" where
  "demo_mem = [[Struct [Struct [Prim (PString ''v1''), Prim (PString ''PostgreSQLUser'')],
       Struct [Prim (PString ''r''), Prim (PString ''ns''), Slice (Some (1, 0, 1))],
       Struct [Prim (PString ''a.b''), Ptr (Some 2), Ptr None], Struct []]],
     [Prim (PString ''fin''), Prim (PString ''spare'')], [Slice (Some (3, 0, 0))], []]"

definition demo_tree :: "prim tree" where
  "demo_tree = TStruct [TStruct [TPrim (PString ''v1''), TPrim (PString ''PostgreSQLUser'')],
     TStruct [TPrim (PString ''r''), TPrim (PString ''ns''), TSlice [TPrim (PString ''fin'')]],
     TStruct [TPrim (PString ''a.b''), TPtr (TSlice []), TNilPtr], TStruct []]"

lemma demo_shaped: "shaped (PostgreSQLUser_type demo_metav1) demo_tree" and demo_den: "den (TPtr demo_tree) demo_mem (Ptr (Some 0))"
  by code_simp+

theorem api_deep_copies_witness:
  "\<exists>q m'. PostgreSQLUser_DeepCopy demo_metav1 (Some 0) demo_mem = (q, m') \<and> den (TPtr demo_tree) m' (Ptr q)
    \<and> reach (TPtr demo_tree) m' (Ptr q) \<inter> reach (TPtr demo_tree) demo_mem (Ptr (Some 0)) = {}"
proof -
  let ?v = "demo_mem ! 0 ! 0"
  obtain v m1 where a: "PostgreSQLUser_DeepCopyInto demo_metav1 ?v demo_mem = (v, m1)"
    by (cases "PostgreSQLUser_DeepCopyInto demo_metav1 ?v demo_mem")
  obtain q m2 where b: "PostgreSQLUser_DeepCopy demo_metav1 (Some 0) demo_mem = (q, m2)"
    by (cases "PostgreSQLUser_DeepCopy demo_metav1 (Some 0) demo_mem")
  have "(PostgreSQLUser_type demo_metav1, PostgreSQLUser_DeepCopyInto demo_metav1, PostgreSQLUser_DeepCopy demo_metav1)
      \<in> set (api_copiers demo_metav1)" by (simp add: api_copiers_def)
  note r = api_deep_copies [OF demo_metav1_copies this demo_shaped demo_den a b]
  then have "reach (TPtr demo_tree) m2 (Ptr q) \<inter> reach (TPtr demo_tree) demo_mem (Ptr (Some 0)) = {}" by fastforce
  with r b show ?thesis by blast
qed

theorem sanitizedUser_keeps_original_witness:
  "\<exists>b m'. sanitizedUser_mem demo_metav1 (Some 0) demo_mem = Some (b, m')
    \<and> den (TPtr demo_tree) m' (Ptr (Some 0)) \<and> den (TPtr (tree_set_name demo_tree)) m' (Ptr (Some b))"
  by (rule sanitizedUser_keeps_original [OF demo_metav1_copies demo_shaped demo_den])

end
