(* ===== verification/Spec2Isabelle.thy ===== *)
theory Spec2Isabelle
  imports Grants_Sync Grant_Server Iam_Server Iam_Random Daemon Wiring User_Lifecycle Deep_Copy
begin

text \<open>
  A verification library for the PostgreSQL controller, a Kubernetes controller written in Go
  (sources under \<open>src/\<close>).

  \<^bold>\<open>The program.\<close> Custom resources describe databases (\<open>PostgreSQLDatabase\<close>), users
  (\<open>PostgreSQLUser\<close>), administrator credentials (\<open>PostgreSQLHostCredentials\<close>) and roles
  (\<open>CustomRole\<close>). \<open>cmd/main.go\<close> reads the flags (\<open>internal/config\<close>) and registers one reconciler
  per resource (\<open>internal/controller\<close>). The database reconciler resolves references to Secrets and
  ConfigMaps (\<open>pkg/kube\<close>) and provisions database, service user, access roles, default
  privileges and extensions (\<open>pkg/postgres\<close>). The user reconciler turns the access requests of a
  user into role memberships on all hosts (\<open>pkg/grants\<close>, \<open>pkg/postgres\<close>) and lets the user log in
  through AWS IAM policies (\<open>pkg/iam\<close>). The custom role reconciler brings memberships, table
  privileges and SECURITY DEFINER functions of a role in line with its specification on every host.
  \<open>pkg/errors\<close> classifies errors as invalid or temporary, which decides about retries.
  \<open>pkg/daemon\<close> is a library for periodic work.

  \<^bold>\<open>What is outside.\<close> PostgreSQL with \<open>database/sql\<close> and \<open>lib/pq\<close>, the Kubernetes API,
  controller-runtime, \<open>apimachinery\<close> and AWS IAM are not in the repository. They are parameters
  (\<open>server\<close>, \<open>kube_client\<close> and \<open>api\<close>, \<open>environment\<close>, \<open>metav1\<close>, \<open>aws\<close>) that answer each call as a
  function of the calls made so far. A theorem that needs documented behaviour of them has it as a
  hypothesis (\<open>membership_laws\<close>, the laws of \<open>Grant_Laws\<close>, \<open>iam_laws\<close>, \<open>iam_write_laws\<close>,
  \<open>attach_laws\<close>, \<open>metav1_copies\<close>), and an executable service that satisfies it shows that the
  hypothesis can hold (\<open>Reference_Server\<close>, \<open>Grant_Server\<close>, \<open>Iam_Server\<close>). All other theorems hold for
  every behaviour of the services, failures at any call included.

  \<^bold>\<open>Idealisations.\<close> The laws of granting promise an effect only for statements in the name of the owner of
  the object, and a statement may be refused at any time; privileges that others than the owners
  granted are outside of them. \<open>iam_laws\<close> has IAM read what was written before, while the service is
  eventually consistent, and lists only policies directly under the path of the controller. In the
  step relation of the cluster a pass is atomic and reads the stored object, and an edit keeps
  name, finalizers and deletion timestamp of a resource. A point in time (\<open>metav1.Time\<close>) has no
  inner structure, so the location that copies of it share is not seen.

  \<^bold>\<open>How Go is modelled.\<close> Strings are byte lists. A Go map is an association list; where the source
  ranges over a map the order is an argument of the model, and theorems hold for all orders
  (\<open>is_range\<close>). Errors are values of \<open>goerr\<close>, a fallible call returns \<open>goerr + 'a\<close>, and a panic is
  \<open>None\<close>. Code with effects is a state transformer over the history of calls (\<open>step\<close>, \<open>act\<close>,
  \<open>iam\<close>) built with \<open>onerr\<close> (\<open>if err != nil\<close>), \<open>for_each\<close>, \<open>collect\<close> and \<open>deferring\<close> (\<open>defer\<close>).
  Objects changed in place are returned changed. Reading a clock is a function of the pass and
  the check it belongs to. All functions of the model terminate; there is no fuel. The
  recursions that are not structural (\<open>ReplaceAll\<close>, reading and writing JSON) shorten their input.
  Of the standard library, \<open>encoding/json\<close> (\<open>Json\<close>) and \<open>flag\<close> (\<open>Go_Flag\<close>) are modelled as far as
  the program uses them. Sharing of memory matters in one place, the deep copies, which therefore
  have a memory model of their own (\<open>Go_Memory\<close>).

  \<^bold>\<open>The theories.\<close>
  \<^item> \<open>Go_Prelude\<close>, \<open>Go_Errors\<close> (\<open>pkg/errors\<close>), \<open>Api_Types\<close> (\<open>api/v1alpha1\<close>): standard library, error
    values, resources.
  \<^item> \<open>Kube\<close> (\<open>pkg/kube/kube.go\<close>): \<open>ResourceValue\<close>; the locale \<open>resource_resolver\<close> is what
    \<open>pkg/grants\<close> relies on, interpreted on \<open>ResourceValue\<close>.
  \<^item> \<open>Sql_World\<close>, \<open>Pg_Connection\<close>, \<open>Sql_Reasoning\<close>: calls of \<open>database/sql\<close>, connection strings, and
    rules by which the statements sent (\<open>script\<close>), the connections left open (\<open>balanced\<close>), the
    events on a connection (\<open>local_op\<close>) and predicates kept at every moment (\<open>along\<close>) are derived
    from the definitions.
  \<^item> \<open>Diff_Sync\<close>: the locale of computing what to add and remove, interpreted for role
    memberships, custom role members, table grants and extensions.
  \<^item> \<open>Pg_Roles\<close> (\<open>postgres.go\<close>), \<open>Pg_Database\<close> (\<open>database.go\<close>, \<open>extensions.go\<close>, \<open>preflight.go\<close>,
    \<open>manager_role.go\<close>): \<open>rolesDiff\<close> and \<open>Role\<close>; \<open>Database\<close> with its exact script of statements.
  \<^item> \<open>Custom_Role\<close> (\<open>customrole.go\<close>, \<open>customrole_roles.go\<close>): transactions in the name of an owner, with
    the result of the function deciding between commit and rollback (\<open>role_transaction\<close>); memberships.
  \<^item> \<open>Sql_Text\<close>, \<open>Custom_Functions\<close> (\<open>customrole_functions.go\<close>): where PostgreSQL sees the end of an
    argument list, with its quotes, quoted identifiers, dollar quotes and comments; which texts are accepted
    in function definitions; the exact course of a synchronisation (\<open>sync_course\<close>), tied to
    the answers of the server.
  \<^item> \<open>Custom_Grants\<close>, \<open>Grant_Laws\<close>, \<open>Grant_Server\<close> (\<open>customrole_grants.go\<close>): that grants end up as desired
    except for what was refused or has no owner, with no outage on the way.
  \<^item> \<open>Grants\<close> (\<open>pkg/grants/grants.go\<close>), \<open>Grants_Sync\<close> (\<open>sync.go\<close>): which accesses a user gets, equal
    to a declarative reference and justified by an active request; when \<open>SyncUser\<close> succeeds.
  \<^item> \<open>Config\<close> (\<open>internal/config/config.go\<close>): flags and host credentials, with the round trip of
    \<open>Set\<close> and the masking of passwords.
  \<^item> \<open>Json\<close>, \<open>Json_Laws\<close>, \<open>Policy_Json\<close>: JSON text with escaping, UTF-8, lexing and parsing, the
    mapping of Go structs by their tags, and the round trip of policy documents.
  \<^item> \<open>Iam_Policy\<close> (\<open>pkg/iam/policy.go\<close>), \<open>Iam\<close> (\<open>client.go\<close>, \<open>iam.go\<close>), \<open>Iam_Laws\<close>, \<open>Iam_Server\<close>: policy
    documents, the IAM client, \<open>EnsureUser\<close> and \<open>RemoveUser\<close>; both refine functions on the map
    from policy names to documents (\<open>ensure_spec\<close>, \<open>remove_spec\<close>), which are written on the statements
    of the documents; access, attachment and the size of policies follow. \<open>Iam_Failures\<close>: what they change when calls fail half way.
    \<open>Iam_Random\<close> (\<open>random.go\<close>): random names.
  \<^item> \<open>Daemon\<close> (\<open>pkg/daemon/daemon.go\<close>): the loop as a step relation beside the runtime's timer, its
    invariant by rule induction, and a bound on the steps until the next call of \<open>Sync\<close>.
  \<^item> \<open>Controller_World\<close>: the world of the reconcilers: history of the servers, of AWS, and log of the
    writes to Kubernetes. \<open>Database_Controller\<close>, \<open>User_Controller\<close>, \<open>CustomRole_Controller\<close> and
    \<open>CustomRole_Laws\<close> (the files of \<open>internal/controller\<close>): whole reconciliations, with credentials,
    finalizers, status updates and requeueing.
  \<^item> \<open>Wiring\<close> (\<open>cmd/main.go\<close>, the \<open>SetupWithManager\<close> methods, the registration of types): the
    command line, the configuration of a run and the reconcilers built from it, the calls of
    \<open>main\<close> in order and its exit codes. \<open>settings\<close> and \<open>calls_setting\<close> say for every field which
    flag it comes from and what its default is.
  \<^item> \<open>User_Lifecycle\<close>: a cluster of user resources and IAM policies as a step relation: resources
    are created, edited and deleted while the reconciler makes its passes. Whoever has access has a
    resource with a finalizer, and passes that ask for another one at once are bounded.
  \<^item> \<open>Go_Memory\<close>, \<open>Deep_Copy\<close> (\<open>zz_generated.deepcopy.go\<close>): pointers, slices and structs in memory, the
    locale of deep copiers, interpreted for all API types, and \<open>sanitizedUser\<close> on memory.
  \<^item> This theory: properties across components. A reconciliation leaves no connection open;
    a user resource loses its finalizer only when no IAM policy lets the user connect any more.

  \<^bold>\<open>Not modelled.\<close> Log output, except the line that shows the configuration. The manager itself:
  its caches, work queues, web servers and leader election. Random request ids, which appear in
  logs only. Helpers of the test suite (\<open>test/\<close>). Cancellation through contexts, which the code
  passes on to library calls only. Unused constants of the service user, whose reconciler is an
  empty scaffold. Reads of the Kubernetes API are taken from one state of the API server per
  reconciliation.

  \<^bold>\<open>Next.\<close> The composed effect of \<open>reconcileOnHost\<close> on a server that follows the laws of
  memberships and grants together; databases and custom roles in the step relation of the cluster,
  with the watch that makes custom roles follow new databases.
\<close>

section \<open>Properties that span components\<close>

text \<open>C37. The reconcilers of databases and of custom roles leave no connection to a host open, on any
  outcome and for any behaviour of the servers: every connection that was established during a
  reconciliation is closed at its end. A connection is established when it has been opened and has answered the
  ping; a handle whose ping fails is dropped by \<open>Connect\<close> without being closed.\<close>

theorem reconcilers_close_connections:
  assumes "settled (w_sql w)"
  shows "conns (w_sql (snd (database_Reconcile srv api render now (database_reconciler_of config) req w))) = conns (w_sql w)
    \<and> conns (w_sql (snd (customrole_Reconcile srv api render now ch (custom_role_reconciler_of config) req w))) = conns (w_sql w)"
  using database_reconcile_conns [OF assms, of srv api "database_reconciler_of config" req]
    customrole_reconcile_conns [OF assms, of srv api render now ch "custom_role_reconciler_of config" req]
  by (simp add: database_Reconcile_def customrole_Reconcile_def case_prod_beta)

text \<open>The reconciliation of a custom role that is being deleted, with one host, to which it connects.\<close>

definition demo_hosts :: ControllerConfiguration where
  "demo_hosts = (RegisterFlags zero_config)\<lparr>cfg_HostCredentials := [(''db'', no_credentials\<lparr>c_User := ''admin''\<rparr>)]\<rparr>"

definition demo_closing :: history where
  "demo_closing = w_sql (snd (customrole_Reconcile (ref_server id (\<lambda>_. [])) demo_role_api (\<lambda>_. []) 7 demo_choices
     (custom_role_reconciler_of demo_hosts) \<lparr>req_Namespace = ''ns'', req_Name = ''auditor''\<rparr> empty_world))"

theorem reconcilers_close_connections_witness:
  "conns demo_closing = [] \<and> list_ex (\<lambda>k. conns (take k demo_closing) \<noteq> []) [0..<length demo_closing]"
proof -
  have "settled (w_sql empty_world)" and e: "conns (w_sql empty_world) = []"
    by (simp_all add: empty_world_def settled_def conns_def conn_state_def)
  from reconcilers_close_connections [OF this(1), of "ref_server id (\<lambda>_. [])" demo_role_api "\<lambda>_. []" 7 demo_hosts _ demo_choices]
  have "conns demo_closing = []" unfolding demo_closing_def e by (rule conjunct2)
  moreover have "list_ex (\<lambda>k. conns (take k demo_closing) \<noteq> []) [0..<length demo_closing]" by code_simp
  ultimately show ?thesis by (rule conjI)
qed

text \<open>Deleting a user: when the reconciler, wired as \<open>main\<close> wires it, sends an update of the
  resource without its finalizer, so that Kubernetes may delete it, no IAM policy lets the user
  connect to any role any more.\<close>

theorem user_deletion_revokes:
  fixes config :: ControllerConfiguration and aws :: aws and api :: api and clock :: "pass \<Rightarrow> nat \<Rightarrow> check \<Rightarrow> gotime"
  defines "r \<equiv> user_reconciler_of aws api clock config"
  assumes "iam_laws aws (iam_client r) st"
    and "user_Reconcile srv api render session rngC rngR rngX r req w = Some (res, w')"
    and "w_kube w' = w_kube w @ [UpdateUser user a]" and "userFinalizer \<notin> set (om_Finalizers (pu_Meta user))"
  shows "access (docs st (w_aws w')) (us_Name (pu_Spec user)) = {}"
proof -
  have "RemoveUser aws (iam_client r) (ur_AWSLoginRoles r) (us_Name (pu_Spec user)) (w_aws w) = (Inr (), w_aws w')"
    using user_reconcile_drops_finalizer [OF assms(3) [unfolded user_Reconcile_def] assms(4,5)]
    by (simp add: r_def user_reconciler_of_def)
  from RemoveUser_docs [OF assms(2) this] show ?thesis by (simp add: access_remove_spec)
qed

definition demo_user :: PostgreSQLUser where
  "demo_user = \<lparr>
     pu_Meta = \<lparr>om_Name = ''u'', om_Namespace = ''ns'', om_Finalizers = [userFinalizer], om_DeletionTimestamp = Some 5\<rparr>,
     pu_Spec = \<lparr>us_Name = ''u'', us_Read = None, us_Write = None\<rparr>\<rparr>"

definition demo_user_api :: api where
  "demo_user_api = demo_api\<lparr>api_GetUser := (\<lambda>_ _. Inr demo_user)\<rparr>"

definition demo_iam :: Client where
  "demo_iam = NewClient ''660013655494'' ''/''"

definition demo_document :: PolicyDocument where
  "demo_document = Add ''r'' ''0'' ''d_'' ''u'' ''u'' (NewPolicyDocument ''2012-10-17'')"

definition demo_table :: policy_table where
  "demo_table = [(''b_0'', ''v1'', (case json_Marshal demo_document of Inr j \<Rightarrow> j | Inl e \<Rightarrow> []))]"

definition demo_user_reconciler :: "aws \<Rightarrow> PostgreSQLUserReconciler" where
  "demo_user_reconciler aws = user_reconciler_of aws demo_user_api (\<lambda>_ _ _. 0) (RegisterFlags zero_config)"

definition demo_user_deletion :: "((Result \<times> goerr option) \<times> world) option" where
  "demo_user_deletion = user_Reconcile (ref_server id (\<lambda>_. [])) demo_user_api (\<lambda>_. []) None id id id
     (demo_user_reconciler (ref_aws demo_iam demo_table)) \<lparr>req_Namespace = ''ns'', req_Name = ''u''\<rparr> empty_world"

definition demo_user_deleted :: PostgreSQLUser where
  "demo_user_deleted = demo_user\<lparr>pu_Meta := RemoveFinalizer userFinalizer (pu_Meta demo_user)\<rparr>"

lemma demo_user_deletion_log:
  "map_option (\<lambda>x. w_kube (snd x)) demo_user_deletion = Some [UpdateUser demo_user_deleted None]"
  by code_simp

theorem user_deletion_revokes_witness:
  "\<exists>res w'. demo_user_deletion = Some (res, w') \<and> access (docs (ref_store demo_iam demo_table) (w_aws w')) ''u'' = {}"
proof -
  let ?r = "user_reconciler_of (ref_aws demo_iam demo_table) demo_user_api (\<lambda>_ _ _. 0) (RegisterFlags zero_config)"
  obtain res w' where run: "demo_user_deletion = Some (res, w')" and log: "w_kube w' = [UpdateUser demo_user_deleted None]"
    using demo_user_deletion_log by (auto simp: map_option_case split: option.splits)
  have c: "iam_client ?r = demo_iam"
    by (simp add: iam_client_def user_reconciler_of_def RegisterFlags_def demo_iam_def)
  have "distinct (map fst demo_table)" by (simp add: demo_table_def)
  then have laws: "iam_laws (ref_aws demo_iam demo_table) (iam_client ?r) (ref_store demo_iam demo_table)"
    unfolding c by (rule ref_iam_laws)
  have "access (docs (ref_store demo_iam demo_table) (w_aws w')) (us_Name (pu_Spec demo_user_deleted)) = {}"
    by (rule user_deletion_revokes [OF laws run [unfolded demo_user_deletion_def demo_user_reconciler_def]])
      (simp_all add: log empty_world_def demo_user_deleted_def RemoveFinalizer_def)
  then have "access (docs (ref_store demo_iam demo_table) (w_aws w')) ''u'' = {}"
    by (simp add: demo_user_deleted_def demo_user_def)
  with run show ?thesis by blast
qed

end
